theory Spec2Isabelle
  imports Complex_Main "HOL-Library.Word"
begin

section \<open>Strings, bytes and errors\<close>

text \<open>
  A JavaScript string is modelled by the list of the bytes of its UTF-8 encoding, so an
  ASCII character is one \<open>char\<close> and every delimiter the programs look for (\<open>;\<close>, \<open>=\<close>,
  \<open>-\<close>, the double quote, \<open><\<close>, \<open>>\<close>, \<open>%\<close>) is found at the same places as in the
  string itself. A \<^verbatim>\<open>Buffer\<close> is a list of bytes.
\<close>

type_synonym byte = "8 word"

datatype error =
    CredentialRejected
  | CtxCookieMissing
  | Authentification string
  | UnexpectedRedirect
  | SessionCookieNotFound
  | KeycloakActionNotFound
  | FetchFailed
  | TypeError
  | SyntaxError
  | URIError
  | ShellError

text \<open>
  The errors stand for the \<^verbatim>\<open>Error\<close> objects thrown with these messages (written
  here without their accents):
  \<^item> \<open>CredentialRejected\<close>: \<^verbatim>\<open>Authentification echouee : identifiant ou mot de passe incorrect.\<close>
    followed by the notice that the credentials were removed from the keychain;
  \<^item> \<open>CtxCookieMissing\<close>: \<^verbatim>\<open>Cookie ctxUrssaf non trouve - l'API URSSAF a peut-etre change\<close>;
  \<^item> \<open>Authentification m\<close>: the text \<^verbatim>\<open>Authentification: \<close> followed by \<open>m\<close>;
  \<^item> \<open>UnexpectedRedirect\<close>: \<^verbatim>\<open>Redirection inattendue apres authentification\<close>;
  \<^item> \<open>SessionCookieNotFound\<close>: \<^verbatim>\<open>PHPSESSID non trouve apres les redirections\<close>;
  \<^item> \<open>KeycloakActionNotFound\<close>: \<^verbatim>\<open>Impossible de trouver l'URL d'action du formulaire Keycloak\<close>;
  \<^item> \<open>FetchFailed\<close>: the promise of \<^verbatim>\<open>fetch\<close> rejects (no answer, or not a URL);
  \<^item> \<open>TypeError\<close>, \<open>SyntaxError\<close>, \<open>URIError\<close>: thrown by the runtime on a property
    of \<^verbatim>\<open>null\<close> or \<^verbatim>\<open>undefined\<close> or an invalid URL, by \<^verbatim>\<open>JSON.parse\<close>, by
    \<^verbatim>\<open>decodeURIComponent\<close>;
  \<^item> \<open>ShellError\<close>: a command run with \<^verbatim>\<open>Bun.$\<close> exits with a status other than 0.
\<close>

definition dquote :: char where
  "dquote = CHR 0x22"

definition startsWith :: "string \<Rightarrow> string \<Rightarrow> bool" where
  "startsWith s p = (take (length p) s = p)"

fun includes_str :: "string \<Rightarrow> string \<Rightarrow> bool" where
  "includes_str [] p = (p = [])"
| "includes_str (c # cs) p = (startsWith (c # cs) p \<or> includes_str cs p)"

fun join :: "string \<Rightarrow> string list \<Rightarrow> string" where
  "join sep [] = []"
| "join sep [x] = x"
| "join sep (x # y # ys) = x @ sep @ join sep (y # ys)"

text \<open>
  \<open>replaceAll p r s\<close> is \<^verbatim>\<open>s.replace(/p/g, r)\<close> for a pattern \<open>p\<close> that is a literal,
  non-empty text: the occurrences are replaced from left to right, without overlap.
\<close>

function replaceAll :: "string \<Rightarrow> string \<Rightarrow> string \<Rightarrow> string" where
  "replaceAll p r [] = []"
| "replaceAll p r (c # cs) =
     (if p \<noteq> [] \<and> startsWith (c # cs) p
      then r @ replaceAll p r (drop (length p - 1) cs)
      else c # replaceAll p r cs)"
  by pat_completeness auto
termination
  by (relation "measure (\<lambda>(p, r, s). length s)") auto

text \<open>
  \<^verbatim>\<open>String.prototype.trim\<close> removes the white space and line terminators of
  ECMAScript at both ends: U+0009 to U+000D, U+0020, U+00A0, U+1680, U+2000 to U+200A,
  U+2028, U+2029, U+202F, U+205F, U+3000 and U+FEFF, here as UTF-8.
\<close>

definition white_space :: "string list" where
  "white_space =
     map (\<lambda>c. [c]) [CHR 0x09, CHR 0x0A, CHR 0x0B, CHR 0x0C, CHR 0x0D, CHR 0x20]
     @ [[CHR 0xC2, CHR 0xA0], [CHR 0xE1, CHR 0x9A, CHR 0x80]]
     @ map (\<lambda>c. [CHR 0xE2, CHR 0x80, c])
         [CHR 0x80, CHR 0x81, CHR 0x82, CHR 0x83, CHR 0x84, CHR 0x85, CHR 0x86, CHR 0x87,
          CHR 0x88, CHR 0x89, CHR 0x8A, CHR 0xA8, CHR 0xA9, CHR 0xAF]
     @ [[CHR 0xE2, CHR 0x81, CHR 0x9F], [CHR 0xE3, CHR 0x80, CHR 0x80],
        [CHR 0xEF, CHR 0xBB, CHR 0xBF]]"

function trimStart :: "string list \<Rightarrow> string \<Rightarrow> string" where
  "trimStart ws s =
     (case List.find (\<lambda>w. w \<noteq> [] \<and> startsWith s w) ws of
        None \<Rightarrow> s
      | Some w \<Rightarrow> trimStart ws (drop (length w) s))"
  by pat_completeness auto
termination
proof (relation "measure (\<lambda>(ws, s). length s)")
  show "wf (measure (\<lambda>(ws, s). length s))" by simp
next
  fix ws :: "string list" and s w :: string
  assume "List.find (\<lambda>w. w \<noteq> [] \<and> startsWith s w) ws = Some w"
  then have "w \<noteq> [] \<and> startsWith s w"
    by (auto simp: find_Some_iff)
  then have "w \<noteq> []" and "s \<noteq> []"
    by (auto simp: startsWith_def)
  then show "((ws, drop (length w) s), (ws, s)) \<in> measure (\<lambda>(ws, s). length s)"
    by simp
qed

definition trim :: "string \<Rightarrow> string" where
  "trim s = rev (trimStart (map rev white_space) (rev (trimStart white_space s)))"

section \<open>Base64 (the encodings of Buffer)\<close>

text \<open>
  \<^verbatim>\<open>buf.toString("base64url")\<close> writes each group of three bytes as four digits of six
  bits in the URL alphabet, a last group of one or two bytes as two or three digits,
  and no padding; \<^verbatim>\<open>buf.toString("base64")\<close> uses the standard alphabet and pads with
  \<open>=\<close> to a multiple of four. \<^verbatim>\<open>Buffer.from(s, "base64")\<close> reads the digits of either
  alphabet, skips any other character and stops at the first \<open>=\<close>; a dangling single
  digit carries no byte.
\<close>

definition b64_alphabet :: string where
  "b64_alphabet = ''ABCDEFGHIJKLMNOPQRSTUVWXYZabcdefghijklmnopqrstuvwxyz0123456789+/''"

definition b64url_alphabet :: string where
  "b64url_alphabet = ''ABCDEFGHIJKLMNOPQRSTUVWXYZabcdefghijklmnopqrstuvwxyz0123456789-_''"

fun sextets :: "byte list \<Rightarrow> nat list" where
  "sextets (a # b # c # r) =
     [unat a div 4, (unat a mod 4) * 16 + unat b div 16,
      (unat b mod 16) * 4 + unat c div 64, unat c mod 64] @ sextets r"
| "sextets [a, b] =
     [unat a div 4, (unat a mod 4) * 16 + unat b div 16, (unat b mod 16) * 4]"
| "sextets [a] = [unat a div 4, (unat a mod 4) * 16]"
| "sextets [] = []"

definition b64url :: "byte list \<Rightarrow> string" where
  "b64url b = map (\<lambda>i. b64url_alphabet ! i) (sextets b)"

definition base64 :: "byte list \<Rightarrow> string" where
  "base64 b = map (\<lambda>i. b64_alphabet ! i) (sextets b)
     @ replicate ((3 - length b mod 3) mod 3) (CHR ''='')"

definition b64_digit :: "char \<Rightarrow> nat option" where
  "b64_digit c =
     (let n = (of_char c :: nat) in
      if 65 \<le> n \<and> n \<le> 90 then Some (n - 65)
      else if 97 \<le> n \<and> n \<le> 122 then Some (n - 71)
      else if 48 \<le> n \<and> n \<le> 57 then Some (n + 4)
      else if c = CHR ''+'' \<or> c = CHR ''-'' then Some 62
      else if c = CHR ''/'' \<or> c = CHR ''_'' then Some 63
      else None)"

fun unsextets :: "nat list \<Rightarrow> byte list" where
  "unsextets (s0 # s1 # s2 # s3 # r) =
     [of_nat (s0 * 4 + s1 div 16), of_nat ((s1 mod 16) * 16 + s2 div 4),
      of_nat ((s2 mod 4) * 64 + s3)] @ unsextets r"
| "unsextets [s0, s1, s2] =
     [of_nat (s0 * 4 + s1 div 16), of_nat ((s1 mod 16) * 16 + s2 div 4)]"
| "unsextets [s0, s1] = [of_nat (s0 * 4 + s1 div 16)]"
| "unsextets [s0] = []"
| "unsextets [] = []"

definition Buffer_from_base64 :: "string \<Rightarrow> byte list" where
  "Buffer_from_base64 s =
     unsextets (List.map_filter b64_digit (takeWhile (\<lambda>c. c \<noteq> CHR ''='') s))"

text \<open>
  \<^verbatim>\<open>randomBytes(n)\<close> of \<^verbatim>\<open>node:crypto\<close> takes the next \<open>n\<close> bytes of the random source of
  the process; the source is the stream of the bytes it will yield.
\<close>

type_synonym rng = "nat \<Rightarrow> byte"

definition randomBytes :: "nat \<Rightarrow> rng \<Rightarrow> byte list \<times> rng" where
  "randomBytes n g = (map g [0..<n], \<lambda>i. g (i + n))"

section \<open>Numbers\<close>

text \<open>
  A JavaScript number is an IEEE 754 double: a finite value, the negative zero, one of
  the two infinities, or NaN. A finite value is kept as the rational it denotes, and
  \<open>Finite 0\<close> is the positive zero. An arithmetic operation gives the exact result
  rounded to the nearest double, a tie going to the even significand
  (\<open>nearest_double\<close>): significands have 53 bits, the unit in the last place is
  \<open>2\<close> to the power \<open>floor_log2 \<bar>q\<bar> - 52\<close> and at least \<open>2\<close> to the power \<open>- 1074\<close> (the
  subnormal numbers), and a magnitude that rounds to \<open>2 ^ 1024\<close> or more is an
  infinity. \<open>floor_log2 q\<close> is the integer part of the binary logarithm of a positive
  rational: the number of halvings that bring it below 2, or minus the number of
  doublings that bring it to 1 or more.
\<close>

datatype number = Finite rat | NegZero | PosInfinity | NegInfinity | NaN

function halvings :: "rat \<Rightarrow> nat" where
  "halvings q = (if 2 \<le> q then Suc (halvings (q / 2)) else 0)"
  by pat_completeness auto
termination
proof (relation "measure (\<lambda>q. nat \<lfloor>q\<rfloor>)")
  show "wf (measure (\<lambda>q. nat \<lfloor>q\<rfloor>))" by simp
next
  fix q :: rat
  assume q: "2 \<le> q"
  then have "q / 2 \<le> q - 1" by simp
  then have "\<lfloor>q / 2\<rfloor> \<le> \<lfloor>q - 1\<rfloor>" by (rule floor_mono)
  moreover from q have "2 \<le> \<lfloor>q\<rfloor>" by (simp add: le_floor_iff)
  ultimately show "(q / 2, q) \<in> measure (\<lambda>q. nat \<lfloor>q\<rfloor>)" by simp
qed

function doublings :: "rat \<Rightarrow> nat" where
  "doublings q = (if 0 < q \<and> q < 1 then Suc (doublings (2 * q)) else 0)"
  by pat_completeness auto
termination
proof (relation "measure (\<lambda>q. nat \<lfloor>1 / q\<rfloor>)")
  show "wf (measure (\<lambda>q. nat \<lfloor>1 / q\<rfloor>))" by simp
next
  fix q :: rat
  assume q: "0 < q \<and> q < 1"
  then have one: "1 \<le> \<lfloor>1 / q\<rfloor>" by (simp add: le_floor_iff)
  have "1 / q < of_int (\<lfloor>1 / q\<rfloor> + 1)"
    using floor_correct [of "1 / q"] by blast
  then have "1 / (2 * q) < of_int (\<lfloor>1 / q\<rfloor> + 1) / 2" by simp
  also have "\<dots> \<le> of_int \<lfloor>1 / q\<rfloor>" using one by simp
  finally have "\<lfloor>1 / (2 * q)\<rfloor> < \<lfloor>1 / q\<rfloor>" by (simp add: floor_less_iff)
  with one show "(2 * q, q) \<in> measure (\<lambda>q. nat \<lfloor>1 / q\<rfloor>)" by simp
qed

declare halvings.simps [simp del] doublings.simps [simp del]

definition floor_log2 :: "rat \<Rightarrow> int" where
  "floor_log2 q = (if 1 \<le> q then int (halvings q) else - int (doublings q))"

definition round_half_even :: "rat \<Rightarrow> int" where
  "round_half_even x =
     (let n = \<lfloor>x\<rfloor>; d = x - of_int n
      in if d < 1 / 2 then n else if 1 / 2 < d then n + 1 else if even n then n else n + 1)"

definition nearest_double :: "rat \<Rightarrow> number" where
  "nearest_double q =
     (if q = 0 then Finite 0
      else
        let e = max (floor_log2 \<bar>q\<bar> - 52) (- 1074);
            r = of_int (round_half_even (q / 2 powi e)) * 2 powi e
        in if 2 ^ 1024 \<le> \<bar>r\<bar> then (if 0 < q then PosInfinity else NegInfinity)
           else if r = 0 then (if 0 < q then Finite 0 else NegZero)
           else Finite r)"

text \<open>
  The sign of a number, whether it is a zero or an infinity, and the rational that a
  finite number denotes (both zeros denote 0).
\<close>

fun negative :: "number \<Rightarrow> bool" where
  "negative (Finite q) = (q < 0)"
| "negative NegZero = True"
| "negative NegInfinity = True"
| "negative x = False"

fun is_zero :: "number \<Rightarrow> bool" where
  "is_zero (Finite q) = (q = 0)"
| "is_zero NegZero = True"
| "is_zero x = False"

fun is_infinite :: "number \<Rightarrow> bool" where
  "is_infinite PosInfinity = True"
| "is_infinite NegInfinity = True"
| "is_infinite x = False"

fun mathematical_value :: "number \<Rightarrow> rat" where
  "mathematical_value (Finite q) = q"
| "mathematical_value x = 0"

text \<open>
  The operators \<^verbatim>\<open>+\<close>, \<^verbatim>\<open>*\<close> and \<^verbatim>\<open><\<close> on numbers (\<^verbatim>\<open>a > b\<close> is \<^verbatim>\<open>b < a\<close>). A sum or
  product with NaN is NaN, and so are the sum of the two infinities and the product
  of an infinity and a zero; a comparison with NaN is false. The sum of two negative
  zeros is the negative zero and any other sum of zeros, or of opposite numbers, is the
  positive zero; the sign of a product is the product of the signs.
\<close>

definition number_add :: "number \<Rightarrow> number \<Rightarrow> number" where
  "number_add a b =
     (if a = NaN \<or> b = NaN then NaN
      else if is_infinite a then (if is_infinite b \<and> b \<noteq> a then NaN else a)
      else if is_infinite b then b
      else if a = NegZero \<and> b = NegZero then NegZero
      else nearest_double (mathematical_value a + mathematical_value b))"

definition number_multiply :: "number \<Rightarrow> number \<Rightarrow> number" where
  "number_multiply a b =
     (if a = NaN \<or> b = NaN then NaN
      else if is_infinite a \<or> is_infinite b then
        (if is_zero a \<or> is_zero b then NaN
         else if negative a \<noteq> negative b then NegInfinity else PosInfinity)
      else if is_zero a \<or> is_zero b then
        (if negative a \<noteq> negative b then NegZero else Finite 0)
      else nearest_double (mathematical_value a * mathematical_value b))"

definition number_lessThan :: "number \<Rightarrow> number \<Rightarrow> bool" where
  "number_lessThan a b =
     (if a = NaN \<or> b = NaN then False
      else if a = PosInfinity \<or> b = NegInfinity then False
      else if a = NegInfinity \<or> b = PosInfinity then True
      else mathematical_value a < mathematical_value b)"

text \<open>
  \<open>JSON_number x\<close> is what \<^verbatim>\<open>JSON.parse\<close> reads back from the text that
  \<^verbatim>\<open>JSON.stringify\<close> writes for the number \<open>x\<close>: the same finite value (the text is
  the shortest decimal that reads back as the same double, and the negative zero is
  written \<^verbatim>\<open>0\<close>), and \<^verbatim>\<open>null\<close> (\<open>None\<close>) for an infinity or NaN. \<open>ToNumber\<close> is the
  conversion that a comparison applies to such a value: \<^verbatim>\<open>null\<close> becomes the positive
  zero. \<open>Date_now ms\<close> is the number that \<^verbatim>\<open>Date.now()\<close> returns when the clock is at
  \<open>ms\<close> milliseconds: a time value is an integer of magnitude at most
  \<open>8.64 * 10 ^ 15\<close>, which is below \<open>2 ^ 53\<close>, so it is a double as it is.
\<close>

fun JSON_number :: "number \<Rightarrow> rat option" where
  "JSON_number (Finite q) = Some q"
| "JSON_number NegZero = Some 0"
| "JSON_number x = None"

fun ToNumber :: "rat option \<Rightarrow> number" where
  "ToNumber None = Finite 0"
| "ToNumber (Some q) = Finite q"

definition Date_now :: "int \<Rightarrow> number" where
  "Date_now ms = Finite (of_int ms)"

section \<open>JSON documents, HTTP messages and the platform\<close>

text \<open>
  The value of \<^verbatim>\<open>JSON.parse\<close>.
\<close>

datatype json =
    JNull
  | JBool bool
  | JNum number
  | JStr string
  | JArr "json list"
  | JObj "(string \<times> json) list"

fun json_get :: "json \<Rightarrow> string \<Rightarrow> json option" where
  "json_get (JObj kvs) k = map_of kvs k"
| "json_get v k = None"

text \<open>
  Reading a property, or destructuring one, of a value that may be \<^verbatim>\<open>undefined\<close>
  (\<open>None\<close>): a \<^verbatim>\<open>TypeError\<close> on \<^verbatim>\<open>undefined\<close> and \<^verbatim>\<open>null\<close>, the member of an object,
  \<^verbatim>\<open>undefined\<close> otherwise.
\<close>

fun prop_of :: "json option \<Rightarrow> string \<Rightarrow> error + json option" where
  "prop_of None k = Inl TypeError"
| "prop_of (Some JNull) k = Inl TypeError"
| "prop_of (Some v) k = Inr (json_get v k)"

record Request =
  http_method :: string
  url :: string
  query :: "(string \<times> string) list"
  headers :: "(string \<times> string) list"
  form :: "(string \<times> string) list"
  redirect_manual :: bool

text \<open>
  A request as \<^verbatim>\<open>fetch\<close> receives it: \<open>query\<close> holds the pairs given to
  \<^verbatim>\<open>URLSearchParams\<close> for the query string and \<open>form\<close> the fields of a form-encoded
  body, both before percent-encoding. A response: its status, its \<^verbatim>\<open>Location\<close> header
  (\<^verbatim>\<open>headers.get\<close> gives \<^verbatim>\<open>null\<close> when there is none), its \<^verbatim>\<open>Set-Cookie\<close> headers
  (\<^verbatim>\<open>headers.getSetCookie()\<close>) and its body (\<^verbatim>\<open>text()\<close>).
\<close>

record Response =
  status :: int
  location :: "string option"
  setCookie :: "string list"
  body :: string

text \<open>
  What the programs call and do not define. \<open>fetch\<close> answers a request, given the
  exchanges made before it (\<open>None\<close>: the promise rejects). \<open>CookieMap\<close> is
  \<^verbatim>\<open>new Bun.CookieMap(s)\<close> read through \<^verbatim>\<open>get\<close>. \<open>JSON_parse\<close> is \<open>None\<close> on a
  \<^verbatim>\<open>SyntaxError\<close>. \<open>ToString\<close> is the conversion \<^verbatim>\<open>URLSearchParams\<close> applies to a value that
  is not a string. \<open>Buffer_toString\<close> is \<^verbatim>\<open>buf.toString()\<close>, the UTF-8 decoding.
  \<open>decode_escapes\<close> is \<^verbatim>\<open>decodeURIComponent\<close> on a string that has a \<open>%\<close> (\<open>None\<close>: a
  \<^verbatim>\<open>URIError\<close>). \<open>sha256\<close> is \<^verbatim>\<open>createHash("sha256").update(s).digest()\<close>.
  \<open>searchParams\<close> is \<^verbatim>\<open>new URL(s).searchParams.get\<close> (\<open>None\<close>: not a URL).
\<close>

type_synonym exchange = "Request \<times> Response option"

record platform =
  fetch :: "(Request \<times> Response option) list \<Rightarrow> Request \<Rightarrow> Response option"
  CookieMap :: "string \<Rightarrow> string \<Rightarrow> string option"
  JSON_parse :: "string \<Rightarrow> json option"
  ToString :: "json option \<Rightarrow> string"
  Buffer_toString :: "byte list \<Rightarrow> string"
  decode_escapes :: "string \<Rightarrow> string option"
  sha256 :: "string \<Rightarrow> byte list"
  searchParams :: "string \<Rightarrow> (string \<Rightarrow> string option) option"

definition DEFAULT_HEADERS :: "(string \<times> string) list" where
  "DEFAULT_HEADERS =
     [(''User-Agent'',
       ''Mozilla/5.0 (Macintosh; Intel Mac OS X 10.15; rv:143.0) Gecko/20100101 Firefox/143.0'')]"

text \<open>
  A call of \<^verbatim>\<open>fetch\<close>: the answer, and the log of the exchanges with this one added.
\<close>

definition do_fetch ::
  "platform \<Rightarrow> exchange list \<Rightarrow> Request \<Rightarrow> Response option \<times> exchange list" where
  "do_fetch P tr req = (fetch P tr req, tr @ [(req, fetch P tr req)])"

definition parseCookies :: "platform \<Rightarrow> Response \<Rightarrow> string \<Rightarrow> string option" where
  "parseCookies P res = CookieMap P (join ''; '' (setCookie res))"

text \<open>The test \<^verbatim>\<open>if (v)\<close> on a string or \<^verbatim>\<open>null\<close>: the empty string is false too.\<close>

fun truthy :: "string option \<Rightarrow> bool" where
  "truthy None = False"
| "truthy (Some s) = (s \<noteq> [])"

section \<open>Secret store, credentials and session tokens (utils.ts)\<close>


text \<open>
  \<^verbatim>\<open>Bun.secrets\<close> is the keychain of the operating system: a store of strings
  keyed by a service and a name. Every value this module writes is the
  \<^verbatim>\<open>JSON.stringify\<close> of a \<^verbatim>\<open>Credentials\<close> or of a \<^verbatim>\<open>SessionData\<close> object and every
  value it reads goes through \<^verbatim>\<open>JSON.parse\<close>; the model keeps the object a stored text
  denotes: for a session, the token and the \<open>expiresAt\<close> that \<^verbatim>\<open>JSON.parse\<close> reads
  back, a finite number or \<^verbatim>\<open>null\<close> (\<open>None\<close>). The clock is a count of milliseconds,
  an integer; a duration is any number.
\<close>

datatype ServiceName = Kbis | Urssaf

fun service_name :: "ServiceName \<Rightarrow> string" where
  "service_name Kbis = ''kbis''"
| "service_name Urssaf = ''urssaf''"

record Credentials =
  login :: string
  password :: string

record SessionData =
  token :: string
  expiresAt :: "rat option"

datatype secret = CredentialsJSON Credentials | SessionJSON SessionData

type_synonym secret_key = "string \<times> string"
type_synonym secrets = "secret_key \<rightharpoonup> secret"

definition KEYCHAIN_SERVICE :: string where
  "KEYCHAIN_SERVICE = ''cli-administratif''"

definition getCredentials :: "ServiceName \<Rightarrow> secrets \<Rightarrow> secret option" where
  "getCredentials name s = s (KEYCHAIN_SERVICE, service_name name)"

definition setCredentials :: "ServiceName \<Rightarrow> string \<Rightarrow> string \<Rightarrow> secrets \<Rightarrow> secrets" where
  "setCredentials name l p s =
     s((KEYCHAIN_SERVICE, service_name name) \<mapsto> CredentialsJSON \<lparr>login = l, password = p\<rparr>)"

definition deleteCredentials :: "ServiceName \<Rightarrow> secrets \<Rightarrow> secrets" where
  "deleteCredentials name s = s((KEYCHAIN_SERVICE, service_name name) := None)"

definition sessionKey :: "ServiceName \<Rightarrow> string" where
  "sessionKey name = service_name name @ ''-session''"

definition deleteSessionToken :: "ServiceName \<Rightarrow> secrets \<Rightarrow> secrets" where
  "deleteSessionToken name s = s((KEYCHAIN_SERVICE, sessionKey name) := None)"

text \<open>
  \<open>getSessionToken name now s\<close>: \<open>now\<close> is the clock at the call. The result is the
  token (\<open>None\<close> for \<^verbatim>\<open>null\<close>) and the store after the call. The test
  \<^verbatim>\<open>Date.now() > data.expiresAt\<close> compares two numbers, a \<^verbatim>\<open>null\<close> being read as 0.
  An entry that holds a credentials object has no \<^verbatim>\<open>expiresAt\<close> and no \<^verbatim>\<open>token\<close>
  field: the comparison with \<^verbatim>\<open>undefined\<close> is false and the \<^verbatim>\<open>undefined\<close> token is
  returned, which is absent too. \<open>setSessionToken name t ttlMinutes now s\<close> computes
  \<^verbatim>\<open>Date.now() + ttlMinutes * 60 * 1000\<close> from left to right and stores what
  \<^verbatim>\<open>JSON.stringify\<close> keeps of it.
\<close>

definition getSessionToken :: "ServiceName \<Rightarrow> int \<Rightarrow> secrets \<Rightarrow> string option \<times> secrets" where
  "getSessionToken name now s =
     (case s (KEYCHAIN_SERVICE, sessionKey name) of
        None \<Rightarrow> (None, s)
      | Some (SessionJSON d) \<Rightarrow>
          if number_lessThan (ToNumber (expiresAt d)) (Date_now now)
          then (None, deleteSessionToken name s)
          else (Some (token d), s)
      | Some (CredentialsJSON c) \<Rightarrow> (None, s))"

definition setSessionToken ::
  "ServiceName \<Rightarrow> string \<Rightarrow> number \<Rightarrow> int \<Rightarrow> secrets \<Rightarrow> secrets" where
  "setSessionToken name t ttlMinutes now s =
     s((KEYCHAIN_SERVICE, sessionKey name) \<mapsto>
         SessionJSON \<lparr>token = t,
           expiresAt = JSON_number
             (number_add (Date_now now)
                (number_multiply (number_multiply ttlMinutes (Finite 60)) (Finite 1000)))\<rparr>)"

section \<open>Interactive prompts (utils.ts)\<close>

text \<open>
  The terminal of the process: whether it echoes what is typed, the chunks of input still
  to come as \<^verbatim>\<open>data\<close> events of \<^verbatim>\<open>process.stdin\<close>, what was written to
  \<^verbatim>\<open>process.stdout\<close>, the commands run with \<^verbatim>\<open>Bun.$\<close> in order, and whether the input was
  paused. A promise that waits for a \<^verbatim>\<open>data\<close> event when no input comes never settles:
  the call is \<open>Pending\<close>, it neither returns nor throws. \<open>sh c\<close> says whether the
  command \<open>c\<close> exits with status 0; \<^verbatim>\<open>Bun.$\<close> throws when it does not, and the terminal
  is then as it was.
\<close>

record Terminal =
  echo :: bool
  stdin :: "string list"
  stdout :: "string list"
  shell_log :: "string list"
  paused :: bool

datatype 'a outcome = Returned 'a | Thrown error | Pending

definition write_out :: "string \<Rightarrow> Terminal \<Rightarrow> Terminal" where
  "write_out s t = t\<lparr>stdout := stdout t @ [s]\<rparr>"

definition stty :: "(string \<Rightarrow> bool) \<Rightarrow> bool \<Rightarrow> Terminal \<Rightarrow> bool \<times> Terminal" where
  "stty sh on t =
     (let cmd = (if on then ''stty echo'' else ''stty -echo'');
          t1 = t\<lparr>shell_log := shell_log t @ [cmd]\<rparr>
      in if sh cmd then (True, t1\<lparr>echo := on\<rparr>) else (False, t1))"

definition ask :: "string \<Rightarrow> Terminal \<Rightarrow> string outcome \<times> Terminal" where
  "ask prompt t =
     (let t1 = write_out prompt t in
      case stdin t1 of
        [] \<Rightarrow> (Pending, t1)
      | d # ds \<Rightarrow> (Returned (trim d), t1\<lparr>stdin := ds\<rparr>))"

definition askPassword ::
  "(string \<Rightarrow> bool) \<Rightarrow> string \<Rightarrow> Terminal \<Rightarrow> string outcome \<times> Terminal" where
  "askPassword sh prompt t =
     (let t1 = write_out prompt t;
          (ok1, t2) = stty sh False t1
      in if \<not> ok1 then (Thrown ShellError, t2)
         else case stdin t2 of
           [] \<Rightarrow> (Pending, t2)
         | d # ds \<Rightarrow>
             (let (ok2, t3) = stty sh True (t2\<lparr>stdin := ds\<rparr>)
              in if \<not> ok2 then (Thrown ShellError, t3)
                 else (Returned (trim d), write_out [CHR 0x0A] t3)))"

text \<open>
  The stored value is an object and so is true in \<^verbatim>\<open>if (stored)\<close>. The message of
  \<^verbatim>\<open>console.log\<close> is written with its line end.
\<close>

definition getOrPromptCredentials ::
  "ServiceName \<Rightarrow> string \<Rightarrow> (string \<Rightarrow> bool) \<Rightarrow> Terminal \<Rightarrow> secrets
     \<Rightarrow> secret outcome \<times> Terminal \<times> secrets" where
  "getOrPromptCredentials name loginPrompt sh t s =
     (case getCredentials name s of
        Some stored \<Rightarrow> (Returned stored, t, s)
      | None \<Rightarrow>
         (case ask loginPrompt t of
            (Thrown e, t1) \<Rightarrow> (Thrown e, t1, s)
          | (Pending, t1) \<Rightarrow> (Pending, t1, s)
          | (Returned l, t1) \<Rightarrow>
             (case askPassword sh ''Mot de passe: '' t1 of
                (Thrown e, t2) \<Rightarrow> (Thrown e, t2, s)
              | (Pending, t2) \<Rightarrow> (Pending, t2, s)
              | (Returned p, t2) \<Rightarrow>
                 (Returned (CredentialsJSON \<lparr>login = l, password = p\<rparr>),
                  write_out (''Identifiants sauvegard'' @ [CHR 0xC3, CHR 0xA9]
                      @ ''s dans le trousseau.'' @ [CHR 0x0A]) (t2\<lparr>paused := True\<rparr>),
                  setCredentials name l p s))))"

section \<open>The handshake of monidenum.fr (mon-kbis.ts)\<close>

text \<open>
  The two regular expressions of \<^verbatim>\<open>login\<close>. Each is a sequence of literal texts and
  of greedy runs of a negated character followed by that character (or by the end of
  the expression), so at a given start it matches in one way or not at all, and
  \<^verbatim>\<open>match\<close> takes the leftmost start that matches. The functions return the group.
  \<open>action_match\<close> is \<^verbatim>\<open>/action="([^"]+)"/\<close> and \<open>alert_match\<close> is
  \<^verbatim>\<open>/class="alert[^"]*"[^>]*>([^<]+)/\<close>.
\<close>

definition action_match_here :: "string \<Rightarrow> string option" where
  "action_match_here s =
     (let p = ''action='' @ [dquote] in
      if startsWith s p then
        (let r = drop (length p) s; m = takeWhile (\<lambda>c. c \<noteq> dquote) r
         in if m = [] \<or> drop (length m) r = [] then None else Some m)
      else None)"

fun action_match :: "string \<Rightarrow> string option" where
  "action_match [] = None"
| "action_match (c # cs) =
     (case action_match_here (c # cs) of Some m \<Rightarrow> Some m | None \<Rightarrow> action_match cs)"

definition alert_pattern :: string where
  "alert_pattern = ''class='' @ [dquote] @ ''alert''"

definition alert_match_here :: "string \<Rightarrow> string option" where
  "alert_match_here s =
     (if startsWith s alert_pattern then
        (case dropWhile (\<lambda>c. c \<noteq> dquote) (drop (length alert_pattern) s) of
           [] \<Rightarrow> None
         | q # r \<Rightarrow>
            (case dropWhile (\<lambda>c. c \<noteq> CHR ''>'') r of
               [] \<Rightarrow> None
             | g # t \<Rightarrow>
                (let m = takeWhile (\<lambda>c. c \<noteq> CHR ''<'') t
                 in if m = [] then None else Some m)))
      else None)"

fun alert_match :: "string \<Rightarrow> string option" where
  "alert_match [] = None"
| "alert_match (c # cs) =
     (case alert_match_here (c # cs) of Some m \<Rightarrow> Some m | None \<Rightarrow> alert_match cs)"

definition get_request :: "string \<Rightarrow> bool \<Rightarrow> Request" where
  "get_request u manual =
     \<lparr>http_method = ''GET'', url = u, query = [], headers = [], form = [],
      redirect_manual = manual\<rparr>"

definition form_headers :: "(string \<times> string) list" where
  "form_headers = DEFAULT_HEADERS @ [(''Content-Type'', ''application/x-www-form-urlencoded'')]"

fun string_or_empty :: "string option \<Rightarrow> string" where
  "string_or_empty None = []"
| "string_or_empty (Some s) = s"

text \<open>
  The loop \<^verbatim>\<open>for (let i = 0; i < 5; i++)\<close> of \<^verbatim>\<open>login\<close>, by the number of rounds left:
  \<open>redirect_walk P n currentUrl tr\<close> is the value of \<^verbatim>\<open>phpsessid\<close> after the loop (empty
  when no round set it) and the log of the exchanges, \<open>tr\<close> being the log before.
\<close>

fun redirect_walk ::
  "platform \<Rightarrow> nat \<Rightarrow> string \<Rightarrow> exchange list \<Rightarrow> (error + string) \<times> exchange list" where
  "redirect_walk P 0 currentUrl tr = (Inr [], tr)"
| "redirect_walk P (Suc n) currentUrl tr =
     (case do_fetch P tr (get_request currentUrl True) of
        (None, tr1) \<Rightarrow> (Inl FetchFailed, tr1)
      | (Some res, tr1) \<Rightarrow>
         (let sessionCookie = parseCookies P res ''PHPSESSID'' in
          if truthy sessionCookie then (Inr (string_or_empty sessionCookie), tr1)
          else case location res of
            None \<Rightarrow> (Inr [], tr1)
          | Some nextUrl \<Rightarrow>
             if nextUrl = [] \<or> status res \<noteq> 302 then (Inr [], tr1)
             else redirect_walk P n
                    (if startsWith nextUrl ''http'' then nextUrl
                     else ''https://monidenum.fr'' @ nextUrl)
                    tr1))"

text \<open>
  What \<^verbatim>\<open>login\<close> does with the answer \<open>loginRes\<close> to the POST of the form (from
  \<^verbatim>\<open>const redirectUrl\<close> to the end of the function); \<open>tr\<close> is the log so far.
\<close>

definition after_login_post ::
  "platform \<Rightarrow> Response \<Rightarrow> exchange list \<Rightarrow> (error + string) \<times> exchange list" where
  "after_login_post P loginRes tr =
     (if status loginRes \<noteq> 302 then
        (Inl (Authentification
           (case alert_match (body loginRes) of
              Some m \<Rightarrow> trim (replaceAll ''&#39;'' [CHR 0x27] m)
            | None \<Rightarrow> ''Erreur inconnue'')), tr)
      else case location loginRes of
        None \<Rightarrow> (Inl UnexpectedRedirect, tr)
      | Some redirectUrl \<Rightarrow>
         if redirectUrl = [] \<or> \<not> includes_str redirectUrl ''monidenum.fr''
         then (Inl UnexpectedRedirect, tr)
         else (case redirect_walk P 5 redirectUrl tr of
                 (Inl e, tr') \<Rightarrow> (Inl e, tr')
               | (Inr phpsessid, tr') \<Rightarrow>
                   if phpsessid = [] then (Inl SessionCookieNotFound, tr')
                   else (Inr phpsessid, tr')))"

text \<open>
  \<^verbatim>\<open>login(email, password)\<close> of \<^verbatim>\<open>mon-kbis.ts\<close> (named \<open>kbis_login\<close> here: the name
  \<open>login\<close> is a field of \<open>Credentials\<close> and the function of the other script): the
  session identifier or the error, and the log of the exchanges.
\<close>

definition kbis_login ::
  "platform \<Rightarrow> string \<Rightarrow> string \<Rightarrow> (error + string) \<times> exchange list" where
  "kbis_login P email pw =
     (case do_fetch P [] (get_request ''https://monidenum.fr/login'' True) of
        (None, tr1) \<Rightarrow> (Inl FetchFailed, tr1)
      | (Some loginPageRes, tr1) \<Rightarrow>
         (case location loginPageRes of
            None \<Rightarrow> (Inl FetchFailed, tr1)
          | Some keycloakUrl \<Rightarrow>
             (case do_fetch P tr1 (get_request keycloakUrl False) of
                (None, tr2) \<Rightarrow> (Inl FetchFailed, tr2)
              | (Some keycloakRes, tr2) \<Rightarrow>
                 (let authCookies = join ''; ''
                        (filter (\<lambda>c. startsWith c ''AUTH_SESSION_ID'')
                           (map (takeWhile (\<lambda>c. c \<noteq> CHR '';'')) (setCookie keycloakRes)))
                  in case action_match (body keycloakRes) of
                    None \<Rightarrow> (Inl KeycloakActionNotFound, tr2)
                  | Some a \<Rightarrow>
                     (let actionUrl = replaceAll ''&amp;'' ''&'' a;
                          req3 = \<lparr>http_method = ''POST'', url = actionUrl, query = [],
                                  headers = form_headers @ [(''Cookie'', authCookies)],
                                  form = [(''username'', email), (''password'', pw),
                                          (''credentialId'', [])],
                                  redirect_manual = True\<rparr>
                      in case do_fetch P tr2 req3 of
                        (None, tr3) \<Rightarrow> (Inl FetchFailed, tr3)
                      | (Some loginRes, tr3) \<Rightarrow> after_login_post P loginRes tr3)))))"

section \<open>The handshake of mon.urssaf.fr (mes-echeances-urssaf.ts)\<close>

record AuthResult =
  compte :: "json option"
  access_token :: "json option"

text \<open>
  \<^verbatim>\<open>decodeURIComponent\<close> copies every character but \<open>%\<close>; what it does with an escape
  is the platform's.
\<close>

definition decodeURIComponent :: "platform \<Rightarrow> string \<Rightarrow> string option" where
  "decodeURIComponent P s = (if CHR ''%'' \<in> set s then decode_escapes P s else Some s)"

text \<open>
  The line \<^verbatim>\<open>const { compte } = JSON.parse(Buffer.from(decodeURIComponent(ctxValue),
  "base64").toString())\<close>.
\<close>

definition decode_compte :: "platform \<Rightarrow> string \<Rightarrow> error + json option" where
  "decode_compte P ctxValue =
     (case decodeURIComponent P ctxValue of
        None \<Rightarrow> Inl URIError
      | Some b \<Rightarrow>
         (case JSON_parse P (Buffer_toString P (Buffer_from_base64 b)) of
            None \<Rightarrow> Inl SyntaxError
          | Some doc \<Rightarrow> prop_of (Some doc) ''compte''))"

definition clientId_of :: "platform \<Rightarrow> Response \<Rightarrow> error + json option" where
  "clientId_of P cfg =
     (case JSON_parse P (body cfg) of
        None \<Rightarrow> Inl SyntaxError
      | Some doc \<Rightarrow>
         (case prop_of (Some doc) ''oidc'' of
            Inl e \<Rightarrow> Inl e
          | Inr oidc \<Rightarrow>
             (case prop_of oidc ''annabel'' of
                Inl e \<Rightarrow> Inl e
              | Inr annabel \<Rightarrow> prop_of annabel ''clientId'')))"

text \<open>
  \<^verbatim>\<open>new URL(res.headers.get("Location")!).searchParams.get(name)\<close>: without the header
  the argument is \<^verbatim>\<open>null\<close>, which is not a URL. The result may be \<^verbatim>\<open>null\<close>, and
  \<^verbatim>\<open>URLSearchParams\<close> writes \<^verbatim>\<open>null\<close> as the text \<open>null\<close> and any other value that is not
  a string through \<open>ToString\<close>.
\<close>

definition search_param :: "platform \<Rightarrow> Response \<Rightarrow> string \<Rightarrow> error + string option" where
  "search_param P res name =
     (case location res of
        None \<Rightarrow> Inl TypeError
      | Some u \<Rightarrow>
         (case searchParams P u of
            None \<Rightarrow> Inl TypeError
          | Some g \<Rightarrow> Inr (g name)))"

fun string_or_null :: "string option \<Rightarrow> string" where
  "string_or_null None = ''null''"
| "string_or_null (Some s) = s"

fun to_param :: "platform \<Rightarrow> json option \<Rightarrow> string" where
  "to_param P (Some (JStr s)) = s"
| "to_param P v = ToString P v"

definition cnx_request :: "string \<Rightarrow> string \<Rightarrow> Request" where
  "cnx_request identifiant pw =
     \<lparr>http_method = ''POST'', url = ''https://mon.urssaf.fr/cnx'', query = [],
      headers = form_headers,
      form = [(''identifiant'', identifiant), (''Password'', pw)],
      redirect_manual = True\<rparr>"

definition config_request :: Request where
  "config_request =
     \<lparr>http_method = ''GET'',
      url = ''https://webti.urssaf.fr/assets/configuration/configuration.json'', query = [],
      headers = DEFAULT_HEADERS @ [(''Accept'', ''application/json'')], form = [],
      redirect_manual = False\<rparr>"

definition authorize_request ::
  "string \<Rightarrow> string \<Rightarrow> string \<Rightarrow> string \<Rightarrow> string \<Rightarrow> Request" where
  "authorize_request clientId state codeChallenge nonce tokenBds =
     \<lparr>http_method = ''GET'', url = ''https://login.urssaf.fr/api/oauth/v1/authorize'',
      query =
        [(''response_type'', ''code''),
         (''client_id'', clientId),
         (''state'', state),
         (''redirect_uri'', ''https://webti.urssaf.fr/callback''),
         (''scope'',
          ''openid webti.metier webti.metier.v2 deci.ti offline_access ods.cedito ods.session''),
         (''code_challenge'', codeChallenge),
         (''code_challenge_method'', ''S256''),
         (''nonce'', nonce),
         (''prompt'', ''none''),
         (''subject_token'', tokenBds),
         (''subject_token_type'', ''urn:oauth2:180035016:acoss:token-bds'')],
      headers = DEFAULT_HEADERS, form = [], redirect_manual = True\<rparr>"

definition token_request :: "string \<Rightarrow> string \<Rightarrow> string \<Rightarrow> Request" where
  "token_request code codeVerifier clientId =
     \<lparr>http_method = ''POST'', url = ''https://login.urssaf.fr/api/oauth/v1/token'',
      query = [], headers = form_headers,
      form =
        [(''grant_type'', ''authorization_code''),
         (''code'', code),
         (''redirect_uri'', ''https://webti.urssaf.fr/callback''),
         (''code_verifier'', codeVerifier),
         (''client_id'', clientId)],
      redirect_manual = False\<rparr>"

text \<open>
  The second half of \<^verbatim>\<open>login\<close>, from \<^verbatim>\<open>const b64url\<close> to the \<^verbatim>\<open>return\<close>: \<open>res\<close> is the
  answer of \<^verbatim>\<open>/cnx\<close>, \<open>g\<close> the random source, \<open>cpt\<close> the value of \<^verbatim>\<open>compte\<close> and \<open>tr\<close> the
  log so far. The three
  calls of \<^verbatim>\<open>randomBytes\<close> are made in the order of the source: for \<^verbatim>\<open>codeVerifier\<close>, for
  \<^verbatim>\<open>state\<close>, for \<^verbatim>\<open>nonce\<close>.
\<close>

definition oidc_exchange ::
  "platform \<Rightarrow> rng \<Rightarrow> Response \<Rightarrow> json option \<Rightarrow> json option \<Rightarrow> exchange list
     \<Rightarrow> (error + AuthResult) \<times> exchange list" where
  "oidc_exchange P g res cpt clientId tr =
     (let (r1, g1) = randomBytes 32 g;
          codeVerifier = b64url r1
      in case search_param P res ''tokenBds'' of
        Inl e \<Rightarrow> (Inl e, tr)
      | Inr tokenBds \<Rightarrow>
         (let (r2, g2) = randomBytes 32 g1;
              state = b64url r2 @ ''-0000000000-webti'';
              codeChallenge = b64url (sha256 P codeVerifier);
              (r3, g3) = randomBytes 32 g2;
              nonce = b64url r3
          in case do_fetch P tr
                    (authorize_request (to_param P clientId) state codeChallenge nonce
                       (string_or_null tokenBds)) of
            (None, tr3) \<Rightarrow> (Inl FetchFailed, tr3)
          | (Some authRes, tr3) \<Rightarrow>
             (case search_param P authRes ''code'' of
                Inl e \<Rightarrow> (Inl e, tr3)
              | Inr code \<Rightarrow>
                 (case do_fetch P tr3
                         (token_request (string_or_null code) codeVerifier
                            (to_param P clientId)) of
                    (None, tr4) \<Rightarrow> (Inl FetchFailed, tr4)
                  | (Some tokenRes, tr4) \<Rightarrow>
                     (case JSON_parse P (body tokenRes) of
                        None \<Rightarrow> (Inl SyntaxError, tr4)
                      | Some doc \<Rightarrow>
                         (case prop_of (Some doc) ''access_token'' of
                            Inl e \<Rightarrow> (Inl e, tr4)
                          | Inr t \<Rightarrow> (Inr \<lparr>compte = cpt, access_token = t\<rparr>, tr4)))))))"

text \<open>
  \<^verbatim>\<open>login(identifiant, password)\<close> of \<^verbatim>\<open>mes-echeances-urssaf.ts\<close> (named
  \<open>urssaf_login\<close> here): the result or the error, the secret store after the call
  (\<^verbatim>\<open>deleteCredentials\<close> writes to it) and the log of the exchanges, in order.
\<close>

definition urssaf_login ::
  "platform \<Rightarrow> rng \<Rightarrow> secrets \<Rightarrow> string \<Rightarrow> string
     \<Rightarrow> (error + AuthResult) \<times> secrets \<times> exchange list" where
  "urssaf_login P g s identifiant pw =
     (case do_fetch P [] (cnx_request identifiant pw) of
        (None, tr1) \<Rightarrow> (Inl FetchFailed, s, tr1)
      | (Some res, tr1) \<Rightarrow>
         (let ctxValue = parseCookies P res ''ctxUrssaf'' in
          if \<not> truthy ctxValue then
            (if includes_str (body res) ''Erreur d'identifiant ou de mot de passe''
             then (Inl CredentialRejected, deleteCredentials Urssaf s, tr1)
             else (Inl CtxCookieMissing, s, tr1))
          else case decode_compte P (string_or_empty ctxValue) of
            Inl e \<Rightarrow> (Inl e, s, tr1)
          | Inr cpt \<Rightarrow>
             (case do_fetch P tr1 config_request of
                (None, tr2) \<Rightarrow> (Inl FetchFailed, s, tr2)
              | (Some cfg, tr2) \<Rightarrow>
                 (case clientId_of P cfg of
                    Inl e \<Rightarrow> (Inl e, s, tr2)
                  | Inr clientId \<Rightarrow>
                     (case oidc_exchange P g res cpt clientId tr2 of
                        (r, tr4) \<Rightarrow> (r, s, tr4))))))"

section \<open>The table of the schedule (mes-echeances-urssaf.ts)\<close>

text \<open>
  The amounts are numbers, and \<^verbatim>\<open>totaux[i] += x\<close> is the addition of numbers.
  \<^verbatim>\<open>toLocaleString("fr-FR")\<close> and \<^verbatim>\<open>toLowerCase\<close> are parameters.
\<close>

record Paiement =
  montantPaye :: number

record Exigibilite =
  dateExigibilite :: string

record Echeance =
  montantTotal :: number
  montantNonPaye :: number
  paiement :: Paiement
  exigibilite :: Exigibilite
  etatEcheance :: string

record Ligne =
  Date :: string
  Montant_Total :: string
  Paye :: string
  Restant :: string
  Etat :: string

definition formatEuro :: "(number \<Rightarrow> string) \<Rightarrow> number \<Rightarrow> string" where
  "formatEuro toLocaleString m = toLocaleString m @ '' '' @ [CHR 0xE2, CHR 0x82, CHR 0xAC]"

fun split_on :: "char \<Rightarrow> string \<Rightarrow> string list" where
  "split_on c [] = [[]]"
| "split_on c (x # xs) =
     (if x = c then [] # split_on c xs
      else (case split_on c xs of
              [] \<Rightarrow> [[x]]
            | y # ys \<Rightarrow> (x # y) # ys))"

text \<open>An element of a destructured array, as a template writes it.\<close>

definition element :: "string list \<Rightarrow> nat \<Rightarrow> string" where
  "element xs i = (if i < length xs then xs ! i else ''undefined'')"

text \<open>\<^verbatim>\<open>s.replace(/ee$/, ...)\<close> with the e acute of the source, as UTF-8.\<close>

definition replace_ee :: "string \<Rightarrow> string" where
  "replace_ee s =
     (if 2 \<le> length s \<and> drop (length s - 2) s = ''ee''
      then take (length s - 2) s @ [CHR 0xC3, CHR 0xA9, CHR ''e'']
      else s)"

definition ligne ::
  "(number \<Rightarrow> string) \<Rightarrow> (string \<Rightarrow> string) \<Rightarrow> Echeance \<Rightarrow> Ligne" where
  "ligne toLocaleString toLowerCase e =
     (let ymd = split_on (CHR ''-'') (dateExigibilite (exigibilite e))
      in \<lparr>Date = element ymd 2 @ ''/'' @ element ymd 1 @ ''/'' @ element ymd 0,
          Montant_Total = formatEuro toLocaleString (montantTotal e),
          Paye = formatEuro toLocaleString (montantPaye (paiement e)),
          Restant = formatEuro toLocaleString (montantNonPaye e),
          Etat = replace_ee (toLowerCase (etatEcheance e))\<rparr>)"

text \<open>The three assignments \<^verbatim>\<open>totaux[i] += ...\<close> of the callback, in their order.\<close>

definition add_totaux :: "number list \<Rightarrow> Echeance \<Rightarrow> number list" where
  "add_totaux totaux e =
     (let t0 = totaux[0 := number_add (totaux ! 0) (montantTotal e)];
          t1 = t0[1 := number_add (t0 ! 1) (montantPaye (paiement e))]
      in t1[2 := number_add (t1 ! 2) (montantNonPaye e)])"

text \<open>
  \<^verbatim>\<open>echeances.map(...)\<close>: the callback runs on the entries from the first to the last,
  each time updating \<^verbatim>\<open>totaux\<close> and giving a row.
\<close>

fun map_lignes ::
  "(number \<Rightarrow> string) \<Rightarrow> (string \<Rightarrow> string) \<Rightarrow> number list \<Rightarrow> Echeance list
     \<Rightarrow> Ligne list \<times> number list" where
  "map_lignes toLocaleString toLowerCase totaux [] = ([], totaux)"
| "map_lignes toLocaleString toLowerCase totaux (e # es) =
     (let totaux1 = add_totaux totaux e;
          l = ligne toLocaleString toLowerCase e;
          (ls, totaux2) = map_lignes toLocaleString toLowerCase totaux1 es
      in (l # ls, totaux2))"

text \<open>
  The length of a string counts UTF-16 units: one for each character of one to three
  bytes of UTF-8 and two for a character of four bytes.
\<close>

definition js_length :: "string \<Rightarrow> nat" where
  "js_length s =
     length (filter (\<lambda>c. \<not> (128 \<le> (of_char c :: nat) \<and> (of_char c :: nat) < 192)) s)
     + length (filter (\<lambda>c. 240 \<le> (of_char c :: nat)) s)"

definition padEnd :: "nat \<Rightarrow> string \<Rightarrow> string" where
  "padEnd w s = s @ replicate (w - js_length s) (CHR '' '')"

definition padStart :: "nat \<Rightarrow> string \<Rightarrow> string" where
  "padStart w s = replicate (w - js_length s) (CHR '' '') @ s"

definition total_line :: "(number \<Rightarrow> string) \<Rightarrow> string \<Rightarrow> number \<Rightarrow> string" where
  "total_line toLocaleString label m =
     ''  '' @ padEnd 12 label @ '' '' @ padStart 12 (formatEuro toLocaleString m) @ [CHR 0x0A]"

text \<open>
  The text of the last \<^verbatim>\<open>console.log\<close>: the heading \<open>TOTAUX\<close> in colour after its
  emoji, an empty line, and the three lines of totals.
\<close>

definition totaux_text :: "(number \<Rightarrow> string) \<Rightarrow> number list \<Rightarrow> string" where
  "totaux_text toLocaleString totaux =
     [CHR 0x0A, CHR 0x1B] @ ''[96m '' @ [CHR 0xF0, CHR 0x9F, CHR 0x92, CHR 0xB0] @ '' TOTAUX''
     @ [CHR 0x1B] @ ''[0m'' @ [CHR 0x0A, CHR 0x0A]
     @ total_line toLocaleString ''Total :'' (totaux ! 0)
     @ total_line toLocaleString (''Pay'' @ [CHR 0xC3, CHR 0xA9] @ '' :'') (totaux ! 1)
     @ total_line toLocaleString (''Restant d'' @ [CHR 0xC3, CHR 0xBB] @ '' :'') (totaux ! 2)"

text \<open>
  \<^verbatim>\<open>printEcheances\<close>: the rows given to \<^verbatim>\<open>console.table\<close> and the text of the totals.
\<close>

definition printEcheances ::
  "(number \<Rightarrow> string) \<Rightarrow> (string \<Rightarrow> string) \<Rightarrow> Echeance list
     \<Rightarrow> Ligne list \<times> string" where
  "printEcheances toLocaleString toLowerCase echeances =
     (case map_lignes toLocaleString toLowerCase [Finite 0, Finite 0, Finite 0] echeances of
        (lignes, totaux) \<Rightarrow> (lignes, totaux_text toLocaleString totaux))"

section \<open>Observations and fixtures\<close>

text \<open>
  What an exchange of the log says about the session cookie: the value
  \<^verbatim>\<open>parseCookies(res).get("PHPSESSID")\<close> of its response.
\<close>

definition hop_cookie :: "platform \<Rightarrow> exchange \<Rightarrow> string option" where
  "hop_cookie P x = (case snd x of None \<Rightarrow> None | Some res \<Rightarrow> parseCookies P res ''PHPSESSID'')"

text \<open>
  The origin of an absolute URL (its scheme and authority), to say what belonging to the
  origin of the portal means. The programs do not compute it.
\<close>

definition url_origin :: "string \<Rightarrow> string" where
  "url_origin u =
     (let authority = takeWhile (\<lambda>c. c \<noteq> CHR ''/'' \<and> c \<noteq> CHR ''?'' \<and> c \<noteq> CHR ''#'')
      in if startsWith u ''https://'' then ''https://'' @ authority (drop 8 u)
         else if startsWith u ''http://'' then ''http://'' @ authority (drop 7 u)
         else [])"

text \<open>
  Platforms and responses that the examples below run on: a platform given by its
  network and its cookie parser, a network that redirects for ever and never sets a
  cookie, and one whose first answer sets the session cookie to the empty value and
  whose second sets it to \<open>abc\<close>.
\<close>

definition fixture_platform ::
  "(exchange list \<Rightarrow> Request \<Rightarrow> Response option) \<Rightarrow> (string \<Rightarrow> string \<Rightarrow> string option) \<Rightarrow> platform" where
  "fixture_platform f c =
     \<lparr>fetch = f, CookieMap = c, JSON_parse = (\<lambda>s. None), ToString = (\<lambda>v. []),
      Buffer_toString = (\<lambda>b. []), decode_escapes = (\<lambda>s. None), sha256 = (\<lambda>s. []),
      searchParams = (\<lambda>s. None)\<rparr>"

definition always_redirect :: platform where
  "always_redirect = fixture_platform
     (\<lambda>tr req. Some \<lparr>status = 302, location = Some ''/suite'', setCookie = [], body = []\<rparr>)
     (\<lambda>s n. None)"

definition redirect_to :: "string \<Rightarrow> Response" where
  "redirect_to u = \<lparr>status = 302, location = Some u, setCookie = [], body = []\<rparr>"

definition suite :: exchange where
  "suite = (get_request ''https://monidenum.fr/suite'' True, Some (redirect_to ''/suite''))"

definition empty_then_set :: platform where
  "empty_then_set = fixture_platform
     (\<lambda>tr req. if tr = []
        then Some \<lparr>status = 302, location = Some ''/b'', setCookie = [''PHPSESSID=; Path=/''], body = []\<rparr>
        else Some \<lparr>status = 200, location = None, setCookie = [''PHPSESSID=abc; Path=/''], body = []\<rparr>)
     (\<lambda>s n. if n = ''PHPSESSID'' \<and> s = ''PHPSESSID=; Path=/'' then Some []
            else if n = ''PHPSESSID'' \<and> s = ''PHPSESSID=abc; Path=/'' then Some ''abc''
            else None)"

text \<open>
  What the log of a handshake with mon.urssaf.fr shows of the PKCE material: a parameter
  of the query of the exchange \<open>i\<close>, a field of its form, the three samples that
  \<^verbatim>\<open>login\<close> draws from the random source in order, and the triple of the
  \<^verbatim>\<open>code_verifier\<close> sent to the token endpoint and the \<^verbatim>\<open>state\<close> and \<^verbatim>\<open>nonce\<close> sent to the
  authorization endpoint.
\<close>

definition sent_query :: "exchange list \<Rightarrow> nat \<Rightarrow> string \<Rightarrow> string option" where
  "sent_query tr i k = map_of (query (fst (tr ! i))) k"

definition sent_form :: "exchange list \<Rightarrow> nat \<Rightarrow> string \<Rightarrow> string option" where
  "sent_form tr i k = map_of (form (fst (tr ! i))) k"

definition pkce_samples :: "rng \<Rightarrow> byte list \<times> byte list \<times> byte list" where
  "pkce_samples g =
     (let (r1, g1) = randomBytes 32 g;
          (r2, g2) = randomBytes 32 g1;
          (r3, g3) = randomBytes 32 g2
      in (r1, r2, r3))"

definition pkce_triple :: "exchange list \<Rightarrow> string option \<times> string option \<times> string option" where
  "pkce_triple tr =
     (sent_form tr 3 ''code_verifier'', sent_query tr 2 ''state'', sent_query tr 2 ''nonce'')"

text \<open>
  More fixtures: a platform without network, the page of a refused login of
  monidenum.fr, a platform that answers every request with one response, a page with a
  body, a store that holds credentials for the service \<open>urssaf\<close>, a terminal with its
  input, a schedule of two entries, the page of a refused login whose message has an
  entity and white space around it, and a platform on which every request is answered
  with a session cookie.
\<close>

definition no_network :: platform where
  "no_network = fixture_platform (\<lambda>tr req. None) (\<lambda>s n. None)"

definition invalid_password_page :: Response where
  "invalid_password_page =
     \<lparr>status = 200, location = None, setCookie = [],
      body = ''<div class='' @ [dquote] @ ''alert alert-danger'' @ [dquote]
             @ ''>Invalid password</div>''\<rparr>"

definition entity_page :: Response where
  "entity_page =
     \<lparr>status = 200, location = None, setCookie = [],
      body = ''<div class='' @ [dquote] @ ''alert alert-error'' @ [dquote] @ '' role=''
             @ [dquote] @ ''alert'' @ [dquote] @ ''>'' @ [CHR 0x0A]
             @ ''  L&#39;identifiant est invalide. '' @ [CHR 0x0A] @ ''</div>''\<rparr>"

definition other_host :: platform where
  "other_host = fixture_platform
     (\<lambda>tr req. Some \<lparr>status = 200, location = None, setCookie = [''PHPSESSID=xyz; Path=/''],
                          body = []\<rparr>)
     (\<lambda>s n. if n = ''PHPSESSID'' \<and> s = ''PHPSESSID=xyz; Path=/'' then Some ''xyz'' else None)"

definition answer_with :: "Response \<Rightarrow> platform" where
  "answer_with res = fixture_platform (\<lambda>tr req. Some res) (\<lambda>s n. None)"

definition page :: "string \<Rightarrow> Response" where
  "page b = \<lparr>status = 200, location = None, setCookie = [], body = b\<rparr>"

definition stored_urssaf :: secrets where
  "stored_urssaf = setCredentials Urssaf ''12345678900011'' ''secret'' Map.empty"

definition terminal :: "string list \<Rightarrow> Terminal" where
  "terminal input = \<lparr>echo = True, stdin = input, stdout = [], shell_log = [], paused = False\<rparr>"

definition two_entries :: "Echeance list" where
  "two_entries =
     [\<lparr>montantTotal = Finite 100, montantNonPaye = Finite 40, paiement = \<lparr>montantPaye = Finite 60\<rparr>,
       exigibilite = \<lparr>dateExigibilite = ''2024-02-05''\<rparr>, etatEcheance = ''PAYEE''\<rparr>,
      \<lparr>montantTotal = Finite 250, montantNonPaye = Finite 250, paiement = \<lparr>montantPaye = Finite 0\<rparr>,
       exigibilite = \<lparr>dateExigibilite = ''2024-05-05''\<rparr>, etatEcheance = ''A_VENIR''\<rparr>]"

text \<open>
  A schedule whose first total is rounded, and a stand-in for \<^verbatim>\<open>toLocaleString\<close> that
  writes the integers of these examples in digits.
\<close>

definition large_entries :: "Echeance list" where
  "large_entries =
     [\<lparr>montantTotal = Finite (2 ^ 53), montantNonPaye = Finite (2 ^ 53),
       paiement = \<lparr>montantPaye = Finite 0\<rparr>,
       exigibilite = \<lparr>dateExigibilite = ''2024-02-05''\<rparr>, etatEcheance = ''A_VENIR''\<rparr>,
      \<lparr>montantTotal = Finite 1, montantNonPaye = Finite 1, paiement = \<lparr>montantPaye = Finite 0\<rparr>,
       exigibilite = \<lparr>dateExigibilite = ''2024-05-05''\<rparr>, etatEcheance = ''A_VENIR''\<rparr>]"

definition integer_text :: "number \<Rightarrow> string" where
  "integer_text x =
     (if x = Finite 350 then ''350'' else if x = Finite 60 then ''60''
      else if x = Finite 290 then ''290''
      else if x = Finite 9007199254740992 then ''9007199254740992''
      else if x = Finite 9007199254740993 then ''9007199254740993''
      else ''0'')"

text \<open>
  A portal on which the handshake of mon.urssaf.fr succeeds: the context cookie is the
  Base64 of the JSON text of an account, the configuration names the client
  \<open>webti\<close>, the authorization answers with the code \<open>abc\<close> and the token endpoint with
  the token \<open>at\<close>. Its \<open>sha256\<close> is a stand-in that gives the same three bytes for
  every text.
\<close>

definition quoted :: "string \<Rightarrow> string" where
  "quoted s = dquote # s @ [dquote]"

definition compte_text :: string where
  "compte_text = ''{'' @ quoted ''compte'' @ '':{'' @ quoted ''siret'' @ '':''
     @ quoted ''12345678900011'' @ '','' @ quoted ''orga'' @ '':'' @ quoted ''117'' @ '',''
     @ quoted ''numc'' @ '':'' @ quoted ''42'' @ ''}}''"

definition compte_bytes :: "byte list" where
  "compte_bytes = map of_char compte_text"

definition compte_doc :: json where
  "compte_doc = JObj [(''siret'', JStr ''12345678900011''), (''orga'', JStr ''117''),
     (''numc'', JStr ''42'')]"

definition config_text :: string where
  "config_text = ''{'' @ quoted ''oidc'' @ '':{'' @ quoted ''annabel'' @ '':{''
     @ quoted ''clientId'' @ '':'' @ quoted ''webti'' @ ''}}}''"

definition token_text :: string where
  "token_text = ''{'' @ quoted ''access_token'' @ '':'' @ quoted ''at'' @ ''}''"

definition cnx_accepted :: Response where
  "cnx_accepted =
     \<lparr>status = 302, location = Some ''https://mon.urssaf.fr/accueil?tokenBds=tok'',
      setCookie = [''ctxUrssaf='' @ base64 compte_bytes], body = []\<rparr>"

definition portal :: platform where
  "portal =
     \<lparr>fetch = (\<lambda>tr req.
        if url req = ''https://mon.urssaf.fr/cnx'' then Some cnx_accepted
        else if url req = ''https://webti.urssaf.fr/assets/configuration/configuration.json''
          then Some (page config_text)
        else if url req = ''https://login.urssaf.fr/api/oauth/v1/authorize''
          then Some (redirect_to ''https://webti.urssaf.fr/callback?code=abc'')
        else Some (page token_text)),
      CookieMap = (\<lambda>s n. if n = ''ctxUrssaf'' then Some (drop 10 s) else None),
      JSON_parse = (\<lambda>t.
        if t = compte_text then Some (JObj [(''compte'', compte_doc)])
        else if t = config_text
          then Some (JObj [(''oidc'', JObj [(''annabel'', JObj [(''clientId'', JStr ''webti'')])])])
        else if t = token_text then Some (JObj [(''access_token'', JStr ''at'')])
        else None),
      ToString = (\<lambda>v. ''undefined''),
      Buffer_toString = map (\<lambda>b. char_of (unat b)),
      decode_escapes = (\<lambda>s. None),
      sha256 = (\<lambda>s. [0x2c, 0xf2, 0x4d]),
      searchParams = (\<lambda>u.
        if u = ''https://mon.urssaf.fr/accueil?tokenBds=tok''
          then Some (\<lambda>k. if k = ''tokenBds'' then Some ''tok'' else None)
        else if u = ''https://webti.urssaf.fr/callback?code=abc''
          then Some (\<lambda>k. if k = ''code'' then Some ''abc'' else None)
        else None)\<rparr>"

section \<open>Properties of numbers\<close>

lemma halvings_bounds:
  "1 \<le> q \<Longrightarrow> 2 ^ halvings q \<le> q \<and> q < 2 ^ Suc (halvings q)"
proof (induction q rule: halvings.induct)
  case (1 q)
  show ?case
  proof (cases "2 \<le> q")
    case True
    then have "1 \<le> q / 2" by simp
    from 1(1) [OF True this] True show ?thesis
      by (simp add: halvings.simps [of q])
  next
    case False
    with 1(2) show ?thesis by (simp add: halvings.simps [of q])
  qed
qed

lemma doublings_bounds:
  "0 < q \<Longrightarrow> q < 1 \<Longrightarrow> 1 \<le> q * 2 ^ doublings q \<and> q * 2 ^ doublings q < 2"
proof (induction q rule: doublings.induct)
  case (1 q)
  show ?case
  proof (cases "2 * q < 1")
    case True
    from 1(2) have "0 < 2 * q" by simp
    from 1(1) [OF _ this True] 1(2,3) show ?thesis
      by (simp add: doublings.simps [of q] mult.assoc)
  next
    case False
    then have "doublings (2 * q) = 0" by (simp add: doublings.simps [of "2 * q"])
    with False 1(2,3) show ?thesis by (simp add: doublings.simps [of q])
  qed
qed

lemma pow2_le_iff: "(2::rat) powi a \<le> 2 powi b \<longleftrightarrow> a \<le> b"
proof
  assume le: "(2::rat) powi a \<le> 2 powi b"
  show "a \<le> b"
  proof (rule ccontr)
    assume "\<not> a \<le> b"
    then have "(2::rat) powi b < 2 powi a"
      by (intro power_int_strict_increasing) simp_all
    with le show False by simp
  qed
next
  assume "a \<le> b"
  then show "(2::rat) powi a \<le> 2 powi b"
    by (intro power_int_increasing) simp_all
qed

lemma pow2_less_iff: "(2::rat) powi a < 2 powi b \<longleftrightarrow> a < b"
  using pow2_le_iff [of b a] by (simp add: not_le [symmetric])

lemma floor_log2_bounds:
  assumes "0 < q"
  shows "2 powi floor_log2 q \<le> q" and "q < 2 powi (floor_log2 q + 1)"
proof -
  show "2 powi floor_log2 q \<le> q"
  proof (cases "1 \<le> q")
    case True
    with halvings_bounds [OF True] show ?thesis by (simp add: floor_log2_def)
  next
    case False
    with assms doublings_bounds [of q] have "1 \<le> q * 2 ^ doublings q" by simp
    then have "1 / 2 ^ doublings q \<le> q" by (simp add: field_simps)
    with False show ?thesis by (simp add: floor_log2_def power_int_minus_divide)
  qed
  show "q < 2 powi (floor_log2 q + 1)"
  proof (cases "1 \<le> q")
    case True
    from halvings_bounds [OF True] have "q < 2 ^ Suc (halvings q)" by blast
    also have "(2::rat) ^ Suc (halvings q) = 2 powi (int (halvings q) + 1)"
      by (simp add: power_int_add)
    finally show ?thesis using True by (simp add: floor_log2_def)
  next
    case False
    with assms doublings_bounds [of q] have "q * 2 ^ doublings q < 2" by simp
    then have "q < 2 / 2 ^ doublings q" by (simp add: field_simps)
    also have "2 / (2::rat) ^ doublings q = 2 powi (- int (doublings q) + 1)"
      by (simp add: power_int_diff)
    finally show ?thesis using False by (simp add: floor_log2_def)
  qed
qed

lemma floor_log2_unique:
  assumes "0 < q" and lo: "2 powi L \<le> q" and hi: "q < 2 powi (L + 1)"
  shows "floor_log2 q = L"
proof (rule ccontr)
  let ?M = "floor_log2 q"
  assume ne: "?M \<noteq> L"
  show False
  proof (cases "?M < L")
    case True
    then have "(2::rat) powi (?M + 1) \<le> 2 powi L"
      by (intro power_int_increasing) simp_all
    with floor_log2_bounds(2) [OF assms(1)] lo show False by simp
  next
    case False
    with ne have "(2::rat) powi (L + 1) \<le> 2 powi ?M"
      by (intro power_int_increasing) simp_all
    with floor_log2_bounds(1) [OF assms(1)] hi show False by simp
  qed
qed

lemma round_half_even_int [simp]: "round_half_even (of_int n) = n"
  by (simp add: round_half_even_def)

lemma round_half_even_numeral [simp]:
  "round_half_even (numeral v) = numeral v"
  "round_half_even (- numeral v) = - numeral v"
  using round_half_even_int [of "numeral v"] round_half_even_int [of "- numeral v"]
  by simp_all

lemma round_half_even_lower: "of_int n \<le> x \<Longrightarrow> n \<le> round_half_even x"
proof -
  assume "of_int n \<le> x"
  then have "n \<le> \<lfloor>x\<rfloor>" by (simp add: le_floor_iff)
  then show ?thesis by (simp add: round_half_even_def Let_def)
qed

lemma scale_int:
  "e \<le> 0 \<Longrightarrow> (of_int k :: rat) / 2 powi e = of_int (k * 2 ^ nat (- e))"
  by (cases "e = 0") (simp_all add: power_int_def power_inverse field_simps)

lemma unscale_int:
  "e \<le> 0 \<Longrightarrow> (of_int (k * 2 ^ nat (- e)) :: rat) * 2 powi e = of_int k"
  by (cases "e = 0") (simp_all add: power_int_def power_inverse field_simps)

lemma nearest_double_int:
  assumes "\<bar>k\<bar> \<le> 2 ^ 53"
  shows "nearest_double (of_int k) = Finite (of_int k)"
proof (cases "k = 0")
  case True
  then show ?thesis by (simp add: nearest_double_def)
next
  case False
  let ?q = "of_int k :: rat"
  define L where "L = floor_log2 \<bar>?q\<bar>"
  define e where "e = max (L - 52) (- 1074)"
  from False have pos: "0 < \<bar>?q\<bar>" by simp
  from False have "1 \<le> \<bar>k\<bar>" by simp
  then have "(of_int 1 :: rat) \<le> of_int \<bar>k\<bar>" by (simp only: of_int_le_iff)
  then have one: "1 \<le> \<bar>?q\<bar>" by simp
  from assms have "(of_int \<bar>k\<bar> :: rat) \<le> of_int (2 ^ 53)" by (simp only: of_int_le_iff)
  then have top: "\<bar>?q\<bar> \<le> 2 powi 53" by simp
  from floor_log2_bounds [OF pos] have lo: "2 powi L \<le> \<bar>?q\<bar>" and hi: "\<bar>?q\<bar> < 2 powi (L + 1)"
    by (simp_all add: L_def)
  from one hi have "(2::rat) powi 0 < 2 powi (L + 1)" by simp
  then have L0: "0 \<le> L" by (simp only: pow2_less_iff)
  from lo top have "(2::rat) powi L \<le> 2 powi 53" by simp
  then have L53: "L \<le> 53" by (simp only: pow2_le_iff)
  from L0 have e: "e = L - 52" by (simp add: e_def)
  have r: "of_int (round_half_even (?q / 2 powi e)) * 2 powi e = ?q"
  proof (cases "e \<le> 0")
    case True
    have "round_half_even (?q / 2 powi e) = k * 2 ^ nat (- e)"
      by (simp only: scale_int [OF True] round_half_even_int)
    then show ?thesis by (simp only: unscale_int [OF True])
  next
    case False
    with e L53 have L: "L = 53" and e1: "e = 1" by simp_all
    from lo top L have "\<bar>?q\<bar> = 2 powi 53" by simp
    then have "(of_int \<bar>k\<bar> :: rat) = of_int (2 ^ 53)" by simp
    then have "\<bar>k\<bar> = 2 ^ 53" by (simp only: of_int_eq_iff)
    then have "k = 2 ^ 53 \<or> k = - (2 ^ 53)" by linarith
    then show ?thesis using e1 by auto
  qed
  have "\<not> 2 ^ 1024 \<le> \<bar>?q\<bar>"
  proof -
    have "(2::rat) powi 53 < 2 powi 1024" by (simp only: pow2_less_iff)
    with top have "\<bar>?q\<bar> < 2 powi 1024" by (rule le_less_trans)
    then show ?thesis by simp
  qed
  with False r show ?thesis
    by (simp add: nearest_double_def Let_def L_def [symmetric] e_def [symmetric] del: power_int_numeral)
qed

lemma nearest_double_lower:
  assumes n: "0 \<le> n" "n \<le> 2 ^ 53" and q: "of_int n \<le> q"
  shows "nearest_double q = PosInfinity \<or> (\<exists>r. nearest_double q = Finite r \<and> of_int n \<le> r)"
proof (cases "q = 0")
  case True
  with n q show ?thesis by (simp add: nearest_double_def)
next
  case False
  with n q have pos: "0 < q" by (smt (verit) of_int_nonneg order_trans order_less_le)
  then have abs: "\<bar>q\<bar> = q" by simp
  define L where "L = floor_log2 q"
  define e where "e = max (L - 52) (- 1074)"
  define m where "m = round_half_even (q / 2 powi e)"
  define r :: rat where "r = of_int m * 2 powi e"
  from floor_log2_bounds [OF pos] have lo: "2 powi L \<le> q"
    by (simp add: L_def)
  have p: "(0::rat) < 2 powi e" by simp
  have "of_int n \<le> r"
  proof (cases "e \<le> 0")
    case True
    from q p have "of_int n / 2 powi e \<le> q / 2 powi e"
      by (simp add: divide_right_mono)
    then have "of_int (n * 2 ^ nat (- e)) \<le> q / 2 powi e"
      by (simp only: scale_int [OF True])
    then have "n * 2 ^ nat (- e) \<le> m"
      unfolding m_def by (rule round_half_even_lower)
    then have "(of_int (n * 2 ^ nat (- e)) :: rat) \<le> of_int m" by (simp only: of_int_le_iff)
    with p have "(of_int (n * 2 ^ nat (- e)) :: rat) * 2 powi e \<le> of_int m * 2 powi e"
      by (simp only: mult_right_mono less_imp_le)
    then show ?thesis by (simp only: unscale_int [OF True] r_def)
  next
    case False
    then have e: "e = L - 52" and L: "53 \<le> L" by (simp_all add: e_def)
    have "(2::rat) powi 52 = 2 powi L / 2 powi e"
      by (simp add: e power_int_diff del: power_int_numeral)
    also from lo p have "\<dots> \<le> q / 2 powi e" by (simp add: divide_right_mono)
    finally have "of_int (2 ^ 52) \<le> q / 2 powi e" by simp
    then have "2 ^ 52 \<le> m" unfolding m_def by (rule round_half_even_lower)
    then have "(of_int (2 ^ 52) :: rat) \<le> of_int m" by (simp only: of_int_le_iff)
    with p have "(of_int (2 ^ 52) :: rat) * 2 powi e \<le> r"
      unfolding r_def by (simp only: mult_right_mono less_imp_le)
    moreover have "(of_int (2 ^ 52) :: rat) * 2 powi e = 2 powi L"
      by (simp add: e power_int_diff del: power_int_numeral) (simp add: power_int_def)
    moreover from L have "(2::rat) powi 53 \<le> 2 powi L"
      by (intro power_int_increasing) simp_all
    moreover have "(of_int n :: rat) \<le> 2 powi 53"
    proof -
      from n(2) have "(of_int n :: rat) \<le> of_int (2 ^ 53)" by (simp only: of_int_le_iff)
      then show ?thesis by simp
    qed
    ultimately show ?thesis by linarith
  qed
  moreover have "nearest_double q = (if 2 ^ 1024 \<le> \<bar>r\<bar> then PosInfinity
      else if r = 0 then Finite 0 else Finite r)"
    using False pos
    by (simp add: nearest_double_def Let_def abs L_def [symmetric] e_def [symmetric] m_def [symmetric]
        r_def [symmetric] del: power_int_numeral)
  ultimately show ?thesis by auto
qed

lemma number_multiply_int:
  assumes "\<bar>a * b\<bar> \<le> 2 ^ 53" and "0 < b"
  shows "number_multiply (Finite (of_int a)) (Finite (of_int b)) = Finite (of_int (a * b))"
  using assms nearest_double_int [of "a * b"] by (auto simp: number_multiply_def)

lemma number_add_int:
  assumes "\<bar>a + b\<bar> \<le> 2 ^ 53"
  shows "number_add (Finite (of_int a)) (Finite (of_int b)) = Finite (of_int (a + b))"
  using assms nearest_double_int [of "a + b"] by (simp add: number_add_def)

lemma expiry_int:
  assumes "\<bar>k\<bar> * 60000 \<le> 2 ^ 53" and "\<bar>now + k * 60000\<bar> \<le> 2 ^ 53"
  shows "number_add (Date_now now)
           (number_multiply (number_multiply (Finite (of_int k)) (Finite 60)) (Finite 1000)) =
         Finite (of_int (now + k * 60000))"
proof -
  from assms(1) have 1: "\<bar>k * 60\<bar> \<le> 2 ^ 53" and 2: "\<bar>k * 60 * 1000\<bar> \<le> 2 ^ 53"
    by (simp_all add: abs_mult)
  from number_multiply_int [OF 1] have "number_multiply (Finite (of_int k)) (Finite 60) =
      Finite (of_int (k * 60))" by simp
  moreover from number_multiply_int [OF 2] have
    "number_multiply (Finite (of_int (k * 60))) (Finite 1000) = Finite (of_int (k * 60 * 1000))"
    by simp
  moreover from assms(2) have "\<bar>now + k * 60 * 1000\<bar> \<le> 2 ^ 53" by simp
  from number_add_int [OF this] have
    "number_add (Date_now now) (Finite (of_int (k * 60 * 1000))) = Finite (of_int (now + k * 60000))"
    by (simp add: Date_now_def)
  ultimately show ?thesis by simp
qed

lemma number_multiply_nonneg:
  assumes "0 \<le> p" and "0 < c"
  shows "number_multiply (Finite p) (Finite c) = PosInfinity
     \<or> (\<exists>r. number_multiply (Finite p) (Finite c) = Finite r \<and> 0 \<le> r)"
proof (cases "p = 0")
  case True
  with assms(2) show ?thesis by (simp add: number_multiply_def)
next
  case False
  from assms have "of_int 0 \<le> p * c" by simp
  from nearest_double_lower [OF _ _ this] have "nearest_double (p * c) = PosInfinity \<or> (\<exists>r. nearest_double (p * c) = Finite r \<and> 0 \<le> r)"
    by simp
  with False assms show ?thesis by (simp add: number_multiply_def)
qed

lemma expiry_nonneg:
  assumes "0 \<le> p" and "0 \<le> now" and "now \<le> 2 ^ 53"
  shows "number_add (Date_now now)
           (number_multiply (number_multiply (Finite p) (Finite 60)) (Finite 1000)) = PosInfinity
     \<or> (\<exists>x. number_add (Date_now now)
           (number_multiply (number_multiply (Finite p) (Finite 60)) (Finite 1000)) = Finite x
          \<and> of_int now \<le> x)"
proof -
  from number_multiply_nonneg [OF assms(1), of 60] consider
    "number_multiply (Finite p) (Finite 60) = PosInfinity"
    | r where "number_multiply (Finite p) (Finite 60) = Finite r" "0 \<le> r"
    by auto
  then show ?thesis
  proof cases
    case 1
    then show ?thesis by (simp add: number_multiply_def number_add_def Date_now_def)
  next
    case 2
    from number_multiply_nonneg [OF 2(2), of 1000] consider
      "number_multiply (Finite r) (Finite 1000) = PosInfinity"
      | u where "number_multiply (Finite r) (Finite 1000) = Finite u" "0 \<le> u"
      by auto
    then show ?thesis
    proof cases
      case 1
      with 2 show ?thesis by (simp add: number_add_def Date_now_def)
    next
      case u: 2
      from u(2) have "of_int now \<le> of_int now + u" by simp
      from nearest_double_lower [OF assms(2,3) this] 2 u show ?thesis
        by (simp add: number_add_def Date_now_def)
    qed
  qed
qed


lemma nearest_double_at:
  assumes "q \<noteq> 0" and "2 powi L \<le> \<bar>q\<bar>" and "\<bar>q\<bar> < 2 powi (L + 1)"
  shows "nearest_double q =
     (let e = max (L - 52) (- 1074);
          r = of_int (round_half_even (q / 2 powi e)) * 2 powi e
      in if 2 ^ 1024 \<le> \<bar>r\<bar> then (if 0 < q then PosInfinity else NegInfinity)
         else if r = 0 then (if 0 < q then Finite 0 else NegZero)
         else Finite r)"
proof -
  from assms(1) have "0 < \<bar>q\<bar>" by simp
  from floor_log2_unique [OF this assms(2,3)] assms(1) show ?thesis
    by (simp add: nearest_double_def)
qed

lemma floor_numeral_quotient:
  "\<lfloor>numeral a / numeral b :: rat\<rfloor> = numeral a div numeral b"
  using floor_divide_of_int_eq [of "numeral a" "numeral b", where ?'a = rat] by simp

lemma nearest_double_tie: "nearest_double (2 ^ 53 + 1) = Finite (2 ^ 53)"
  using nearest_double_at [of "2 ^ 53 + 1" 53] by (simp add: round_half_even_def Let_def floor_numeral_quotient)

lemma overflow_60: "number_multiply (Finite (2 ^ 1020)) (Finite 60) = PosInfinity"
  using nearest_double_at [of "2 ^ 1020 * 60" 1025] by (simp add: number_multiply_def)

lemma rounded_expiry:
  "number_add (Date_now 1) (number_multiply (number_multiply (Finite (2 ^ 53)) (Finite 60)) (Finite 1000))
   = Finite (2 ^ 53 * 60000)"
proof -
  have 1: "number_multiply (Finite (2 ^ 53)) (Finite 60) = Finite (2 ^ 53 * 60)"
    using nearest_double_at [of "2 ^ 53 * 60" 58] by (simp add: number_multiply_def)
  have 2: "number_multiply (Finite (2 ^ 53 * 60)) (Finite 1000) = Finite (2 ^ 53 * 60000)"
    using nearest_double_at [of "2 ^ 53 * 60000" 68] by (simp add: number_multiply_def)
  have 3: "number_add (Finite 1) (Finite (2 ^ 53 * 60000)) = Finite (2 ^ 53 * 60000)"
    using nearest_double_at [of "1 + 2 ^ 53 * 60000" 68] by (simp add: number_add_def round_half_even_def Let_def floor_numeral_quotient)
  from 1 2 3 show ?thesis by (simp add: Date_now_def)
qed

section \<open>Properties of the secret store\<close>

lemma service_name_not_session: "service_name a \<noteq> sessionKey b"
  by (cases a; cases b) (simp_all add: sessionKey_def)

text \<open>
  Claim C10. Credentials live under the key (\<open>cli-administratif\<close>, name) and session
  tokens under (\<open>cli-administratif\<close>, name followed by \<open>-session\<close>). No credentials key
  of any service is the session key of any service, so writing or deleting credentials
  leaves every session entry as it was, and writing or deleting a session token leaves
  every credentials entry as it was.
\<close>

theorem credentials_session_keys_disjoint:
  "setCredentials a l p s =
     s((''cli-administratif'', service_name a) \<mapsto> CredentialsJSON \<lparr>login = l, password = p\<rparr>)
   \<and> deleteCredentials a s = s((''cli-administratif'', service_name a) := None)
   \<and> setSessionToken b t ttl now s =
       s((''cli-administratif'', service_name b @ ''-session'') \<mapsto>
           SessionJSON \<lparr>token = t,
             expiresAt = JSON_number
               (number_add (Date_now now)
                  (number_multiply (number_multiply ttl (Finite 60)) (Finite 1000)))\<rparr>)
   \<and> deleteSessionToken b s = s((''cli-administratif'', service_name b @ ''-session'') := None)
   \<and> (''cli-administratif'', service_name a) \<noteq> (''cli-administratif'', service_name b @ ''-session'')
   \<and> setCredentials a l p s (''cli-administratif'', service_name b @ ''-session'') =
       s (''cli-administratif'', service_name b @ ''-session'')
   \<and> deleteCredentials a s (''cli-administratif'', service_name b @ ''-session'') =
       s (''cli-administratif'', service_name b @ ''-session'')
   \<and> setSessionToken b t ttl now s (''cli-administratif'', service_name a) =
       s (''cli-administratif'', service_name a)
   \<and> deleteSessionToken b s (''cli-administratif'', service_name a) =
       s (''cli-administratif'', service_name a)"
  using service_name_not_session [of a b]
  by (simp add: setCredentials_def deleteCredentials_def setSessionToken_def
      deleteSessionToken_def KEYCHAIN_SERVICE_def sessionKey_def)

theorem credentials_session_keys_disjoint_witness:
  "(''cli-administratif'', ''kbis'') \<noteq> (''cli-administratif'', ''kbis-session'')
   \<and> setCredentials Kbis ''a@b.fr'' ''pw'' Map.empty (''cli-administratif'', ''kbis-session'') = None
   \<and> deleteSessionToken Kbis (setCredentials Kbis ''a@b.fr'' ''pw'' Map.empty)
        (''cli-administratif'', ''kbis'') =
        Some (CredentialsJSON \<lparr>login = ''a@b.fr'', password = ''pw''\<rparr>)"
proof -
  let ?s = "setCredentials Kbis ''a@b.fr'' ''pw'' Map.empty"
  from credentials_session_keys_disjoint [of Kbis "''a@b.fr''" "''pw''" Map.empty Kbis]
  have "?s (''cli-administratif'', ''kbis-session'') = None"
    and "?s (''cli-administratif'', ''kbis'') =
        Some (CredentialsJSON \<lparr>login = ''a@b.fr'', password = ''pw''\<rparr>)"
    by simp_all
  moreover from credentials_session_keys_disjoint [of Kbis _ _ ?s Kbis]
  have "deleteSessionToken Kbis ?s (''cli-administratif'', ''kbis'') = ?s (''cli-administratif'', ''kbis'')"
    by simp
  ultimately show ?thesis by simp
qed

lemma get_fresh:
  assumes "S (KEYCHAIN_SERVICE, sessionKey name) = Some (SessionJSON \<lparr>token = t, expiresAt = Some x\<rparr>)"
    and "of_int now' \<le> x"
  shows "getSessionToken name now' S = (Some t, S)"
  using assms by (simp add: getSessionToken_def number_lessThan_def Date_now_def)

lemma get_expired:
  assumes "S (KEYCHAIN_SERVICE, sessionKey name) = Some (SessionJSON \<lparr>token = t, expiresAt = Some x\<rparr>)"
    and "x < of_int now'"
  shows "getSessionToken name now' S = (None, deleteSessionToken name S)"
  using assms by (simp add: getSessionToken_def number_lessThan_def Date_now_def)

lemma get_null:
  assumes "S (KEYCHAIN_SERVICE, sessionKey name) = Some (SessionJSON \<lparr>token = t, expiresAt = None\<rparr>)"
  shows "getSessionToken name now' S =
     (if 0 < now' then (None, deleteSessionToken name S) else (Some t, S))"
  using assms by (simp add: getSessionToken_def number_lessThan_def Date_now_def)

lemma get_deleted:
  "getSessionToken name now'' (deleteSessionToken name S) = (None, deleteSessionToken name S)"
  by (simp add: getSessionToken_def deleteSessionToken_def)

lemma JSON_number_None: "JSON_number E = None \<longleftrightarrow> E = PosInfinity \<or> E = NegInfinity \<or> E = NaN"
  by (cases E) simp_all

text \<open>
  Claim C3, amended. \<open>setSessionToken\<close> stores the token with the \<open>expiresAt\<close> that
  \<^verbatim>\<open>Date.now() + ttlMinutes * 60 * 1000\<close> gives in the arithmetic of doubles, as JSON
  keeps it: a finite number as it is, an infinity or NaN as \<^verbatim>\<open>null\<close>. When
  \<open>ttlMinutes\<close> is an integer \<open>k\<close> and neither \<open>\<bar>k\<bar> * 60000\<close> nor
  \<open>\<bar>now + k * 60000\<bar>\<close> exceeds \<open>2 ^ 53\<close>, the stored number is exactly
  \<open>now + k * 60000\<close>. A read at a time \<open>now'\<close> that is at most the stored number
  returns the token and leaves the store as it is; a read right after the write, at
  the same \<open>now\<close>, is such a read when \<open>ttlMinutes\<close> is finite and not negative and
  the stored value is a number. A read at a time after the stored number returns nothing
  and deletes the entry, so that any later read finds no entry. An entry stored with
  \<^verbatim>\<open>null\<close> is compared with 0: a read at any time after 0 returns nothing and deletes
  it.
\<close>

theorem session_token_expiry:
  "setSessionToken name t ttl now s (KEYCHAIN_SERVICE, sessionKey name) =
      Some (SessionJSON \<lparr>token = t,
        expiresAt = JSON_number (number_add (Date_now now)
          (number_multiply (number_multiply ttl (Finite 60)) (Finite 1000)))\<rparr>)
   \<and> (JSON_number (number_add (Date_now now)
          (number_multiply (number_multiply ttl (Finite 60)) (Finite 1000))) = None
      \<longleftrightarrow> number_add (Date_now now)
          (number_multiply (number_multiply ttl (Finite 60)) (Finite 1000))
          \<in> {PosInfinity, NegInfinity, NaN})
   \<and> (ttl = Finite (of_int k) \<and> \<bar>k\<bar> * 60000 \<le> 2 ^ 53 \<and> \<bar>now + k * 60000\<bar> \<le> 2 ^ 53 \<longrightarrow>
        setSessionToken name t ttl now s (KEYCHAIN_SERVICE, sessionKey name) =
          Some (SessionJSON \<lparr>token = t, expiresAt = Some (of_int (now + k * 60000))\<rparr>))
   \<and> (setSessionToken name t ttl now s (KEYCHAIN_SERVICE, sessionKey name) =
          Some (SessionJSON \<lparr>token = t, expiresAt = Some x\<rparr>) \<and> of_int now' \<le> x \<longrightarrow>
        getSessionToken name now' (setSessionToken name t ttl now s) =
          (Some t, setSessionToken name t ttl now s))
   \<and> (ttl = Finite p \<and> 0 \<le> p \<and> 0 \<le> now \<and> now \<le> 2 ^ 53
        \<and> setSessionToken name t ttl now s (KEYCHAIN_SERVICE, sessionKey name) \<noteq>
          Some (SessionJSON \<lparr>token = t, expiresAt = None\<rparr>) \<longrightarrow>
        getSessionToken name now (setSessionToken name t ttl now s) =
          (Some t, setSessionToken name t ttl now s))
   \<and> (setSessionToken name t ttl now s (KEYCHAIN_SERVICE, sessionKey name) =
          Some (SessionJSON \<lparr>token = t, expiresAt = Some x\<rparr>) \<and> x < of_int now' \<longrightarrow>
        getSessionToken name now' (setSessionToken name t ttl now s) =
          (None, deleteSessionToken name (setSessionToken name t ttl now s))
        \<and> deleteSessionToken name (setSessionToken name t ttl now s)
            (KEYCHAIN_SERVICE, sessionKey name) = None
        \<and> getSessionToken name now'' (deleteSessionToken name (setSessionToken name t ttl now s)) =
            (None, deleteSessionToken name (setSessionToken name t ttl now s)))
   \<and> (setSessionToken name t ttl now s (KEYCHAIN_SERVICE, sessionKey name) =
          Some (SessionJSON \<lparr>token = t, expiresAt = None\<rparr>) \<longrightarrow>
        getSessionToken name now' (setSessionToken name t ttl now s) =
          (if 0 < now' then (None, deleteSessionToken name (setSessionToken name t ttl now s))
           else (Some t, setSessionToken name t ttl now s)))"
  (is "?stored \<and> ?null \<and> ?exact \<and> ?fresh \<and> ?immediate \<and> ?expired \<and> ?nullread")
proof (intro conjI)
  let ?E = "number_add (Date_now now)
          (number_multiply (number_multiply ttl (Finite 60)) (Finite 1000))"
  let ?S = "setSessionToken name t ttl now s"
  show stored: ?stored by (simp add: setSessionToken_def)
  show ?null by (simp add: JSON_number_None)
  show ?exact
  proof (intro impI, elim conjE)
    assume "ttl = Finite (of_int k)" "\<bar>k\<bar> * 60000 \<le> 2 ^ 53" "\<bar>now + k * 60000\<bar> \<le> 2 ^ 53"
    with expiry_int [of k now] have "?E = Finite (of_int (now + k * 60000))" by simp
    with stored show "?S (KEYCHAIN_SERVICE, sessionKey name) =
          Some (SessionJSON \<lparr>token = t, expiresAt = Some (of_int (now + k * 60000))\<rparr>)"
      by simp
  qed
  show ?fresh by (auto intro: get_fresh)
  show ?immediate
  proof (intro impI, elim conjE)
    assume ttl: "ttl = Finite p" and p: "0 \<le> p" and now: "0 \<le> now" "now \<le> 2 ^ 53"
      and nn: "?S (KEYCHAIN_SERVICE, sessionKey name) \<noteq>
          Some (SessionJSON \<lparr>token = t, expiresAt = None\<rparr>)"
    from expiry_nonneg [OF p now] ttl consider "?E = PosInfinity"
      | x where "?E = Finite x" "of_int now \<le> x" by auto
    then show "getSessionToken name now ?S = (Some t, ?S)"
    proof cases
      case 1
      with stored nn show ?thesis by simp
    next
      case 2
      with stored have "?S (KEYCHAIN_SERVICE, sessionKey name) =
          Some (SessionJSON \<lparr>token = t, expiresAt = Some x\<rparr>)" by simp
      then show ?thesis using 2(2) by (rule get_fresh)
    qed
  qed
  show ?expired
    by (auto simp: get_expired get_deleted) (simp add: deleteSessionToken_def)
  show ?nullread by (auto simp: get_null)
qed

theorem session_token_expiry_witness:
  "getSessionToken Kbis 1000 (setSessionToken Kbis ''abc'' (Finite 30) 1000 Map.empty) =
     (Some ''abc'', setSessionToken Kbis ''abc'' (Finite 30) 1000 Map.empty)
   \<and> getSessionToken Kbis 1801000 (setSessionToken Kbis ''abc'' (Finite 30) 1000 Map.empty) =
     (Some ''abc'', setSessionToken Kbis ''abc'' (Finite 30) 1000 Map.empty)
   \<and> fst (getSessionToken Kbis 1801001 (setSessionToken Kbis ''abc'' (Finite 30) 1000 Map.empty)) = None
   \<and> snd (getSessionToken Kbis 1801001 (setSessionToken Kbis ''abc'' (Finite 30) 1000 Map.empty))
        (KEYCHAIN_SERVICE, sessionKey Kbis) = None
   \<and> fst (getSessionToken Kbis 1000 (setSessionToken Kbis ''abc'' PosInfinity 1000 Map.empty)) = None"
proof -
  let ?S = "setSessionToken Kbis ''abc'' (Finite 30) 1000 Map.empty"
  let ?k = "(KEYCHAIN_SERVICE, sessionKey Kbis)"
  note th = session_token_expiry [of Kbis "''abc''" "Finite 30" 1000 Map.empty 30 1801000 _ 30]
  from th [of 1000] have "Finite 30 = Finite (of_int 30) \<and> \<bar>30\<bar> * 60000 \<le> (2 ^ 53 :: int)
      \<and> \<bar>1000 + 30 * 60000\<bar> \<le> (2 ^ 53 :: int) \<longrightarrow>
      ?S ?k = Some (SessionJSON \<lparr>token = ''abc'', expiresAt = Some (of_int (1000 + 30 * 60000))\<rparr>)"
    by blast
  then have st: "?S ?k = Some (SessionJSON \<lparr>token = ''abc'', expiresAt = Some 1801000\<rparr>)"
    by simp
  from th [of 1000] have "Finite 30 = Finite 30 \<and> (0::rat) \<le> 30 \<and> (0::int) \<le> 1000
      \<and> (1000::int) \<le> 2 ^ 53
      \<and> ?S ?k \<noteq> Some (SessionJSON \<lparr>token = ''abc'', expiresAt = None\<rparr>) \<longrightarrow>
      getSessionToken Kbis 1000 ?S = (Some ''abc'', ?S)"
    by blast
  with st have 1: "getSessionToken Kbis 1000 ?S = (Some ''abc'', ?S)"
    by simp
  from th [of 1801000] have "?S ?k = Some (SessionJSON \<lparr>token = ''abc'', expiresAt = Some 1801000\<rparr>)
      \<and> of_int 1801000 \<le> (1801000 :: rat) \<longrightarrow>
      getSessionToken Kbis 1801000 ?S = (Some ''abc'', ?S)"
    by blast
  with st have 2: "getSessionToken Kbis 1801000 ?S = (Some ''abc'', ?S)"
    by simp
  from th [of 1801001] have "?S ?k = Some (SessionJSON \<lparr>token = ''abc'', expiresAt = Some 1801000\<rparr>)
      \<and> (1801000 :: rat) < of_int 1801001 \<longrightarrow>
      getSessionToken Kbis 1801001 ?S = (None, deleteSessionToken Kbis ?S)
      \<and> deleteSessionToken Kbis ?S ?k = None"
    by blast
  with st have 3: "getSessionToken Kbis 1801001 ?S = (None, deleteSessionToken Kbis ?S)"
    and 4: "deleteSessionToken Kbis ?S ?k = None"
    by simp_all
  let ?T = "setSessionToken Kbis ''abc'' PosInfinity 1000 Map.empty"
  note ti = session_token_expiry [of Kbis "''abc''" PosInfinity 1000 Map.empty _ _ 1000]
  have inf: "number_add (Date_now 1000)
      (number_multiply (number_multiply PosInfinity (Finite 60)) (Finite 1000)) = PosInfinity"
    by (simp add: number_add_def number_multiply_def Date_now_def)
  from ti have "?T ?k = Some (SessionJSON \<lparr>token = ''abc'',
        expiresAt = JSON_number (number_add (Date_now 1000)
          (number_multiply (number_multiply PosInfinity (Finite 60)) (Finite 1000)))\<rparr>)"
    by blast
  with inf have tn: "?T ?k = Some (SessionJSON \<lparr>token = ''abc'', expiresAt = None\<rparr>)"
    by simp
  from ti have "?T ?k = Some (SessionJSON \<lparr>token = ''abc'', expiresAt = None\<rparr>) \<longrightarrow>
      getSessionToken Kbis 1000 ?T =
        (if (0::int) < 1000 then (None, deleteSessionToken Kbis ?T) else (Some ''abc'', ?T))"
    by blast
  with tn have 5: "getSessionToken Kbis 1000 ?T = (None, deleteSessionToken Kbis ?T)"
    by simp
  from 1 2 3 4 5 show ?thesis by simp
qed

text \<open>
  The claim as stated (for every \<open>ttl\<close> the stored \<open>expiresAt\<close> is
  \<open>now + ttl * 60000\<close>, and a read with \<open>now\<close> unchanged returns the token) fails in
  three ways. With the negative \<open>ttl\<close> of \<open>- 1\<close> the entry is written already expired
  and the read at the same \<open>now\<close> returns nothing. With \<open>ttl = 2 ^ 53\<close> and the clock
  at 1 the sum is rounded: the stored number is \<open>2 ^ 53 * 60000\<close>, not one more. With
  \<open>ttl = 2 ^ 1020\<close> the product overflows to an infinity, which is stored as
  \<^verbatim>\<open>null\<close>, and the read at the same \<open>now\<close> returns nothing.
\<close>

theorem session_token_expiry_counterexample:
  "fst (getSessionToken Kbis 1000 (setSessionToken Kbis ''abc'' (Finite (- 1)) 1000 Map.empty)) = None
   \<and> setSessionToken Kbis ''abc'' (Finite (2 ^ 53)) 1 Map.empty (KEYCHAIN_SERVICE, sessionKey Kbis) =
       Some (SessionJSON \<lparr>token = ''abc'', expiresAt = Some (2 ^ 53 * 60000)\<rparr>)
   \<and> (1 + 2 ^ 53 * 60000 :: rat) \<noteq> 2 ^ 53 * 60000
   \<and> setSessionToken Kbis ''abc'' (Finite (2 ^ 1020)) 1000 Map.empty (KEYCHAIN_SERVICE, sessionKey Kbis) =
       Some (SessionJSON \<lparr>token = ''abc'', expiresAt = None\<rparr>)
   \<and> fst (getSessionToken Kbis 1000 (setSessionToken Kbis ''abc'' (Finite (2 ^ 1020)) 1000 Map.empty)) = None"
proof -
  have "number_add (Date_now 1000)
      (number_multiply (number_multiply (Finite (of_int (- 1))) (Finite 60)) (Finite 1000)) =
      Finite (of_int (1000 + (- 1) * 60000))"
    by (rule expiry_int) simp_all
  then have 1: "fst (getSessionToken Kbis 1000
      (setSessionToken Kbis ''abc'' (Finite (- 1)) 1000 Map.empty)) = None"
    by (simp add: getSessionToken_def setSessionToken_def number_lessThan_def Date_now_def)
  have 2: "setSessionToken Kbis ''abc'' (Finite (2 ^ 53)) 1 Map.empty (KEYCHAIN_SERVICE, sessionKey Kbis) =
       Some (SessionJSON \<lparr>token = ''abc'', expiresAt = Some (2 ^ 53 * 60000)\<rparr>)"
    using rounded_expiry by (simp add: setSessionToken_def)
  have "number_add (Date_now 1000)
      (number_multiply (number_multiply (Finite (2 ^ 1020)) (Finite 60)) (Finite 1000)) = PosInfinity"
    using overflow_60 by (simp add: number_add_def number_multiply_def Date_now_def)
  then have 3: "setSessionToken Kbis ''abc'' (Finite (2 ^ 1020)) 1000 Map.empty
       (KEYCHAIN_SERVICE, sessionKey Kbis) =
       Some (SessionJSON \<lparr>token = ''abc'', expiresAt = None\<rparr>)"
    by (simp add: setSessionToken_def)
  from get_null [of "setSessionToken Kbis ''abc'' (Finite (2 ^ 1020)) 1000 Map.empty" Kbis "''abc''" 1000] 3
  have 4: "fst (getSessionToken Kbis 1000
      (setSessionToken Kbis ''abc'' (Finite (2 ^ 1020)) 1000 Map.empty)) = None"
    by simp
  from 1 2 3 4 show ?thesis by simp
qed

section \<open>Properties of the redirect walk\<close>

lemma redirect_walk_hops:
  "redirect_walk P n u tr = (r, tr') \<Longrightarrow>
   \<exists>hops. tr' = tr @ hops \<and> length hops \<le> n
     \<and> (0 < n \<longrightarrow> hops \<noteq> [] \<and> fst (hd hops) = get_request u True)
     \<and> (\<forall>x\<in>set hops. http_method (fst x) = ''GET'' \<and> redirect_manual (fst x))
     \<and> (\<forall>x\<in>set (butlast hops). \<not> truthy (hop_cookie P x))
     \<and> (case r of
          Inr v \<Rightarrow> if v = [] then \<forall>x\<in>set hops. snd x \<noteq> None \<and> \<not> truthy (hop_cookie P x)
                   else hops \<noteq> [] \<and> hop_cookie P (last hops) = Some v
        | Inl e \<Rightarrow> e = FetchFailed \<and> hops \<noteq> [] \<and> snd (last hops) = None)"
proof (induction n arbitrary: u tr r tr')
  case 0
  then show ?case by auto
next
  case (Suc n)
  let ?req = "get_request u True"
  let ?x = "(?req, fetch P tr ?req)"
  show ?case
  proof (cases "fetch P tr ?req")
    case None
    with Suc.prems have "r = Inl FetchFailed" "tr' = tr @ [?x]"
      by (auto simp: do_fetch_def)
    then show ?thesis using None
      by (intro exI [of _ "[?x]"]) (simp add: get_request_def)
  next
    case (Some res)
    show ?thesis
    proof (cases "truthy (parseCookies P res ''PHPSESSID'')")
      case True
      with Some Suc.prems have r: "r = Inr (string_or_empty (parseCookies P res ''PHPSESSID''))"
        and tr': "tr' = tr @ [?x]"
        by (auto simp: do_fetch_def)
      from True obtain v where v: "parseCookies P res ''PHPSESSID'' = Some v" "v \<noteq> []"
        by (cases "parseCookies P res ''PHPSESSID''") auto
      show ?thesis using r tr' v Some
        by (intro exI [of _ "[?x]"]) (simp add: get_request_def hop_cookie_def)
    next
      case False
      then have nc: "\<not> truthy (hop_cookie P ?x)"
        using Some by (simp add: hop_cookie_def)
      show ?thesis
      proof (cases "\<exists>nextUrl. location res = Some nextUrl \<and> nextUrl \<noteq> [] \<and> status res = 302")
        case True
        then obtain nextUrl where nu: "location res = Some nextUrl" "nextUrl \<noteq> []" "status res = 302"
          by blast
        let ?u' = "if startsWith nextUrl ''http'' then nextUrl else ''https://monidenum.fr'' @ nextUrl"
        from Suc.prems Some False nu have "redirect_walk P n ?u' (tr @ [?x]) = (r, tr')"
          by (simp add: do_fetch_def)
        from Suc.IH [OF this] obtain hops where h:
          "tr' = (tr @ [?x]) @ hops" "length hops \<le> n"
          "\<forall>x\<in>set hops. http_method (fst x) = ''GET'' \<and> redirect_manual (fst x)"
          "\<forall>x\<in>set (butlast hops). \<not> truthy (hop_cookie P x)"
          "case r of
             Inr v \<Rightarrow> if v = [] then \<forall>x\<in>set hops. snd x \<noteq> None \<and> \<not> truthy (hop_cookie P x)
                      else hops \<noteq> [] \<and> hop_cookie P (last hops) = Some v
           | Inl e \<Rightarrow> e = FetchFailed \<and> hops \<noteq> [] \<and> snd (last hops) = None"
          by blast
        show ?thesis
        proof (intro exI [of _ "?x # hops"] conjI)
          show "tr' = tr @ ?x # hops" using h(1) by simp
          show "length (?x # hops) \<le> Suc n" using h(2) by simp
          show "0 < Suc n \<longrightarrow> ?x # hops \<noteq> [] \<and> fst (hd (?x # hops)) = get_request u True" by simp
          show "\<forall>x\<in>set (?x # hops). http_method (fst x) = ''GET'' \<and> redirect_manual (fst x)"
            using h(3) by (simp add: get_request_def)
          show "\<forall>x\<in>set (butlast (?x # hops)). \<not> truthy (hop_cookie P x)"
            using h(4) nc by auto
          show "case r of
             Inr v \<Rightarrow> if v = [] then \<forall>x\<in>set (?x # hops). snd x \<noteq> None \<and> \<not> truthy (hop_cookie P x)
                      else ?x # hops \<noteq> [] \<and> hop_cookie P (last (?x # hops)) = Some v
           | Inl e \<Rightarrow> e = FetchFailed \<and> ?x # hops \<noteq> [] \<and> snd (last (?x # hops)) = None"
            using h(5) nc Some by (auto split: sum.splits if_splits)
        qed
      next
        case nf: False
        with Suc.prems Some False have "r = Inr []" "tr' = tr @ [?x]"
          by (auto simp: do_fetch_def split: option.splits if_splits)
        then show ?thesis using nc Some
          by (intro exI [of _ "[?x]"]) (simp add: get_request_def)
      qed
    qed
  qed
qed

text \<open>
  Claim C2, amended. After a login POST answered by a 302 whose \<open>Location\<close> passes the
  guard, the walk makes at least one and at most five requests, all of them GET without
  automatic redirection, the first to the \<open>Location\<close>. No hop before the last carries
  a non-empty \<open>PHPSESSID\<close>. Either the last hop carries a non-empty \<open>PHPSESSID\<close>, which
  is returned, or no hop does and the call raises the error of the missing session
  cookie (or the error of the request that failed).
\<close>

theorem redirect_walk_bounded:
  assumes "status loginRes = 302" and "location loginRes = Some u"
    and "includes_str u ''monidenum.fr''"
    and "after_login_post P loginRes tr = (r, tr')"
  shows "\<exists>hops. tr' = tr @ hops \<and> hops \<noteq> [] \<and> length hops \<le> 5
     \<and> fst (hd hops) = get_request u True
     \<and> (\<forall>x\<in>set hops. http_method (fst x) = ''GET'' \<and> redirect_manual (fst x))
     \<and> (\<forall>x\<in>set (butlast hops). \<not> truthy (hop_cookie P x))
     \<and> (case r of
          Inr v \<Rightarrow> v \<noteq> [] \<and> hop_cookie P (last hops) = Some v
        | Inl e \<Rightarrow> \<not> truthy (hop_cookie P (last hops))
            \<and> e = (if snd (last hops) = None then FetchFailed else SessionCookieNotFound))"
proof -
  from assms(3) have ne: "u \<noteq> []" by (cases u) auto
  obtain r0 tr0 where w: "redirect_walk P 5 u tr = (r0, tr0)"
    by (cases "redirect_walk P 5 u tr")
  from redirect_walk_hops [OF w] obtain hops where h:
    "tr0 = tr @ hops" "length hops \<le> 5" "hops \<noteq> []" "fst (hd hops) = get_request u True"
    "\<forall>x\<in>set hops. http_method (fst x) = ''GET'' \<and> redirect_manual (fst x)"
    "\<forall>x\<in>set (butlast hops). \<not> truthy (hop_cookie P x)"
    "case r0 of
       Inr v \<Rightarrow> if v = [] then \<forall>x\<in>set hops. snd x \<noteq> None \<and> \<not> truthy (hop_cookie P x)
                else hops \<noteq> [] \<and> hop_cookie P (last hops) = Some v
     | Inl e \<Rightarrow> e = FetchFailed \<and> hops \<noteq> [] \<and> snd (last hops) = None"
    by auto
  from assms ne w have res: "(r, tr') =
      (case r0 of Inl e \<Rightarrow> (Inl e, tr0)
       | Inr v \<Rightarrow> if v = [] then (Inl SessionCookieNotFound, tr0) else (Inr v, tr0))"
    by (simp add: after_login_post_def split: sum.splits)
  have last_in: "last hops \<in> set hops" using h(3) by simp
  have "case r of
          Inr v \<Rightarrow> v \<noteq> [] \<and> hop_cookie P (last hops) = Some v
        | Inl e \<Rightarrow> \<not> truthy (hop_cookie P (last hops))
            \<and> e = (if snd (last hops) = None then FetchFailed else SessionCookieNotFound)"
  proof (cases r0)
    case (Inl e)
    with h(7) res show ?thesis by (auto simp: hop_cookie_def)
  next
    case (Inr v)
    show ?thesis
    proof (cases "v = []")
      case True
      with Inr h(7) res last_in show ?thesis by auto
    next
      case False
      with Inr h(7) res show ?thesis by auto
    qed
  qed
  moreover have "tr' = tr @ hops" using res h(1) by (auto split: sum.splits if_splits)
  ultimately show ?thesis using h by blast
qed

lemma always_redirect_run:
  "after_login_post always_redirect (redirect_to ''https://monidenum.fr/sso'') [] =
     (Inl SessionCookieNotFound,
      [(get_request ''https://monidenum.fr/sso'' True, Some (redirect_to ''/suite'')),
       suite, suite, suite, suite])"
  by (simp add: after_login_post_def always_redirect_def redirect_to_def fixture_platform_def
    startsWith_def do_fetch_def parseCookies_def numeral_eq_Suc suite_def)

theorem redirect_walk_bounded_witness:
  "after_login_post always_redirect (redirect_to ''https://monidenum.fr/sso'') [] =
     (Inl SessionCookieNotFound,
      [(get_request ''https://monidenum.fr/sso'' True, Some (redirect_to ''/suite'')),
       suite, suite, suite, suite])
   \<and> (\<exists>hops. [(get_request ''https://monidenum.fr/sso'' True, Some (redirect_to ''/suite'')),
       suite, suite, suite, suite] = [] @ hops \<and> hops \<noteq> [] \<and> length hops \<le> 5
     \<and> fst (hd hops) = get_request ''https://monidenum.fr/sso'' True
     \<and> (\<forall>x\<in>set hops. http_method (fst x) = ''GET'' \<and> redirect_manual (fst x))
     \<and> (\<forall>x\<in>set (butlast hops). \<not> truthy (hop_cookie always_redirect x))
     \<and> \<not> truthy (hop_cookie always_redirect (last hops)))"
proof -
  have 1: "status (redirect_to ''https://monidenum.fr/sso'') = 302"
    and 2: "location (redirect_to ''https://monidenum.fr/sso'') = Some ''https://monidenum.fr/sso''"
    by (simp_all add: redirect_to_def)
  have 3: "includes_str ''https://monidenum.fr/sso'' ''monidenum.fr''"
    by (simp add: startsWith_def)
  from redirect_walk_bounded [OF 1 2 3 always_redirect_run] always_redirect_run
  show ?thesis by simp
qed

text \<open>
  The claim as stated (the walk stops at the first hop whose response sets the cookie)
  fails when a response sets the cookie to the empty value: the test
  \<^verbatim>\<open>if (sessionCookie)\<close> is false on it and the walk goes on to the next hop.
\<close>

theorem redirect_walk_empty_cookie_counterexample:
  "hop_cookie empty_then_set
     (get_request ''https://monidenum.fr/a'' True,
      Some \<lparr>status = 302, location = Some ''/b'', setCookie = [''PHPSESSID=; Path=/''], body = []\<rparr>)
     = Some []
   \<and> after_login_post empty_then_set (redirect_to ''https://monidenum.fr/a'') [] =
     (Inr ''abc'',
      [(get_request ''https://monidenum.fr/a'' True,
        Some \<lparr>status = 302, location = Some ''/b'', setCookie = [''PHPSESSID=; Path=/''], body = []\<rparr>),
       (get_request ''https://monidenum.fr/b'' True,
        Some \<lparr>status = 200, location = None, setCookie = [''PHPSESSID=abc; Path=/''], body = []\<rparr>)])"
  by (simp add: after_login_post_def empty_then_set_def redirect_to_def fixture_platform_def
    startsWith_def do_fetch_def parseCookies_def numeral_eq_Suc hop_cookie_def)

section \<open>Properties of the answer to the login form\<close>

lemma alert_match_here_shape:
  assumes "alert_match_here s = Some m"
  shows "\<exists>cls attrs rest. s = alert_pattern @ cls @ [dquote] @ attrs @ ''>'' @ m @ rest
     \<and> dquote \<notin> set cls \<and> CHR ''>'' \<notin> set attrs \<and> m \<noteq> [] \<and> CHR ''<'' \<notin> set m
     \<and> (rest = [] \<or> hd rest = CHR ''<'')"
proof -
  from assms have sw: "startsWith s alert_pattern"
    by (simp add: alert_match_here_def split: if_splits)
  define s1 where "s1 = drop (length alert_pattern) s"
  from sw have s: "s = alert_pattern @ s1"
    unfolding s1_def startsWith_def by (metis append_take_drop_id)
  define cls where "cls = takeWhile (\<lambda>c. c \<noteq> dquote) s1"
  define r1 where "r1 = dropWhile (\<lambda>c. c \<noteq> dquote) s1"
  have s1: "s1 = cls @ r1" by (simp add: cls_def r1_def)
  from assms sw have c1: "(case r1 of [] \<Rightarrow> None
         | q # r \<Rightarrow>
            (case dropWhile (\<lambda>c. c \<noteq> CHR ''>'') r of
               [] \<Rightarrow> None
             | g # t \<Rightarrow>
                (let m = takeWhile (\<lambda>c. c \<noteq> CHR ''<'') t
                 in if m = [] then None else Some m))) = Some m"
    by (simp add: alert_match_here_def r1_def s1_def)
  then obtain q r where r1c: "r1 = q # r"
    by (cases r1) simp_all
  have q: "q = dquote"
    using r1c hd_dropWhile [of "\<lambda>c. c \<noteq> dquote" s1] by (auto simp: r1_def)
  define attrs where "attrs = takeWhile (\<lambda>c. c \<noteq> CHR ''>'') r"
  define r2 where "r2 = dropWhile (\<lambda>c. c \<noteq> CHR ''>'') r"
  have r: "r = attrs @ r2" by (simp add: attrs_def r2_def)
  from c1 r1c have c2: "(case r2 of [] \<Rightarrow> None
             | g # t \<Rightarrow>
                (let m = takeWhile (\<lambda>c. c \<noteq> CHR ''<'') t
                 in if m = [] then None else Some m)) = Some m"
    by (simp add: r2_def)
  then obtain g t where r2c: "r2 = g # t"
    by (cases r2) simp_all
  have g: "g = CHR ''>''"
    using r2c hd_dropWhile [of "\<lambda>c. c \<noteq> CHR ''>''" r] by (auto simp: r2_def)
  from c2 r2c have m: "m = takeWhile (\<lambda>c. c \<noteq> CHR ''<'') t" "m \<noteq> []"
    by (auto simp: Let_def split: if_splits)
  define rest where "rest = dropWhile (\<lambda>c. c \<noteq> CHR ''<'') t"
  have t: "t = m @ rest" by (simp add: m rest_def)
  have rest: "rest = [] \<or> hd rest = CHR ''<''"
    using hd_dropWhile [of "\<lambda>c. c \<noteq> CHR ''<''" t] by (auto simp: rest_def)
  have "dquote \<notin> set cls" unfolding cls_def by (auto dest: set_takeWhileD)
  moreover have "CHR ''>'' \<notin> set attrs" unfolding attrs_def by (auto dest: set_takeWhileD)
  moreover have "CHR ''<'' \<notin> set m" unfolding m by (auto dest: set_takeWhileD)
  moreover have "s = alert_pattern @ cls @ [dquote] @ attrs @ ''>'' @ m @ rest"
    using s s1 r1c q r r2c g t by simp
  ultimately show ?thesis using m(2) rest by blast
qed

lemma alert_match_shape:
  "alert_match b = Some m \<Longrightarrow>
   \<exists>pre cls attrs rest.
     b = pre @ alert_pattern @ cls @ [dquote] @ attrs @ ''>'' @ m @ rest
     \<and> dquote \<notin> set cls \<and> CHR ''>'' \<notin> set attrs \<and> m \<noteq> [] \<and> CHR ''<'' \<notin> set m
     \<and> (rest = [] \<or> hd rest = CHR ''<'')"
proof (induction b)
  case Nil
  then show ?case by simp
next
  case (Cons c cs)
  show ?case
  proof (cases "alert_match_here (c # cs)")
    case (Some m')
    with Cons.prems have "alert_match_here (c # cs) = Some m" by simp
    from alert_match_here_shape [OF this] show ?thesis
      by (metis append_Nil)
  next
    case None
    with Cons.prems have "alert_match cs = Some m" by simp
    from Cons.IH [OF this] obtain pre cls attrs rest where
      "cs = pre @ alert_pattern @ cls @ [dquote] @ attrs @ ''>'' @ m @ rest
        \<and> dquote \<notin> set cls \<and> CHR ''>'' \<notin> set attrs \<and> m \<noteq> [] \<and> CHR ''<'' \<notin> set m
        \<and> (rest = [] \<or> hd rest = CHR ''<'')"
      by blast
    then have "c # cs = (c # pre) @ alert_pattern @ cls @ [dquote] @ attrs @ ''>'' @ m @ rest
        \<and> dquote \<notin> set cls \<and> CHR ''>'' \<notin> set attrs \<and> m \<noteq> [] \<and> CHR ''<'' \<notin> set m
        \<and> (rest = [] \<or> hd rest = CHR ''<'')"
      by simp
    then show ?thesis by blast
  qed
qed

lemma alert_match_here_complete:
  assumes s: "s = alert_pattern @ cls @ [dquote] @ attrs @ ''>'' @ m @ rest"
    and cls: "dquote \<notin> set cls" and attrs: "CHR ''>'' \<notin> set attrs"
    and m: "m \<noteq> []" "CHR ''<'' \<notin> set m"
  shows "alert_match_here s = Some (m @ takeWhile (\<lambda>c. c \<noteq> CHR ''<'') rest)"
proof -
  from s have sw: "startsWith s alert_pattern" by (simp add: startsWith_def)
  from s have d: "drop (length alert_pattern) s = cls @ dquote # attrs @ CHR ''>'' # m @ rest"
    by simp
  from cls have 1: "dropWhile (\<lambda>c. c \<noteq> dquote) (cls @ dquote # attrs @ CHR ''>'' # m @ rest) =
      dquote # attrs @ CHR ''>'' # m @ rest"
    by (simp add: dropWhile_append3) (metis (mono_tags, lifting) dropWhile_eq_Nil_conv)
  from attrs have 2: "dropWhile (\<lambda>c. c \<noteq> CHR ''>'') (attrs @ CHR ''>'' # m @ rest) =
      CHR ''>'' # m @ rest"
    by (simp add: dropWhile_append3) (metis (mono_tags, lifting) dropWhile_eq_Nil_conv)
  from m(2) have 3: "takeWhile (\<lambda>c. c \<noteq> CHR ''<'') (m @ rest) =
      m @ takeWhile (\<lambda>c. c \<noteq> CHR ''<'') rest"
    by (intro takeWhile_append2) auto
  from sw d 1 2 3 m(1) show ?thesis
    by (simp add: alert_match_here_def)
qed

lemma alert_match_leftmost:
  "alert_match b = Some m \<Longrightarrow>
   \<exists>pre s. b = pre @ s \<and> alert_match_here s = Some m
     \<and> (\<forall>pre' s'. b = pre' @ s' \<and> length pre' < length pre \<longrightarrow> alert_match_here s' = None)"
proof (induction b)
  case Nil
  then show ?case by simp
next
  case (Cons c cs)
  show ?case
  proof (cases "alert_match_here (c # cs)")
    case (Some m')
    with Cons.prems have "alert_match_here (c # cs) = Some m" by simp
    then have "c # cs = [] @ (c # cs) \<and> alert_match_here (c # cs) = Some m
     \<and> (\<forall>pre' s'. c # cs = pre' @ s' \<and> length pre' < length ([] :: string) \<longrightarrow>
           alert_match_here s' = None)"
      by simp
    then show ?thesis by blast
  next
    case None
    with Cons.prems have "alert_match cs = Some m" by simp
    from Cons.IH [OF this] obtain pre s where
      ps: "cs = pre @ s" "alert_match_here s = Some m"
      and least: "\<forall>pre' s'. cs = pre' @ s' \<and> length pre' < length pre \<longrightarrow>
        alert_match_here s' = None"
      by blast
    have "\<forall>pre' s'. c # cs = pre' @ s' \<and> length pre' < length (c # pre) \<longrightarrow>
        alert_match_here s' = None"
    proof (intro allI impI, elim conjE)
      fix pre' s'
      assume e: "c # cs = pre' @ s'" and l: "length pre' < length (c # pre)"
      show "alert_match_here s' = None"
      proof (cases pre')
        case Nil
        with e None show ?thesis by simp
      next
        case (Cons d ds)
        with e l have "cs = ds @ s'" "length ds < length pre" by simp_all
        with least show ?thesis by blast
      qed
    qed
    with ps have "c # cs = (c # pre) @ s \<and> alert_match_here s = Some m
     \<and> (\<forall>pre' s'. c # cs = pre' @ s' \<and> length pre' < length (c # pre) \<longrightarrow>
           alert_match_here s' = None)"
      by simp
    then show ?thesis by blast
  qed
qed

lemma alert_match_here_Nil: "alert_match_here [] = None"
  by (simp add: alert_match_here_def startsWith_def alert_pattern_def)

lemma alert_match_None:
  "alert_match b = None \<Longrightarrow> b = pre @ s \<Longrightarrow> alert_match_here s = None"
proof (induction b arbitrary: pre)
  case Nil
  then show ?case by (simp add: alert_match_here_Nil)
next
  case (Cons c cs)
  from Cons.prems(1) have here: "alert_match_here (c # cs) = None" and rest: "alert_match cs = None"
    by (simp_all split: option.splits)
  show ?case
  proof (cases pre)
    case Nil
    with Cons.prems(2) here show ?thesis by simp
  next
    case (Cons d ds)
    with Cons.prems(2) have "cs = ds @ s" by simp
    from Cons.IH [OF rest this] show ?thesis .
  qed
qed

lemma alert_match_first:
  assumes "alert_match b = Some m"
  shows "\<exists>pre cls attrs rest.
     b = pre @ alert_pattern @ cls @ [dquote] @ attrs @ ''>'' @ m @ rest
     \<and> dquote \<notin> set cls \<and> CHR ''>'' \<notin> set attrs \<and> m \<noteq> [] \<and> CHR ''<'' \<notin> set m
     \<and> (rest = [] \<or> hd rest = CHR ''<'')
     \<and> (\<forall>pre' cls' attrs' m' rest'.
           b = pre' @ alert_pattern @ cls' @ [dquote] @ attrs' @ ''>'' @ m' @ rest'
           \<and> dquote \<notin> set cls' \<and> CHR ''>'' \<notin> set attrs' \<and> m' \<noteq> [] \<and> CHR ''<'' \<notin> set m'
           \<longrightarrow> length pre \<le> length pre')"
proof -
  from alert_match_leftmost [OF assms] obtain pre s where
    ps: "b = pre @ s" "alert_match_here s = Some m"
    and least: "\<forall>pre' s'. b = pre' @ s' \<and> length pre' < length pre \<longrightarrow>
        alert_match_here s' = None"
    by blast
  from alert_match_here_shape [OF ps(2)] obtain cls attrs rest where
    sh: "s = alert_pattern @ cls @ [dquote] @ attrs @ ''>'' @ m @ rest"
      "dquote \<notin> set cls" "CHR ''>'' \<notin> set attrs" "m \<noteq> []" "CHR ''<'' \<notin> set m"
      "rest = [] \<or> hd rest = CHR ''<''"
    by blast
  have "\<forall>pre' cls' attrs' m' rest'.
           b = pre' @ alert_pattern @ cls' @ [dquote] @ attrs' @ ''>'' @ m' @ rest'
           \<and> dquote \<notin> set cls' \<and> CHR ''>'' \<notin> set attrs' \<and> m' \<noteq> [] \<and> CHR ''<'' \<notin> set m'
           \<longrightarrow> length pre \<le> length pre'"
  proof (intro allI impI, elim conjE)
    fix pre' cls' attrs' m' rest'
    assume b: "b = pre' @ alert_pattern @ cls' @ [dquote] @ attrs' @ ''>'' @ m' @ rest'"
      and c: "dquote \<notin> set cls'" "CHR ''>'' \<notin> set attrs'" "m' \<noteq> []" "CHR ''<'' \<notin> set m'"
    from alert_match_here_complete [OF refl c]
    have ne: "alert_match_here (alert_pattern @ cls' @ [dquote] @ attrs' @ ''>'' @ m' @ rest') \<noteq> None"
      by simp
    show "length pre \<le> length pre'"
    proof (rule ccontr)
      assume "\<not> length pre \<le> length pre'"
      then have "length pre' < length pre" by simp
      with least b
      have "alert_match_here (alert_pattern @ cls' @ [dquote] @ attrs' @ ''>'' @ m' @ rest') = None"
        by blast
      with ne show False by contradiction
    qed
  qed
  with ps(1) sh show ?thesis by blast
qed

lemma alert_match_none:
  assumes "alert_match b = None"
  shows "\<not> (\<exists>pre cls attrs m rest.
     b = pre @ alert_pattern @ cls @ [dquote] @ attrs @ ''>'' @ m @ rest
     \<and> dquote \<notin> set cls \<and> CHR ''>'' \<notin> set attrs \<and> m \<noteq> [] \<and> CHR ''<'' \<notin> set m)"
proof
  assume "\<exists>pre cls attrs m rest.
     b = pre @ alert_pattern @ cls @ [dquote] @ attrs @ ''>'' @ m @ rest
     \<and> dquote \<notin> set cls \<and> CHR ''>'' \<notin> set attrs \<and> m \<noteq> [] \<and> CHR ''<'' \<notin> set m"
  then obtain pre cls attrs m rest where
    b: "b = pre @ alert_pattern @ cls @ [dquote] @ attrs @ ''>'' @ m @ rest"
    and c: "dquote \<notin> set cls" "CHR ''>'' \<notin> set attrs" "m \<noteq> []" "CHR ''<'' \<notin> set m"
    by blast
  from alert_match_here_complete [OF refl c]
  have "alert_match_here (alert_pattern @ cls @ [dquote] @ attrs @ ''>'' @ m @ rest) \<noteq> None"
    by simp
  with alert_match_None [OF assms b] show False by simp
qed

text \<open>
  Claim C4. What \<^verbatim>\<open>login\<close> does with the answer to the login POST. When the status
  is not 302, it raises the error whose message is \<open>Authentification: \<close> followed by
  the text that the regular expression captures in the body, with every \<open>&#39;\<close>
  replaced by an apostrophe and the white space at both ends removed. The text captured
  is the one of the first match: the body is some text, then \<open>alert_pattern\<close> (a
  \<open>class\<close> attribute whose value starts with \<open>alert\<close>), the rest of the value up to
  the closing quote, the rest of the tag up to \<open>>\<close> and the captured text, which is not
  empty and runs up to the next \<open><\<close> or the end of the body; and no place of the body
  before this one has \<open>alert_pattern\<close>, a closing quote, a \<open>>\<close> and a character other
  than \<open><\<close> after it. When no place of the body has them, the message is
  \<open>Authentification: Erreur inconnue\<close>. When the status is 302
  and the \<open>Location\<close> is absent, empty or without the text \<open>monidenum.fr\<close>, the error
  of the unexpected redirect is raised and no request is made. The test on the
  \<open>Location\<close> is this search for a text: when the text occurs anywhere in the
  \<open>Location\<close>, the first request of the walk goes to it.
\<close>

theorem login_post_failure:
  "(status loginRes \<noteq> 302 \<longrightarrow>
      after_login_post P loginRes tr =
        (Inl (Authentification
           (case alert_match (body loginRes) of
              Some m \<Rightarrow> trim (replaceAll ''&#39;'' [CHR 0x27] m)
            | None \<Rightarrow> ''Erreur inconnue'')), tr))
   \<and> (\<forall>m. alert_match (body loginRes) = Some m \<longrightarrow>
        (\<exists>pre cls attrs rest.
           body loginRes =
             pre @ alert_pattern @ cls @ [dquote] @ attrs @ ''>'' @ m @ rest
           \<and> dquote \<notin> set cls \<and> CHR ''>'' \<notin> set attrs \<and> m \<noteq> [] \<and> CHR ''<'' \<notin> set m
           \<and> (rest = [] \<or> hd rest = CHR ''<'')
           \<and> (\<forall>pre' cls' attrs' m' rest'.
                 body loginRes =
                   pre' @ alert_pattern @ cls' @ [dquote] @ attrs' @ ''>'' @ m' @ rest'
                 \<and> dquote \<notin> set cls' \<and> CHR ''>'' \<notin> set attrs' \<and> m' \<noteq> []
                 \<and> CHR ''<'' \<notin> set m'
                 \<longrightarrow> length pre \<le> length pre')))
   \<and> (alert_match (body loginRes) = None \<longrightarrow>
        \<not> (\<exists>pre cls attrs m rest.
           body loginRes =
             pre @ alert_pattern @ cls @ [dquote] @ attrs @ ''>'' @ m @ rest
           \<and> dquote \<notin> set cls \<and> CHR ''>'' \<notin> set attrs \<and> m \<noteq> [] \<and> CHR ''<'' \<notin> set m))
   \<and> (status loginRes = 302
        \<and> \<not> includes_str (string_or_empty (location loginRes)) ''monidenum.fr'' \<longrightarrow>
      after_login_post P loginRes tr = (Inl UnexpectedRedirect, tr))
   \<and> (status loginRes = 302
        \<and> includes_str (string_or_empty (location loginRes)) ''monidenum.fr'' \<longrightarrow>
      (\<exists>hops. snd (after_login_post P loginRes tr) = tr @ hops \<and> hops \<noteq> []
         \<and> fst (hd hops) = get_request (string_or_empty (location loginRes)) True))"
proof (intro conjI impI allI)
  assume "status loginRes \<noteq> 302"
  then show "after_login_post P loginRes tr =
        (Inl (Authentification
           (case alert_match (body loginRes) of
              Some m \<Rightarrow> trim (replaceAll ''&#39;'' [CHR 0x27] m)
            | None \<Rightarrow> ''Erreur inconnue'')), tr)"
    by (simp add: after_login_post_def)
next
  fix m assume "alert_match (body loginRes) = Some m"
  then show "\<exists>pre cls attrs rest.
           body loginRes =
             pre @ alert_pattern @ cls @ [dquote] @ attrs @ ''>'' @ m @ rest
           \<and> dquote \<notin> set cls \<and> CHR ''>'' \<notin> set attrs \<and> m \<noteq> [] \<and> CHR ''<'' \<notin> set m
           \<and> (rest = [] \<or> hd rest = CHR ''<'')
           \<and> (\<forall>pre' cls' attrs' m' rest'.
                 body loginRes =
                   pre' @ alert_pattern @ cls' @ [dquote] @ attrs' @ ''>'' @ m' @ rest'
                 \<and> dquote \<notin> set cls' \<and> CHR ''>'' \<notin> set attrs' \<and> m' \<noteq> []
                 \<and> CHR ''<'' \<notin> set m'
                 \<longrightarrow> length pre \<le> length pre')"
    by (rule alert_match_first)
next
  assume "alert_match (body loginRes) = None"
  then show "\<not> (\<exists>pre cls attrs m rest.
           body loginRes =
             pre @ alert_pattern @ cls @ [dquote] @ attrs @ ''>'' @ m @ rest
           \<and> dquote \<notin> set cls \<and> CHR ''>'' \<notin> set attrs \<and> m \<noteq> [] \<and> CHR ''<'' \<notin> set m)"
    by (rule alert_match_none)
next
  assume "status loginRes = 302
        \<and> \<not> includes_str (string_or_empty (location loginRes)) ''monidenum.fr''"
  then show "after_login_post P loginRes tr = (Inl UnexpectedRedirect, tr)"
    by (cases "location loginRes") (auto simp: after_login_post_def)
next
  assume a: "status loginRes = 302
        \<and> includes_str (string_or_empty (location loginRes)) ''monidenum.fr''"
  then obtain u where u: "location loginRes = Some u" "includes_str u ''monidenum.fr''"
    by (cases "location loginRes") auto
  from u(2) have ne: "u \<noteq> []" by (cases u) auto
  obtain r0 tr0 where w: "redirect_walk P 5 u tr = (r0, tr0)"
    by (cases "redirect_walk P 5 u tr")
  from redirect_walk_hops [OF w] obtain hops where
    h: "tr0 = tr @ hops" "hops \<noteq> []" "fst (hd hops) = get_request u True"
    by auto
  have "snd (after_login_post P loginRes tr) = tr0"
    using a u ne w by (simp add: after_login_post_def split: sum.splits)
  with h u show "\<exists>hops. snd (after_login_post P loginRes tr) = tr @ hops \<and> hops \<noteq> []
         \<and> fst (hd hops) = get_request (string_or_empty (location loginRes)) True"
    by auto
qed

theorem login_post_failure_witness:
  "after_login_post no_network invalid_password_page [] =
     (Inl (Authentification ''Invalid password''), [])
   \<and> after_login_post no_network entity_page [] =
     (Inl (Authentification ''L'identifiant est invalide.''), [])
   \<and> (\<exists>pre cls attrs rest.
        body invalid_password_page =
          pre @ alert_pattern @ cls @ [dquote] @ attrs @ ''>'' @ ''Invalid password'' @ rest
        \<and> dquote \<notin> set cls \<and> CHR ''>'' \<notin> set attrs \<and> (rest = [] \<or> hd rest = CHR ''<''))
   \<and> after_login_post no_network (page ''<p>Service indisponible</p>'') [] =
     (Inl (Authentification ''Erreur inconnue''), [])
   \<and> \<not> (\<exists>pre cls attrs m rest.
        body (page ''<p>Service indisponible</p>'') =
          pre @ alert_pattern @ cls @ [dquote] @ attrs @ ''>'' @ m @ rest
        \<and> dquote \<notin> set cls \<and> CHR ''>'' \<notin> set attrs \<and> m \<noteq> [] \<and> CHR ''<'' \<notin> set m)
   \<and> after_login_post no_network (redirect_to ''https://login.example/'') [] =
     (Inl UnexpectedRedirect, [])
   \<and> after_login_post no_network \<lparr>status = 302, location = None, setCookie = [], body = []\<rparr> [] =
     (Inl UnexpectedRedirect, [])
   \<and> (\<exists>hops. snd (after_login_post no_network (redirect_to ''https://monidenum.fr/sso'') []) =
         [] @ hops \<and> hops \<noteq> []
       \<and> fst (hd hops) = get_request ''https://monidenum.fr/sso'' True)"
proof -
  have m1: "alert_match (body invalid_password_page) = Some ''Invalid password''"
    by (simp add: invalid_password_page_def alert_match_here_def alert_pattern_def dquote_def
        startsWith_def)
  have t1: "trim (replaceAll ''&#39;'' [CHR 0x27] ''Invalid password'') = ''Invalid password''"
    by (simp add: trim_def white_space_def startsWith_def)
  have "status invalid_password_page \<noteq> 302"
    by (simp add: invalid_password_page_def)
  with login_post_failure [of invalid_password_page no_network "[]"]
  have "after_login_post no_network invalid_password_page [] =
        (Inl (Authentification
           (case alert_match (body invalid_password_page) of
              Some m \<Rightarrow> trim (replaceAll ''&#39;'' [CHR 0x27] m)
            | None \<Rightarrow> ''Erreur inconnue'')), [])"
    by blast
  with m1 t1 have 1: "after_login_post no_network invalid_password_page [] =
     (Inl (Authentification ''Invalid password''), [])"
    by simp
  have m2: "alert_match (body entity_page) =
      Some ([CHR 0x0A] @ ''  L&#39;identifiant est invalide. '' @ [CHR 0x0A])"
    by (simp add: entity_page_def alert_match_here_def alert_pattern_def dquote_def
        startsWith_def)
  have t2: "trim (replaceAll ''&#39;'' [CHR 0x27]
        ([CHR 0x0A] @ ''  L&#39;identifiant est invalide. '' @ [CHR 0x0A])) =
      ''L'identifiant est invalide.''"
    by (simp add: trim_def white_space_def startsWith_def)
  have "status entity_page \<noteq> 302"
    by (simp add: entity_page_def)
  with login_post_failure [of entity_page no_network "[]"]
  have "after_login_post no_network entity_page [] =
        (Inl (Authentification
           (case alert_match (body entity_page) of
              Some m \<Rightarrow> trim (replaceAll ''&#39;'' [CHR 0x27] m)
            | None \<Rightarrow> ''Erreur inconnue'')), [])"
    by blast
  with m2 t2 have 2: "after_login_post no_network entity_page [] =
     (Inl (Authentification ''L'identifiant est invalide.''), [])"
    by simp
  from login_post_failure [of invalid_password_page no_network "[]"] m1
  have 3: "\<exists>pre cls attrs rest.
        body invalid_password_page =
          pre @ alert_pattern @ cls @ [dquote] @ attrs @ ''>'' @ ''Invalid password'' @ rest
        \<and> dquote \<notin> set cls \<and> CHR ''>'' \<notin> set attrs \<and> (rest = [] \<or> hd rest = CHR ''<'')"
    by blast
  let ?p = "page ''<p>Service indisponible</p>''"
  have m4: "alert_match (body ?p) = None"
    by (simp add: page_def alert_match_here_def alert_pattern_def dquote_def startsWith_def)
  have "status ?p \<noteq> 302" by (simp add: page_def)
  with login_post_failure [of ?p no_network "[]"]
  have "after_login_post no_network ?p [] =
        (Inl (Authentification
           (case alert_match (body ?p) of
              Some m \<Rightarrow> trim (replaceAll ''&#39;'' [CHR 0x27] m)
            | None \<Rightarrow> ''Erreur inconnue'')), [])"
    by blast
  with m4 have 4: "after_login_post no_network ?p [] =
     (Inl (Authentification ''Erreur inconnue''), [])"
    by simp
  from login_post_failure [of ?p no_network "[]"] m4
  have 5: "\<not> (\<exists>pre cls attrs m rest.
        body ?p = pre @ alert_pattern @ cls @ [dquote] @ attrs @ ''>'' @ m @ rest
        \<and> dquote \<notin> set cls \<and> CHR ''>'' \<notin> set attrs \<and> m \<noteq> [] \<and> CHR ''<'' \<notin> set m)"
    by blast
  have "status (redirect_to ''https://login.example/'') = 302
        \<and> \<not> includes_str (string_or_empty (location (redirect_to ''https://login.example/'')))
             ''monidenum.fr''"
    by (simp add: redirect_to_def startsWith_def)
  with login_post_failure [of "redirect_to ''https://login.example/''" no_network "[]"]
  have 6: "after_login_post no_network (redirect_to ''https://login.example/'') [] =
     (Inl UnexpectedRedirect, [])"
    by blast
  let ?r = "\<lparr>status = 302, location = None, setCookie = [], body = []\<rparr>"
  have "status ?r = 302 \<and> \<not> includes_str (string_or_empty (location ?r)) ''monidenum.fr''"
    by simp
  with login_post_failure [of ?r no_network "[]"]
  have 7: "after_login_post no_network ?r [] = (Inl UnexpectedRedirect, [])"
    by blast
  let ?s = "redirect_to ''https://monidenum.fr/sso''"
  have l: "string_or_empty (location ?s) = ''https://monidenum.fr/sso''"
    by (simp add: redirect_to_def)
  have "status ?s = 302 \<and> includes_str (string_or_empty (location ?s)) ''monidenum.fr''"
    by (simp add: redirect_to_def startsWith_def)
  with login_post_failure [of ?s no_network "[]"]
  have "\<exists>hops. snd (after_login_post no_network ?s []) = [] @ hops \<and> hops \<noteq> []
         \<and> fst (hd hops) = get_request (string_or_empty (location ?s)) True"
    by blast
  with l have 8: "\<exists>hops. snd (after_login_post no_network ?s []) = [] @ hops \<and> hops \<noteq> []
         \<and> fst (hd hops) = get_request ''https://monidenum.fr/sso'' True"
    by simp
  from 1 2 3 4 5 6 7 8 show ?thesis by blast
qed

text \<open>
  The test on the \<open>Location\<close> asks whether the text \<open>monidenum.fr\<close> occurs in it, not
  whether the URL is one of the site. A \<open>Location\<close> of another host whose name starts
  with that text, or that carries the text in its query, passes the test: the request is
  sent to that host, and a session cookie that it sets is returned as the session of
  monidenum.fr.
\<close>

theorem login_post_foreign_origin_counterexample:
  "url_origin ''https://monidenum.fr.evil.example/'' = ''https://monidenum.fr.evil.example''
   \<and> after_login_post other_host (redirect_to ''https://monidenum.fr.evil.example/'') [] =
     (Inr ''xyz'',
      [(get_request ''https://monidenum.fr.evil.example/'' True,
        Some \<lparr>status = 200, location = None, setCookie = [''PHPSESSID=xyz; Path=/''],
               body = []\<rparr>)])
   \<and> url_origin ''https://login.example/?from=monidenum.fr'' = ''https://login.example''
   \<and> after_login_post no_network (redirect_to ''https://login.example/?from=monidenum.fr'') [] =
     (Inl FetchFailed, [(get_request ''https://login.example/?from=monidenum.fr'' True, None)])"
  by (simp add: after_login_post_def no_network_def other_host_def redirect_to_def
    fixture_platform_def startsWith_def do_fetch_def parseCookies_def numeral_eq_Suc
    url_origin_def)

section \<open>Properties of the answer of /cnx\<close>

lemma getOrPrompt_prompts:
  assumes "getCredentials name s = None"
  shows "take (Suc (length (stdout t)))
           (stdout (fst (snd (getOrPromptCredentials name pr sh t s)))) = stdout t @ [pr]"
  using assms
  by (auto simp: getOrPromptCredentials_def ask_def askPassword_def stty_def write_out_def Let_def
      split: list.splits prod.splits outcome.splits)

text \<open>
  Claim C1, amended. When the answer of \<^verbatim>\<open>/cnx\<close> has no \<open>ctxUrssaf\<close> cookie and its
  body contains \<open>Erreur d'identifiant ou de mot de passe\<close>, \<^verbatim>\<open>login\<close> deletes the
  stored credentials of the service \<open>urssaf\<close> and raises the error of the rejected
  credentials, after the one request; the store then holds no credentials for
  \<open>urssaf\<close>, so that \<open>getOrPromptCredentials\<close> writes its prompt. When the body does
  not contain that text, \<^verbatim>\<open>login\<close> raises the error of the missing \<open>ctxUrssaf\<close> cookie
  and leaves the store as it is.
\<close>

theorem cnx_without_context_cookie:
  assumes "fetch P [] (cnx_request identifiant pw) = Some res"
    and "parseCookies P res ''ctxUrssaf'' = None"
  shows "(includes_str (body res) ''Erreur d'identifiant ou de mot de passe'' \<longrightarrow>
            urssaf_login P g s identifiant pw =
              (Inl CredentialRejected, deleteCredentials Urssaf s,
               [(cnx_request identifiant pw, Some res)])
            \<and> getCredentials Urssaf (deleteCredentials Urssaf s) = None
            \<and> take (Suc (length (stdout t)))
                 (stdout (fst (snd (getOrPromptCredentials Urssaf pr sh t
                    (deleteCredentials Urssaf s))))) = stdout t @ [pr])
       \<and> (\<not> includes_str (body res) ''Erreur d'identifiant ou de mot de passe'' \<longrightarrow>
            urssaf_login P g s identifiant pw =
              (Inl CtxCookieMissing, s, [(cnx_request identifiant pw, Some res)]))"
proof -
  have d: "getCredentials Urssaf (deleteCredentials Urssaf s) = None"
    by (simp add: getCredentials_def deleteCredentials_def)
  show ?thesis
    using assms d getOrPrompt_prompts [OF d]
    by (simp add: urssaf_login_def do_fetch_def)
qed

theorem cnx_without_context_cookie_witness:
  "urssaf_login (answer_with (page ''<p>Erreur d'identifiant ou de mot de passe</p>'')) (\<lambda>i. 0)
      stored_urssaf ''12345678900011'' ''secret'' =
     (Inl CredentialRejected, deleteCredentials Urssaf stored_urssaf,
      [(cnx_request ''12345678900011'' ''secret'',
        Some (page ''<p>Erreur d'identifiant ou de mot de passe</p>''))])
   \<and> getCredentials Urssaf stored_urssaf
       = Some (CredentialsJSON \<lparr>login = ''12345678900011'', password = ''secret''\<rparr>)
   \<and> getCredentials Urssaf (deleteCredentials Urssaf stored_urssaf) = None
   \<and> urssaf_login (answer_with (page ''<h1>Maintenance</h1>'')) (\<lambda>i. 0)
      stored_urssaf ''12345678900011'' ''secret'' =
     (Inl CtxCookieMissing, stored_urssaf,
      [(cnx_request ''12345678900011'' ''secret'', Some (page ''<h1>Maintenance</h1>''))])"
proof -
  let ?b1 = "''<p>Erreur d'identifiant ou de mot de passe</p>''"
  let ?b2 = "''<h1>Maintenance</h1>''"
  have f: "\<And>b. fetch (answer_with (page b)) [] (cnx_request ''12345678900011'' ''secret'') = Some (page b)"
    and c: "\<And>b. parseCookies (answer_with (page b)) (page b) ''ctxUrssaf'' = None"
    by (simp_all add: answer_with_def fixture_platform_def parseCookies_def)
  have i1: "includes_str (body (page ?b1)) ''Erreur d'identifiant ou de mot de passe''"
    by (simp add: page_def startsWith_def)
  have i2: "\<not> includes_str (body (page ?b2)) ''Erreur d'identifiant ou de mot de passe''"
    by (simp add: page_def startsWith_def)
  have g: "getCredentials Urssaf stored_urssaf
       = Some (CredentialsJSON \<lparr>login = ''12345678900011'', password = ''secret''\<rparr>)"
    by (simp add: getCredentials_def stored_urssaf_def setCredentials_def)
  from cnx_without_context_cookie [OF f c, of ?b1 "\<lambda>i. 0" stored_urssaf] i1
    cnx_without_context_cookie [OF f c, of ?b2 "\<lambda>i. 0" stored_urssaf] i2 g
  show ?thesis by blast
qed

text \<open>
  The claim as stated names the text \<open>identifiant ou mot de passe incorrect\<close>, which is
  part of the message of the error raised, not the text looked for in the body: a body
  with that text and no cookie gets the error of the missing cookie, and the
  credentials stay in the store.
\<close>

theorem cnx_spec_substring_counterexample:
  "includes_str ''<p>identifiant ou mot de passe incorrect</p>'' ''identifiant ou mot de passe incorrect''
   \<and> urssaf_login (answer_with (page ''<p>identifiant ou mot de passe incorrect</p>'')) (\<lambda>i. 0)
      stored_urssaf ''12345678900011'' ''secret'' =
     (Inl CtxCookieMissing, stored_urssaf,
      [(cnx_request ''12345678900011'' ''secret'',
        Some (page ''<p>identifiant ou mot de passe incorrect</p>''))])
   \<and> getCredentials Urssaf stored_urssaf
       = Some (CredentialsJSON \<lparr>login = ''12345678900011'', password = ''secret''\<rparr>)"
  by (simp add: urssaf_login_def do_fetch_def answer_with_def fixture_platform_def page_def
      parseCookies_def startsWith_def getCredentials_def stored_urssaf_def setCredentials_def)

section \<open>Properties of the password prompt\<close>

text \<open>
  Claim C6, amended. \<open>askPassword\<close> runs \<^verbatim>\<open>stty -echo\<close> first. If that command fails
  the call throws, nothing else is run and the echo is as before. If it succeeds and
  input comes, \<^verbatim>\<open>stty echo\<close> is run after it, before the call returns or throws; the
  call returns the trimmed input with the echo on when \<^verbatim>\<open>stty echo\<close> succeeds, and
  throws with the echo off when it fails. If \<^verbatim>\<open>stty -echo\<close> succeeds and no input
  comes, the call never returns and the echo stays off.
\<close>

theorem askPassword_echo:
  "fst (askPassword sh pr t) =
     (if \<not> sh ''stty -echo'' then Thrown ShellError
      else if stdin t = [] then Pending
      else if \<not> sh ''stty echo'' then Thrown ShellError
      else Returned (trim (hd (stdin t))))
   \<and> shell_log (snd (askPassword sh pr t)) =
       shell_log t @ (if sh ''stty -echo'' \<and> stdin t \<noteq> [] then [''stty -echo'', ''stty echo'']
                      else [''stty -echo''])
   \<and> echo (snd (askPassword sh pr t)) =
       (if sh ''stty -echo'' then stdin t \<noteq> [] \<and> sh ''stty echo'' else echo t)"
  by (cases "stdin t") (simp_all add: askPassword_def stty_def write_out_def Let_def)

theorem askPassword_echo_witness:
  "askPassword (\<lambda>c. True) ''Mot de passe: '' (terminal ['' secret '' @ [CHR 0x0A]]) =
     (Returned ''secret'',
      \<lparr>echo = True, stdin = [], stdout = [''Mot de passe: '', [CHR 0x0A]],
       shell_log = [''stty -echo'', ''stty echo''], paused = False\<rparr>)"
  using askPassword_echo [of "\<lambda>c. True" "''Mot de passe: ''" "terminal ['' secret '' @ [CHR 0x0A]]"]
  by (simp add: askPassword_def stty_def write_out_def terminal_def trim_def white_space_def
      startsWith_def)

text \<open>
  The claim as stated (on every exit path \<^verbatim>\<open>stty -echo\<close> is followed by \<^verbatim>\<open>stty echo\<close>
  and the terminal never stays without echo) fails: there is no \<^verbatim>\<open>try\<close> and
  \<^verbatim>\<open>finally\<close>. When \<^verbatim>\<open>stty -echo\<close> fails the error leaves the function and
  \<^verbatim>\<open>stty echo\<close> is not run; when \<^verbatim>\<open>stty echo\<close> fails the error leaves the function with
  the echo off; when no input comes the echo stays off.
\<close>

theorem askPassword_no_restore_counterexample:
  "askPassword (\<lambda>c. False) ''Mot de passe: '' (terminal [''secret'']) =
     (Thrown ShellError,
      \<lparr>echo = True, stdin = [''secret''], stdout = [''Mot de passe: ''],
       shell_log = [''stty -echo''], paused = False\<rparr>)
   \<and> askPassword (\<lambda>c. c = ''stty -echo'') ''Mot de passe: '' (terminal [''secret'']) =
     (Thrown ShellError,
      \<lparr>echo = False, stdin = [], stdout = [''Mot de passe: ''],
       shell_log = [''stty -echo'', ''stty echo''], paused = False\<rparr>)
   \<and> askPassword (\<lambda>c. True) ''Mot de passe: '' (terminal []) =
     (Pending,
      \<lparr>echo = False, stdin = [], stdout = [''Mot de passe: ''],
       shell_log = [''stty -echo''], paused = False\<rparr>)"
  by (simp add: askPassword_def stty_def write_out_def terminal_def)

section \<open>Properties of the totals\<close>

lemma add_totaux_3:
  "add_totaux [a, b, c] e =
     [number_add a (montantTotal e), number_add b (montantPaye (paiement e)),
      number_add c (montantNonPaye e)]"
  by (simp add: add_totaux_def)

lemma map_lignes_foldl:
  "map_lignes f l totaux es = (map (ligne f l) es, foldl add_totaux totaux es)"
  by (induction es arbitrary: totaux) (simp_all add: Let_def)

lemma foldl_add_totaux:
  "foldl add_totaux [a, b, c] es =
     [foldl number_add a (map montantTotal es),
      foldl number_add b (map (\<lambda>e. montantPaye (paiement e)) es),
      foldl number_add c (map montantNonPaye es)]"
  by (induction es arbitrary: a b c) (simp_all add: add_totaux_3)

lemma foldl_number_add_int:
  "\<bar>a\<bar> + sum_list (map abs ks) \<le> 2 ^ 53 \<Longrightarrow>
   foldl number_add (Finite (of_int a)) (map (\<lambda>k. Finite (of_int k)) ks) =
     Finite (of_int (a + sum_list ks))"
proof (induction ks arbitrary: a)
  case Nil
  then show ?case by simp
next
  case (Cons k ks)
  have "0 \<le> sum_list (map abs ks)" by (rule sum_list_nonneg) auto
  with Cons.prems have 1: "\<bar>a + k\<bar> \<le> 2 ^ 53" by simp
  from Cons.prems have "\<bar>a + k\<bar> + sum_list (map abs ks) \<le> 2 ^ 53" by simp
  from Cons.IH [OF this] number_add_int [OF 1] show ?case by (simp add: add.assoc)
qed


lemma replicate_spaces:
  "replicate 5 (CHR '' '') = ''     ''" "replicate 6 (CHR '' '') = ''      ''"
  "replicate 7 (CHR '' '') = ''       ''" "replicate 8 (CHR '' '') = ''        ''"
  "replicate 9 (CHR '' '') = ''         ''"
  by (simp_all add: numeral_eq_Suc)

text \<open>
  Claim C9, amended. For every list of entries, \<^verbatim>\<open>printEcheances\<close> prints, after the
  heading, the three lines of the totals (total, paid and remaining due), each made of
  two spaces, the label padded to 12 characters, a space, and the text of the total
  with a space and the euro sign, padded on the left to 12 characters.
  The three totals are what one accumulation over the list from left to right gives
  from 0, each step adding \<open>montantTotal\<close>, \<open>paiement.montantPaye\<close> and
  \<open>montantNonPaye\<close> of the entry to the first, second and third total in the
  arithmetic of doubles, where every sum is rounded to the nearest double. When the
  amounts of a field are integers and the sum of their absolute values is at most
  \<open>2 ^ 53\<close>, no sum is rounded and the total is the exact sum of the field.
\<close>

theorem printEcheances_totals:
  "printEcheances toLocaleString toLowerCase echeances =
     (map (ligne toLocaleString toLowerCase) echeances,
      (let total = toLocaleString (foldl number_add (Finite 0) (map montantTotal echeances))
             @ '' '' @ [CHR 0xE2, CHR 0x82, CHR 0xAC];
           paye = toLocaleString
               (foldl number_add (Finite 0) (map (\<lambda>e. montantPaye (paiement e)) echeances))
             @ '' '' @ [CHR 0xE2, CHR 0x82, CHR 0xAC];
           restant = toLocaleString (foldl number_add (Finite 0) (map montantNonPaye echeances))
             @ '' '' @ [CHR 0xE2, CHR 0x82, CHR 0xAC]
       in [CHR 0x0A, CHR 0x1B] @ ''[96m '' @ [CHR 0xF0, CHR 0x9F, CHR 0x92, CHR 0xB0]
          @ '' TOTAUX'' @ [CHR 0x1B] @ ''[0m'' @ [CHR 0x0A, CHR 0x0A]
          @ ''  Total :      '' @ replicate (12 - js_length total) (CHR '' '') @ total
          @ [CHR 0x0A]
          @ ''  Pay'' @ [CHR 0xC3, CHR 0xA9] @ '' :       ''
          @ replicate (12 - js_length paye) (CHR '' '') @ paye @ [CHR 0x0A]
          @ ''  Restant d'' @ [CHR 0xC3, CHR 0xBB] @ '' : ''
          @ replicate (12 - js_length restant) (CHR '' '') @ restant @ [CHR 0x0A]))
   \<and> (map montantTotal echeances = map (\<lambda>k. Finite (of_int k)) totals
        \<and> sum_list (map abs totals) \<le> 2 ^ 53 \<longrightarrow>
      foldl number_add (Finite 0) (map montantTotal echeances) = Finite (of_int (sum_list totals)))
   \<and> (map (\<lambda>e. montantPaye (paiement e)) echeances = map (\<lambda>k. Finite (of_int k)) payes
        \<and> sum_list (map abs payes) \<le> 2 ^ 53 \<longrightarrow>
      foldl number_add (Finite 0) (map (\<lambda>e. montantPaye (paiement e)) echeances) =
        Finite (of_int (sum_list payes)))
   \<and> (map montantNonPaye echeances = map (\<lambda>k. Finite (of_int k)) restants
        \<and> sum_list (map abs restants) \<le> 2 ^ 53 \<longrightarrow>
      foldl number_add (Finite 0) (map montantNonPaye echeances) =
        Finite (of_int (sum_list restants)))"
proof (intro conjI impI)
  show "printEcheances toLocaleString toLowerCase echeances =
     (map (ligne toLocaleString toLowerCase) echeances,
      (let total = toLocaleString (foldl number_add (Finite 0) (map montantTotal echeances))
             @ '' '' @ [CHR 0xE2, CHR 0x82, CHR 0xAC];
           paye = toLocaleString
               (foldl number_add (Finite 0) (map (\<lambda>e. montantPaye (paiement e)) echeances))
             @ '' '' @ [CHR 0xE2, CHR 0x82, CHR 0xAC];
           restant = toLocaleString (foldl number_add (Finite 0) (map montantNonPaye echeances))
             @ '' '' @ [CHR 0xE2, CHR 0x82, CHR 0xAC]
       in [CHR 0x0A, CHR 0x1B] @ ''[96m '' @ [CHR 0xF0, CHR 0x9F, CHR 0x92, CHR 0xB0]
          @ '' TOTAUX'' @ [CHR 0x1B] @ ''[0m'' @ [CHR 0x0A, CHR 0x0A]
          @ ''  Total :      '' @ replicate (12 - js_length total) (CHR '' '') @ total
          @ [CHR 0x0A]
          @ ''  Pay'' @ [CHR 0xC3, CHR 0xA9] @ '' :       ''
          @ replicate (12 - js_length paye) (CHR '' '') @ paye @ [CHR 0x0A]
          @ ''  Restant d'' @ [CHR 0xC3, CHR 0xBB] @ '' : ''
          @ replicate (12 - js_length restant) (CHR '' '') @ restant @ [CHR 0x0A]))"
    by (simp add: printEcheances_def map_lignes_foldl foldl_add_totaux totaux_text_def
        total_line_def formatEuro_def padEnd_def padStart_def js_length_def Let_def
        replicate_spaces)
next
  assume "map montantTotal echeances = map (\<lambda>k. Finite (of_int k)) totals
        \<and> sum_list (map abs totals) \<le> 2 ^ 53"
  with foldl_number_add_int [of 0 totals]
  show "foldl number_add (Finite 0) (map montantTotal echeances) = Finite (of_int (sum_list totals))"
    by simp
next
  assume "map (\<lambda>e. montantPaye (paiement e)) echeances = map (\<lambda>k. Finite (of_int k)) payes
        \<and> sum_list (map abs payes) \<le> 2 ^ 53"
  with foldl_number_add_int [of 0 payes]
  show "foldl number_add (Finite 0) (map (\<lambda>e. montantPaye (paiement e)) echeances) =
        Finite (of_int (sum_list payes))"
    by simp
next
  assume "map montantNonPaye echeances = map (\<lambda>k. Finite (of_int k)) restants
        \<and> sum_list (map abs restants) \<le> 2 ^ 53"
  with foldl_number_add_int [of 0 restants]
  show "foldl number_add (Finite 0) (map montantNonPaye echeances) =
        Finite (of_int (sum_list restants))"
    by simp
qed

theorem printEcheances_totals_witness:
  "foldl number_add (Finite 0) (map montantTotal two_entries) = Finite 350
   \<and> foldl number_add (Finite 0) (map (\<lambda>e. montantPaye (paiement e)) two_entries) = Finite 60
   \<and> foldl number_add (Finite 0) (map montantNonPaye two_entries) = Finite 290
   \<and> snd (printEcheances integer_text (\<lambda>s. s) two_entries) =
      [CHR 0x0A, CHR 0x1B] @ ''[96m '' @ [CHR 0xF0, CHR 0x9F, CHR 0x92, CHR 0xB0]
      @ '' TOTAUX'' @ [CHR 0x1B] @ ''[0m'' @ [CHR 0x0A, CHR 0x0A]
      @ ''  Total :             350 '' @ [CHR 0xE2, CHR 0x82, CHR 0xAC, CHR 0x0A]
      @ ''  Pay'' @ [CHR 0xC3, CHR 0xA9] @ '' :               60 '' @ [CHR 0xE2, CHR 0x82, CHR 0xAC, CHR 0x0A]
      @ ''  Restant d'' @ [CHR 0xC3, CHR 0xBB] @ '' :        290 '' @ [CHR 0xE2, CHR 0x82, CHR 0xAC, CHR 0x0A]"
proof -
  note th = printEcheances_totals [of integer_text "\<lambda>s. s" two_entries "[100, 250]" "[60, 0]" "[40, 250]"]
  from th have "map montantTotal two_entries = map (\<lambda>k. Finite (of_int k)) [100, 250]
        \<and> sum_list (map abs [100, 250 :: int]) \<le> 2 ^ 53 \<longrightarrow>
      foldl number_add (Finite 0) (map montantTotal two_entries) = Finite (of_int (sum_list [100, 250]))"
    by blast
  then have 1: "foldl number_add (Finite 0) (map montantTotal two_entries) = Finite 350"
    by (simp add: two_entries_def)
  from th have "map (\<lambda>e. montantPaye (paiement e)) two_entries = map (\<lambda>k. Finite (of_int k)) [60, 0]
        \<and> sum_list (map abs [60, 0 :: int]) \<le> 2 ^ 53 \<longrightarrow>
      foldl number_add (Finite 0) (map (\<lambda>e. montantPaye (paiement e)) two_entries) =
        Finite (of_int (sum_list [60, 0]))"
    by blast
  then have 2: "foldl number_add (Finite 0) (map (\<lambda>e. montantPaye (paiement e)) two_entries) = Finite 60"
    by (simp add: two_entries_def)
  from th have "map montantNonPaye two_entries = map (\<lambda>k. Finite (of_int k)) [40, 250]
        \<and> sum_list (map abs [40, 250 :: int]) \<le> 2 ^ 53 \<longrightarrow>
      foldl number_add (Finite 0) (map montantNonPaye two_entries) =
        Finite (of_int (sum_list [40, 250]))"
    by blast
  then have 3: "foldl number_add (Finite 0) (map montantNonPaye two_entries) = Finite 290"
    by (simp add: two_entries_def)
  from th have "printEcheances integer_text (\<lambda>s. s) two_entries =
     (map (ligne integer_text (\<lambda>s. s)) two_entries,
      (let total = integer_text (foldl number_add (Finite 0) (map montantTotal two_entries))
             @ '' '' @ [CHR 0xE2, CHR 0x82, CHR 0xAC];
           paye = integer_text
               (foldl number_add (Finite 0) (map (\<lambda>e. montantPaye (paiement e)) two_entries))
             @ '' '' @ [CHR 0xE2, CHR 0x82, CHR 0xAC];
           restant = integer_text (foldl number_add (Finite 0) (map montantNonPaye two_entries))
             @ '' '' @ [CHR 0xE2, CHR 0x82, CHR 0xAC]
       in [CHR 0x0A, CHR 0x1B] @ ''[96m '' @ [CHR 0xF0, CHR 0x9F, CHR 0x92, CHR 0xB0]
          @ '' TOTAUX'' @ [CHR 0x1B] @ ''[0m'' @ [CHR 0x0A, CHR 0x0A]
          @ ''  Total :      '' @ replicate (12 - js_length total) (CHR '' '') @ total
          @ [CHR 0x0A]
          @ ''  Pay'' @ [CHR 0xC3, CHR 0xA9] @ '' :       ''
          @ replicate (12 - js_length paye) (CHR '' '') @ paye @ [CHR 0x0A]
          @ ''  Restant d'' @ [CHR 0xC3, CHR 0xBB] @ '' : ''
          @ replicate (12 - js_length restant) (CHR '' '') @ restant @ [CHR 0x0A]))"
    by blast
  then have 4: "snd (printEcheances integer_text (\<lambda>s. s) two_entries) =
      [CHR 0x0A, CHR 0x1B] @ ''[96m '' @ [CHR 0xF0, CHR 0x9F, CHR 0x92, CHR 0xB0]
      @ '' TOTAUX'' @ [CHR 0x1B] @ ''[0m'' @ [CHR 0x0A, CHR 0x0A]
      @ ''  Total :             350 '' @ [CHR 0xE2, CHR 0x82, CHR 0xAC, CHR 0x0A]
      @ ''  Pay'' @ [CHR 0xC3, CHR 0xA9] @ '' :               60 '' @ [CHR 0xE2, CHR 0x82, CHR 0xAC, CHR 0x0A]
      @ ''  Restant d'' @ [CHR 0xC3, CHR 0xBB] @ '' :        290 '' @ [CHR 0xE2, CHR 0x82, CHR 0xAC, CHR 0x0A]"
    by (simp add: 1 2 3 integer_text_def js_length_def Let_def replicate_spaces)
  from 1 2 3 4 show ?thesis by blast
qed

text \<open>
  The claim as stated (the printed totals are the exact sums, for every list) fails when
  a sum is rounded: for two entries of \<open>2 ^ 53\<close> and 1 the exact sum is \<open>2 ^ 53 + 1\<close>,
  which is not a double, and the total printed is \<open>2 ^ 53\<close>.
\<close>

theorem printEcheances_rounding_counterexample:
  "map montantTotal large_entries = [Finite (2 ^ 53), Finite 1]
   \<and> (2 ^ 53 + 1 :: rat) \<noteq> 2 ^ 53
   \<and> foldl number_add (Finite 0) (map montantTotal large_entries) = Finite (2 ^ 53)
   \<and> snd (printEcheances integer_text (\<lambda>s. s) large_entries) =
      [CHR 0x0A, CHR 0x1B] @ ''[96m '' @ [CHR 0xF0, CHR 0x9F, CHR 0x92, CHR 0xB0]
      @ '' TOTAUX'' @ [CHR 0x1B] @ ''[0m'' @ [CHR 0x0A, CHR 0x0A]
      @ ''  Total :      9007199254740992 '' @ [CHR 0xE2, CHR 0x82, CHR 0xAC, CHR 0x0A]
      @ ''  Pay'' @ [CHR 0xC3, CHR 0xA9] @ '' :                0 '' @ [CHR 0xE2, CHR 0x82, CHR 0xAC, CHR 0x0A]
      @ ''  Restant d'' @ [CHR 0xC3, CHR 0xBB] @ '' : 9007199254740992 '' @ [CHR 0xE2, CHR 0x82, CHR 0xAC, CHR 0x0A]"
proof -
  have a: "number_add (Finite 0) (Finite (2 ^ 53)) = Finite (2 ^ 53)"
    using nearest_double_int [of "2 ^ 53"] by (simp add: number_add_def)
  have b: "number_add (Finite (2 ^ 53)) (Finite 1) = Finite (2 ^ 53)"
    using nearest_double_tie by (simp add: number_add_def)
  have c: "number_add (Finite 0) (Finite 0) = Finite 0"
    by (simp add: number_add_def nearest_double_def)
  have 1: "foldl number_add (Finite 0) (map montantTotal large_entries) = Finite (2 ^ 53)"
    using a b by (simp add: large_entries_def)
  have 2: "foldl add_totaux [Finite 0, Finite 0, Finite 0] large_entries =
      [Finite (2 ^ 53), Finite 0, Finite (2 ^ 53)]"
    using a b c by (simp add: large_entries_def add_totaux_3)
  have 3: "snd (printEcheances integer_text (\<lambda>s. s) large_entries) =
      [CHR 0x0A, CHR 0x1B] @ ''[96m '' @ [CHR 0xF0, CHR 0x9F, CHR 0x92, CHR 0xB0]
      @ '' TOTAUX'' @ [CHR 0x1B] @ ''[0m'' @ [CHR 0x0A, CHR 0x0A]
      @ ''  Total :      9007199254740992 '' @ [CHR 0xE2, CHR 0x82, CHR 0xAC, CHR 0x0A]
      @ ''  Pay'' @ [CHR 0xC3, CHR 0xA9] @ '' :                0 '' @ [CHR 0xE2, CHR 0x82, CHR 0xAC, CHR 0x0A]
      @ ''  Restant d'' @ [CHR 0xC3, CHR 0xBB] @ '' : 9007199254740992 '' @ [CHR 0xE2, CHR 0x82, CHR 0xAC, CHR 0x0A]"
    by (simp add: printEcheances_def map_lignes_foldl 2 totaux_text_def total_line_def
        formatEuro_def padEnd_def padStart_def js_length_def integer_text_def replicate_spaces)
  from 1 3 show ?thesis by (simp add: large_entries_def)
qed

section \<open>Properties of Base64\<close>

lemma byte_lt: "unat (a :: byte) < 256"
  using unsigned_less [of a] by simp

lemma div_bound: "(x::nat) < i * n \<Longrightarrow> x div n < i"
  by (rule less_mult_imp_div_less)

lemma byte_div4: "unat (a :: byte) div 4 < 64"
  by (rule div_bound) (use byte_lt [of a] in simp)

lemma byte_div16: "unat (a :: byte) div 16 < 16"
  by (rule div_bound) (use byte_lt [of a] in simp)

lemma byte_div64: "unat (a :: byte) div 64 < 4"
  by (rule div_bound) (use byte_lt [of a] in simp)

lemma digit2: "(unat (a :: byte) mod 4) * 16 + unat (b :: byte) div 16 < 64"
proof -
  have "unat a mod 4 < 4" by simp
  then have "(unat a mod 4) * 16 \<le> 48" by simp
  with byte_div16 [of b] show ?thesis by simp
qed

lemma digit3: "(unat (b :: byte) mod 16) * 4 + unat (c :: byte) div 64 < 64"
proof -
  have "unat b mod 16 < 16" by simp
  then have "(unat b mod 16) * 4 \<le> 60" by simp
  with byte_div64 [of c] show ?thesis by simp
qed

lemma digit3': "(unat (b :: byte) mod 16) * 4 < 64"
proof -
  have "unat b mod 16 < 16" by simp
  then show ?thesis by simp
qed

lemma digit2': "(unat (a :: byte) mod 4) * 16 < 64"
proof -
  have "unat a mod 4 < 4" by simp
  then show ?thesis by simp
qed

lemma sextets_lt_64: "x \<in> set (sextets b) \<Longrightarrow> x < 64"
  by (induction b arbitrary: x rule: sextets.induct)
     (auto simp: byte_div4 digit2 digit3 digit2' digit3')

lemma div_add_low: "y < k \<Longrightarrow> (m * k + y) div k = (m::nat)"
  by simp

lemma mod_add_low: "y < k \<Longrightarrow> (m * k + y) mod k = (y::nat)"
  by simp

lemma first_byte:
  fixes a :: byte
  assumes "y < 16"
  shows "(of_nat (unat a div 4 * 4 + ((unat a mod 4) * 16 + y) div 16) :: byte) = a"
proof -
  have "((unat a mod 4) * 16 + y) div 16 = unat a mod 4"
    using assms by (rule div_add_low)
  then have "unat a div 4 * 4 + ((unat a mod 4) * 16 + y) div 16 = unat a"
    by simp
  then show ?thesis by simp
qed

lemma second_byte:
  fixes b :: byte
  assumes "y < 4"
  shows "(of_nat (((x * 16 + unat b div 16) mod 16) * 16 + ((unat b mod 16) * 4 + y) div 4) :: byte) = b"
proof -
  have "(x * 16 + unat b div 16) mod 16 = unat b div 16"
    using byte_div16 [of b] by (rule mod_add_low)
  moreover have "((unat b mod 16) * 4 + y) div 4 = unat b mod 16"
    using assms by (rule div_add_low)
  ultimately have "((x * 16 + unat b div 16) mod 16) * 16 + ((unat b mod 16) * 4 + y) div 4 = unat b"
    by simp
  then show ?thesis by simp
qed

lemma third_byte:
  fixes c :: byte
  shows "(of_nat (((x * 4 + unat c div 64) mod 4) * 64 + unat c mod 64) :: byte) = c"
proof -
  have "(x * 4 + unat c div 64) mod 4 = unat c div 64"
    using byte_div64 [of c] by (rule mod_add_low)
  then have "((x * 4 + unat c div 64) mod 4) * 64 + unat c mod 64 = unat c"
    by simp
  then show ?thesis by simp
qed

lemma unsextets_sextets: "unsextets (sextets b) = b"
proof (induction b rule: sextets.induct)
  case (1 a b c r)
  have 1: "(of_nat (unat a div 4 * 4 + ((unat a mod 4) * 16 + unat b div 16) div 16) :: byte) = a"
    by (rule first_byte) (rule byte_div16)
  have 2: "(of_nat ((((unat a mod 4) * 16 + unat b div 16) mod 16) * 16
             + ((unat b mod 16) * 4 + unat c div 64) div 4) :: byte) = b"
    by (rule second_byte) (rule byte_div64)
  have 3: "(of_nat ((((unat b mod 16) * 4 + unat c div 64) mod 4) * 64 + unat c mod 64) :: byte) = c"
    by (rule third_byte)
  show ?case using 1 2 3 "1.IH" by simp
next
  case (2 a b)
  have 1: "(of_nat (unat a div 4 * 4 + ((unat a mod 4) * 16 + unat b div 16) div 16) :: byte) = a"
    by (rule first_byte) (rule byte_div16)
  have 2: "(of_nat ((((unat a mod 4) * 16 + unat b div 16) mod 16) * 16
             + ((unat b mod 16) * 4 + 0) div 4) :: byte) = b"
    by (rule second_byte) simp
  show ?case using 1 2 by simp
next
  case (3 a)
  have 1: "(of_nat (unat a div 4 * 4 + ((unat a mod 4) * 16 + 0) div 16) :: byte) = a"
    by (rule first_byte) simp
  show ?case using 1 by simp
next
  case 4
  show ?case by simp
qed

lemma b64_digit_std: "i < 64 \<Longrightarrow> b64_digit (b64_alphabet ! i) = Some i"
proof -
  have "\<forall>i<64. b64_digit (b64_alphabet ! i) = Some i"
    by (simp add: b64_digit_def b64_alphabet_def All_less_Suc numeral_eq_Suc less_Suc_eq)
  then show "i < 64 \<Longrightarrow> b64_digit (b64_alphabet ! i) = Some i" by blast
qed

lemma b64_digit_url: "i < 64 \<Longrightarrow> b64_digit (b64url_alphabet ! i) = Some i"
proof -
  have "\<forall>i<64. b64_digit (b64url_alphabet ! i) = Some i"
    by (simp add: b64_digit_def b64url_alphabet_def All_less_Suc numeral_eq_Suc less_Suc_eq)
  then show "i < 64 \<Longrightarrow> b64_digit (b64url_alphabet ! i) = Some i" by blast
qed

lemma map_filter_digits:
  assumes "\<And>i. i < 64 \<Longrightarrow> b64_digit (al ! i) = Some i" and "\<forall>x\<in>set xs. x < 64"
  shows "List.map_filter b64_digit (map (\<lambda>i. al ! i) xs) = xs"
  using assms(2) by (induction xs) (simp_all add: List.map_filter_simps assms(1))

lemma digit_not_special:
  assumes "b64_digit c = Some i"
  shows "c \<noteq> CHR ''='' \<and> c \<noteq> CHR ''%''"
  using assms by (auto simp: b64_digit_def Let_def split: if_splits)

lemma digits_not_pad:
  assumes "\<And>i. i < 64 \<Longrightarrow> b64_digit (al ! i) = Some i" and "\<forall>x\<in>set xs. x < 64"
    and "c \<in> set (map (\<lambda>i. al ! i) xs)"
  shows "c \<noteq> CHR ''=''"
proof -
  from assms(3) obtain x where "x \<in> set xs" "c = al ! x" by auto
  with assms(1,2) have "b64_digit c = Some x" by simp
  then show ?thesis using digit_not_special by blast
qed

lemma takeWhile_digits:
  assumes "\<And>i. i < 64 \<Longrightarrow> b64_digit (al ! i) = Some i" and "\<forall>x\<in>set xs. x < 64"
  shows "takeWhile (\<lambda>c. c \<noteq> CHR ''='') (map (\<lambda>i. al ! i) xs @ replicate k (CHR ''='')) =
         map (\<lambda>i. al ! i) xs"
proof -
  have "takeWhile (\<lambda>c. c \<noteq> CHR ''='') (map (\<lambda>i. al ! i) xs @ replicate k (CHR ''='')) =
      map (\<lambda>i. al ! i) xs @ takeWhile (\<lambda>c. c \<noteq> CHR ''='') (replicate k (CHR ''=''))"
    by (rule takeWhile_append2) (rule digits_not_pad [OF assms])
  also have "takeWhile (\<lambda>c. c \<noteq> CHR ''='') (replicate k (CHR ''='')) = []"
    by (cases k) simp_all
  finally show ?thesis by simp
qed

lemma digits_of_encoding:
  assumes "\<And>i. i < 64 \<Longrightarrow> b64_digit (al ! i) = Some i"
  shows "List.map_filter b64_digit
           (takeWhile (\<lambda>c. c \<noteq> CHR ''='')
              (map (\<lambda>i. al ! i) (sextets b) @ replicate k (CHR ''=''))) = sextets b"
proof -
  have lt: "\<forall>x\<in>set (sextets b). x < 64"
    using sextets_lt_64 by blast
  show ?thesis
    using takeWhile_digits [OF assms lt, of k] map_filter_digits [OF assms lt]
    by simp
qed

lemma Buffer_from_base64_base64: "Buffer_from_base64 (base64 b) = b"
  unfolding Buffer_from_base64_def base64_def
  by (simp only: digits_of_encoding [OF b64_digit_std] unsextets_sextets)

lemma Buffer_from_base64_b64url: "Buffer_from_base64 (b64url b) = b"
proof -
  have "b64url b = map (\<lambda>i. b64url_alphabet ! i) (sextets b) @ replicate 0 (CHR ''='')"
    by (simp add: b64url_def)
  then show ?thesis
    unfolding Buffer_from_base64_def
    by (simp only: digits_of_encoding [OF b64_digit_url] unsextets_sextets)
qed

lemma b64url_inj: "b64url x = b64url y \<longleftrightarrow> x = y"
  using Buffer_from_base64_b64url by metis

lemma base64_no_percent: "CHR ''%'' \<notin> set (base64 b)"
proof -
  have "\<forall>x\<in>set (sextets b). b64_alphabet ! x \<noteq> CHR ''%''"
    using sextets_lt_64 [of _ b] b64_digit_std digit_not_special by blast
  then show ?thesis by (auto simp: base64_def)
qed

lemma base64_eq_Nil: "base64 b = [] \<longleftrightarrow> b = []"
  by (cases b rule: sextets.cases) (simp_all add: base64_def)

section \<open>Properties of the handshake of mon.urssaf.fr\<close>

lemma pkce_samples_eq:
  "pkce_samples g = (map g [0..<32], map (\<lambda>i. g (i + 32)) [0..<32], map (\<lambda>i. g (i + 64)) [0..<32])"
  by (simp add: pkce_samples_def randomBytes_def add.assoc)

lemma oidc_exchange_log:
  assumes "oidc_exchange P g res cpt clientId tr = (r, tr')"
    and "pkce_samples g = (r1, r2, r3)"
  shows "tr' = tr \<and> (\<exists>e. r = Inl e)
    \<or> (\<exists>tokenBds a. tr' = tr @
          [(authorize_request (to_param P clientId) (b64url r2 @ ''-0000000000-webti'')
              (b64url (sha256 P (b64url r1))) (b64url r3) tokenBds, a)]
        \<and> (\<exists>e. r = Inl e))
    \<or> (\<exists>tokenBds authRes code t. tr' = tr @
          [(authorize_request (to_param P clientId) (b64url r2 @ ''-0000000000-webti'')
              (b64url (sha256 P (b64url r1))) (b64url r3) tokenBds, Some authRes),
           (token_request (string_or_null code) (b64url r1) (to_param P clientId), t)]
        \<and> search_param P authRes ''code'' = Inr code
        \<and> (\<forall>x. r = Inr x \<longrightarrow> compte x = cpt \<and> t \<noteq> None))"
  using assms
  unfolding oidc_exchange_def pkce_samples_def do_fetch_def
  by (auto simp: Let_def split: prod.splits sum.splits option.splits)

lemma urssaf_login_log:
  assumes "urssaf_login P g s identifiant pw = (r, s', tr)"
    and "pkce_samples g = (r1, r2, r3)"
  shows "length tr \<le> 2 \<and> (\<exists>e. r = Inl e)
    \<or> (\<exists>x1 x2 clientId tokenBds a. tr =
          [x1, x2,
           (authorize_request clientId (b64url r2 @ ''-0000000000-webti'')
              (b64url (sha256 P (b64url r1))) (b64url r3) tokenBds, a)]
        \<and> (\<exists>e. r = Inl e))
    \<or> (\<exists>x1 x2 clientId tokenBds authRes code t. tr =
          [x1, x2,
           (authorize_request clientId (b64url r2 @ ''-0000000000-webti'')
              (b64url (sha256 P (b64url r1))) (b64url r3) tokenBds, Some authRes),
           (token_request (string_or_null code) (b64url r1) clientId, t)]
        \<and> search_param P authRes ''code'' = Inr code
        \<and> (\<forall>x. r = Inr x \<longrightarrow> s' = s \<and> t \<noteq> None))"
proof (cases "\<exists>res cpt cfg clientId. fetch P [] (cnx_request identifiant pw) = Some res
    \<and> truthy (parseCookies P res ''ctxUrssaf'')
    \<and> decode_compte P (string_or_empty (parseCookies P res ''ctxUrssaf'')) = Inr cpt
    \<and> fetch P [(cnx_request identifiant pw, Some res)] config_request = Some cfg
    \<and> clientId_of P cfg = Inr clientId")
  case True
  then obtain res cpt cfg clientId where h:
    "fetch P [] (cnx_request identifiant pw) = Some res"
    "truthy (parseCookies P res ''ctxUrssaf'')"
    "decode_compte P (string_or_empty (parseCookies P res ''ctxUrssaf'')) = Inr cpt"
    "fetch P [(cnx_request identifiant pw, Some res)] config_request = Some cfg"
    "clientId_of P cfg = Inr clientId"
    by blast
  let ?tr2 = "[(cnx_request identifiant pw, Some res), (config_request, Some cfg)]"
  from assms(1) h have o: "oidc_exchange P g res cpt clientId ?tr2 = (r, tr)" and s: "s' = s"
    by (auto simp: urssaf_login_def do_fetch_def split: prod.splits)
  from oidc_exchange_log [OF o assms(2)] show ?thesis
  proof (elim disjE exE conjE)
    fix e assume "tr = ?tr2" "r = Inl e"
    then show ?thesis by simp
  next
    fix tokenBds a e
    assume "tr = ?tr2 @
          [(authorize_request (to_param P clientId) (b64url r2 @ ''-0000000000-webti'')
              (b64url (sha256 P (b64url r1))) (b64url r3) tokenBds, a)]" "r = Inl e"
    then have "\<exists>x1 x2 clientId tokenBds a. tr =
          [x1, x2,
           (authorize_request clientId (b64url r2 @ ''-0000000000-webti'')
              (b64url (sha256 P (b64url r1))) (b64url r3) tokenBds, a)]
        \<and> (\<exists>e. r = Inl e)"
      by (intro exI [of _ "(cnx_request identifiant pw, Some res)"]
          exI [of _ "(config_request, Some cfg)"] exI [of _ "to_param P clientId"]
          exI [of _ tokenBds] exI [of _ a]) simp
    then show ?thesis by blast
  next
    fix tokenBds authRes code t
    assume "tr = ?tr2 @
          [(authorize_request (to_param P clientId) (b64url r2 @ ''-0000000000-webti'')
              (b64url (sha256 P (b64url r1))) (b64url r3) tokenBds, Some authRes),
           (token_request (string_or_null code) (b64url r1) (to_param P clientId), t)]"
      "search_param P authRes ''code'' = Inr code"
      "\<forall>x. r = Inr x \<longrightarrow> compte x = cpt \<and> t \<noteq> None"
    then have "\<exists>x1 x2 clientId tokenBds authRes code t. tr =
          [x1, x2,
           (authorize_request clientId (b64url r2 @ ''-0000000000-webti'')
              (b64url (sha256 P (b64url r1))) (b64url r3) tokenBds, Some authRes),
           (token_request (string_or_null code) (b64url r1) clientId, t)]
        \<and> search_param P authRes ''code'' = Inr code
        \<and> (\<forall>x. r = Inr x \<longrightarrow> s' = s \<and> t \<noteq> None)"
      using s
      by (intro exI [of _ "(cnx_request identifiant pw, Some res)"]
          exI [of _ "(config_request, Some cfg)"] exI [of _ "to_param P clientId"]
          exI [of _ tokenBds] exI [of _ authRes] exI [of _ code] exI [of _ t]) simp
    then show ?thesis by blast
  qed
next
  case False
  with assms(1) have "length tr \<le> 2 \<and> (\<exists>e. r = Inl e)"
    by (auto simp: urssaf_login_def do_fetch_def Let_def
        split: prod.splits option.splits sum.splits if_splits)
  then show ?thesis by blast
qed

lemma char_of_byte: "char_of (unat (of_char c :: byte)) = c"
proof -
  have "(of_char c :: nat) < 256" by simp
  then have "unat (of_nat (of_char c) :: byte) = of_char c"
    by (simp add: unat_of_nat)
  then have "unat (of_char c :: byte) = of_char c"
    by (simp only: of_nat_of_char)
  then show ?thesis by simp
qed

lemma decode_compte_base64:
  assumes "JSON_parse P (Buffer_toString P bs) = Some doc"
  shows "decode_compte P (base64 bs) = prop_of (Some doc) ''compte''"
  using assms
  by (simp add: decode_compte_def decodeURIComponent_def base64_no_percent
      Buffer_from_base64_base64)

lemma oidc_exchange_compte:
  "oidc_exchange P g res cpt clientId tr = (Inr r, tr') \<Longrightarrow> compte r = cpt"
  unfolding oidc_exchange_def do_fetch_def
  by (auto simp: Let_def split: prod.splits sum.splits option.splits)

lemma urssaf_login_compte:
  assumes "urssaf_login P g s identifiant pw = (Inr r, s', tr)"
    and "fetch P [] (cnx_request identifiant pw) = Some res"
  shows "decode_compte P (string_or_empty (parseCookies P res ''ctxUrssaf'')) = Inr (compte r)"
  using assms
  by (auto simp: urssaf_login_def do_fetch_def Let_def dest: oidc_exchange_compte
      split: prod.splits option.splits sum.splits if_splits)

lemma portal_parse_compte:
  "JSON_parse portal (Buffer_toString portal compte_bytes) = Some (JObj [(''compte'', compte_doc)])"
  by (simp add: portal_def compte_bytes_def char_of_byte comp_def)

lemma compte_bytes_ne: "compte_bytes \<noteq> []"
  by (simp add: compte_bytes_def compte_text_def)

lemma texts_differ: "config_text \<noteq> compte_text" "token_text \<noteq> compte_text" "token_text \<noteq> config_text"
  by (simp_all add: config_text_def compte_text_def token_text_def quoted_def)

lemma portal_run:
  assumes "pkce_samples g = (r1, r2, r3)"
  shows "urssaf_login portal g s ''12345678900011'' ''secret'' =
     (Inr \<lparr>compte = Some compte_doc, access_token = Some (JStr ''at'')\<rparr>, s,
      [(cnx_request ''12345678900011'' ''secret'', Some cnx_accepted),
       (config_request, Some (page config_text)),
       (authorize_request ''webti'' (b64url r2 @ ''-0000000000-webti'')
          (b64url [0x2c, 0xf2, 0x4d]) (b64url r3) ''tok'',
        Some (redirect_to ''https://webti.urssaf.fr/callback?code=abc'')),
       (token_request ''abc'' (b64url r1) ''webti'', Some (page token_text))])"
proof -
  have f1: "fetch portal [] (cnx_request ''12345678900011'' ''secret'') = Some cnx_accepted"
    by (simp add: portal_def cnx_request_def)
  have c: "parseCookies portal cnx_accepted ''ctxUrssaf'' = Some (base64 compte_bytes)"
    by (simp add: portal_def parseCookies_def cnx_accepted_def)
  have d: "decode_compte portal (base64 compte_bytes) = Inr (Some compte_doc)"
    using decode_compte_base64 [OF portal_parse_compte] by simp
  have f2: "\<And>tr. fetch portal tr config_request = Some (page config_text)"
    by (simp add: portal_def config_request_def)
  have ci: "clientId_of portal (page config_text) = Inr (Some (JStr ''webti''))"
    by (simp add: clientId_of_def portal_def page_def texts_differ)
  have sp: "search_param portal cnx_accepted ''tokenBds'' = Inr (Some ''tok'')"
    by (simp add: search_param_def portal_def cnx_accepted_def)
  have f3: "\<And>tr a b c d e. fetch portal tr (authorize_request a b c d e) =
      Some (redirect_to ''https://webti.urssaf.fr/callback?code=abc'')"
    by (simp add: portal_def authorize_request_def)
  have sc: "search_param portal (redirect_to ''https://webti.urssaf.fr/callback?code=abc'') ''code''
      = Inr (Some ''abc'')"
    by (simp add: search_param_def portal_def redirect_to_def)
  have f4: "\<And>tr a b c. fetch portal tr (token_request a b c) = Some (page token_text)"
    by (simp add: portal_def token_request_def)
  have tk: "JSON_parse portal (body (page token_text)) = Some (JObj [(''access_token'', JStr ''at'')])"
    by (simp add: portal_def page_def texts_differ)
  have sh: "\<And>x. sha256 portal x = [0x2c, 0xf2, 0x4d]"
    by (simp add: portal_def)
  obtain g1 where a1: "randomBytes 32 g = (r1, g1)"
    using assms by (auto simp: pkce_samples_def split: prod.splits)
  obtain g2 where a2: "randomBytes 32 g1 = (r2, g2)"
    using assms a1 by (auto simp: pkce_samples_def split: prod.splits)
  obtain g3 where a3: "randomBytes 32 g2 = (r3, g3)"
    using assms a1 a2 by (auto simp: pkce_samples_def split: prod.splits)
  have o: "oidc_exchange portal g cnx_accepted (Some compte_doc) (Some (JStr ''webti''))
      [(cnx_request ''12345678900011'' ''secret'', Some cnx_accepted),
       (config_request, Some (page config_text))] =
     (Inr \<lparr>compte = Some compte_doc, access_token = Some (JStr ''at'')\<rparr>,
      [(cnx_request ''12345678900011'' ''secret'', Some cnx_accepted),
       (config_request, Some (page config_text)),
       (authorize_request ''webti'' (b64url r2 @ ''-0000000000-webti'')
          (b64url [0x2c, 0xf2, 0x4d]) (b64url r3) ''tok'',
        Some (redirect_to ''https://webti.urssaf.fr/callback?code=abc'')),
       (token_request ''abc'' (b64url r1) ''webti'', Some (page token_text))])"
    unfolding oidc_exchange_def
    by (simp add: a1 a2 a3 sp do_fetch_def f3 f4 sc tk sh)
  show ?thesis
    unfolding urssaf_login_def
    using compte_bytes_ne
    by (simp add: do_fetch_def f1 c d f2 ci o base64_eq_Nil)
qed

lemma counting_samples:
  "pkce_samples (\<lambda>i. of_nat i) = (map of_nat [0..<32], map of_nat [32..<64], map of_nat [64..<96])"
  unfolding pkce_samples_eq by (simp add: upt_rec)

lemma zero_samples:
  "pkce_samples (\<lambda>i. 0) =
     (map (\<lambda>i. 0) [0..<32], map (\<lambda>i. 0) [0..<32], map (\<lambda>i. 0) [0..<32])"
  unfolding pkce_samples_eq by (rule refl)

text \<open>
  Claim C5. In every handshake \<^verbatim>\<open>codeVerifier\<close> is the base64url text of the first 32
  bytes drawn from the random source. Whenever the authorization request is sent, its
  \<open>code_challenge\<close> is the base64url text of the SHA-256 of \<^verbatim>\<open>codeVerifier\<close> and its
  \<open>code_challenge_method\<close> is \<open>S256\<close>. Whenever the token request is sent, its
  \<open>code_verifier\<close> is that same \<^verbatim>\<open>codeVerifier\<close>, its \<open>grant_type\<close> is
  \<open>authorization_code\<close> and its \<open>code\<close> is the parameter \<open>code\<close> of the \<open>Location\<close> of
  the answer to the authorization request. A handshake that returns a result has made
  the four requests.
\<close>

theorem pkce_binding:
  assumes "urssaf_login P g s identifiant pw = (r, s', tr)"
  shows "length (fst (randomBytes 32 g)) = 32
   \<and> (2 < length tr \<longrightarrow>
        url (fst (tr ! 2)) = ''https://login.urssaf.fr/api/oauth/v1/authorize''
        \<and> sent_query tr 2 ''code_challenge'' =
            Some (b64url (sha256 P (b64url (fst (randomBytes 32 g)))))
        \<and> sent_query tr 2 ''code_challenge_method'' = Some ''S256'')
   \<and> (3 < length tr \<longrightarrow>
        url (fst (tr ! 3)) = ''https://login.urssaf.fr/api/oauth/v1/token''
        \<and> sent_form tr 3 ''code_verifier'' = Some (b64url (fst (randomBytes 32 g)))
        \<and> sent_form tr 3 ''grant_type'' = Some ''authorization_code''
        \<and> (\<exists>authRes code. snd (tr ! 2) = Some authRes
              \<and> search_param P authRes ''code'' = Inr code
              \<and> sent_form tr 3 ''code'' = Some (string_or_null code)))
   \<and> ((\<exists>x. r = Inr x) \<longrightarrow> length tr = 4)"
proof -
  obtain r1 r2 r3 where p: "pkce_samples g = (r1, r2, r3)"
    by (cases "pkce_samples g") auto
  then have r1: "fst (randomBytes 32 g) = r1"
    by (simp add: pkce_samples_eq randomBytes_def)
  have l: "length (fst (randomBytes 32 g)) = 32"
    by (simp add: randomBytes_def)
  from urssaf_login_log [OF assms p] show ?thesis
  proof (elim disjE exE conjE)
    fix e assume "length tr \<le> 2" "r = Inl e"
    then show ?thesis using l by simp
  next
    fix x1 x2 clientId tokenBds a e
    assume "tr = [x1, x2,
           (authorize_request clientId (b64url r2 @ ''-0000000000-webti'')
              (b64url (sha256 P (b64url r1))) (b64url r3) tokenBds, a)]" "r = Inl e"
    then show ?thesis using l r1
      by (simp add: sent_query_def authorize_request_def)
  next
    fix x1 x2 clientId tokenBds authRes code t
    assume "tr = [x1, x2,
           (authorize_request clientId (b64url r2 @ ''-0000000000-webti'')
              (b64url (sha256 P (b64url r1))) (b64url r3) tokenBds, Some authRes),
           (token_request (string_or_null code) (b64url r1) clientId, t)]"
      "search_param P authRes ''code'' = Inr code"
    then show ?thesis using l r1
      by (simp add: sent_query_def sent_form_def authorize_request_def token_request_def)
  qed
qed

theorem pkce_binding_witness:
  "sent_query (snd (snd (urssaf_login portal (\<lambda>i. of_nat i) Map.empty ''12345678900011'' ''secret'')))
      2 ''code_challenge'' =
     Some (b64url (sha256 portal ''AAECAwQFBgcICQoLDA0ODxAREhMUFRYXGBkaGxwdHh8''))
   \<and> sent_query (snd (snd (urssaf_login portal (\<lambda>i. of_nat i) Map.empty ''12345678900011'' ''secret'')))
      2 ''code_challenge_method'' = Some ''S256''
   \<and> sent_form (snd (snd (urssaf_login portal (\<lambda>i. of_nat i) Map.empty ''12345678900011'' ''secret'')))
      3 ''code_verifier'' = Some ''AAECAwQFBgcICQoLDA0ODxAREhMUFRYXGBkaGxwdHh8''
   \<and> sent_form (snd (snd (urssaf_login portal (\<lambda>i. of_nat i) Map.empty ''12345678900011'' ''secret'')))
      3 ''grant_type'' = Some ''authorization_code''
   \<and> sent_form (snd (snd (urssaf_login portal (\<lambda>i. of_nat i) Map.empty ''12345678900011'' ''secret'')))
      3 ''code'' = Some ''abc''"
proof -
  let ?run = "urssaf_login portal (\<lambda>i. of_nat i :: byte) Map.empty ''12345678900011'' ''secret''"
  have run: "?run = (fst ?run, fst (snd ?run), snd (snd ?run))" by simp
  have ok: "\<exists>x. fst ?run = Inr x" and x3: "snd (snd ?run) ! 2 =
      (authorize_request ''webti'' (b64url (map of_nat [32..<64]) @ ''-0000000000-webti'')
          (b64url [0x2c, 0xf2, 0x4d]) (b64url (map of_nat [64..<96])) ''tok'',
        Some (redirect_to ''https://webti.urssaf.fr/callback?code=abc''))"
    unfolding portal_run [OF counting_samples] by simp_all
  have v: "b64url (fst (randomBytes 32 (\<lambda>i. of_nat i))) = ''AAECAwQFBgcICQoLDA0ODxAREhMUFRYXGBkaGxwdHh8''"
    by (simp add: randomBytes_def b64url_def b64url_alphabet_def upt_rec)
  have sc: "search_param portal (redirect_to ''https://webti.urssaf.fr/callback?code=abc'') ''code''
      = Inr (Some ''abc'')"
    by (simp add: search_param_def portal_def redirect_to_def)
  from pkce_binding [OF run] ok have "length (snd (snd ?run)) = 4" by blast
  with pkce_binding [OF run] x3 v sc show ?thesis by auto
qed

text \<open>
  Claim C7. Let the cookie \<open>ctxUrssaf\<close> be the Base64 of bytes whose UTF-8 decoding is
  a JSON text of the object with the one member \<open>compte\<close>, itself the object of the
  strings \<open>siret\<close>, \<open>orga\<close> and \<open>numc\<close>. Then \<^verbatim>\<open>decodeURIComponent\<close> leaves the cookie
  as it is, the Base64 decoding gives the bytes back, and the value of \<^verbatim>\<open>compte\<close> in
  \<^verbatim>\<open>login\<close>, and in its result, is that object, unchanged.
\<close>

theorem context_cookie_round_trip:
  assumes "JSON_parse P (Buffer_toString P bs) =
      Some (JObj [(''compte'', JObj [(''siret'', JStr X), (''orga'', JStr Y), (''numc'', JStr Z)])])"
  shows "decodeURIComponent P (base64 bs) = Some (base64 bs)
     \<and> Buffer_from_base64 (base64 bs) = bs
     \<and> decode_compte P (base64 bs) =
         Inr (Some (JObj [(''siret'', JStr X), (''orga'', JStr Y), (''numc'', JStr Z)]))
     \<and> (\<forall>g s identifiant pw res r s' tr.
          fetch P [] (cnx_request identifiant pw) = Some res
          \<and> parseCookies P res ''ctxUrssaf'' = Some (base64 bs)
          \<and> urssaf_login P g s identifiant pw = (Inr r, s', tr) \<longrightarrow>
          compte r = Some (JObj [(''siret'', JStr X), (''orga'', JStr Y), (''numc'', JStr Z)]))"
proof -
  have d: "decode_compte P (base64 bs) =
         Inr (Some (JObj [(''siret'', JStr X), (''orga'', JStr Y), (''numc'', JStr Z)]))"
    using decode_compte_base64 [OF assms] by simp
  have "compte r = Some (JObj [(''siret'', JStr X), (''orga'', JStr Y), (''numc'', JStr Z)])"
    if "fetch P [] (cnx_request identifiant pw) = Some res"
      and "parseCookies P res ''ctxUrssaf'' = Some (base64 bs)"
      and "urssaf_login P g s identifiant pw = (Inr r, s', tr)"
    for g s identifiant pw res r s' tr
    using urssaf_login_compte [OF that(3) that(1)] that(2) d by simp
  then have "\<forall>g s identifiant pw res r s' tr.
          fetch P [] (cnx_request identifiant pw) = Some res
          \<and> parseCookies P res ''ctxUrssaf'' = Some (base64 bs)
          \<and> urssaf_login P g s identifiant pw = (Inr r, s', tr) \<longrightarrow>
          compte r = Some (JObj [(''siret'', JStr X), (''orga'', JStr Y), (''numc'', JStr Z)])"
    by blast
  moreover have "decodeURIComponent P (base64 bs) = Some (base64 bs)"
    by (simp add: decodeURIComponent_def base64_no_percent)
  ultimately show ?thesis
    using d Buffer_from_base64_base64 [of bs] by blast
qed

theorem context_cookie_round_trip_witness:
  "JSON_parse portal (Buffer_toString portal compte_bytes) = Some (JObj [(''compte'', compte_doc)])
   \<and> decode_compte portal (base64 compte_bytes) = Inr (Some compte_doc)
   \<and> compte_doc = JObj [(''siret'', JStr ''12345678900011''), (''orga'', JStr ''117''),
        (''numc'', JStr ''42'')]"
  using context_cookie_round_trip [of portal compte_bytes "''12345678900011''" "''117''" "''42''"]
    portal_parse_compte
  by (simp add: compte_doc_def)

text \<open>
  Claim C8. Take two handshakes that return a result. In each, the \<^verbatim>\<open>code_verifier\<close>,
  the \<^verbatim>\<open>state\<close> and the \<^verbatim>\<open>nonce\<close> sent are the base64url texts (the \<^verbatim>\<open>state\<close> with its
  fixed suffix) of the bytes 0 to 31, 32 to 63 and 64 to 95 that the random source
  yields during the run. Each of the three values is the same in the two runs exactly
  when its sample is, so the triples differ as soon as the samples do. The values depend
  on nothing else, and the secret store is the same after each run as before.
\<close>

theorem pkce_fresh:
  assumes "urssaf_login P g s identifiant pw = (Inr r, s', tr)"
    and "urssaf_login Q h u identifiant2 pw2 = (Inr q, u', tq)"
  shows "(\<exists>r1 r2 r3 q1 q2 q3.
      pkce_samples g = (r1, r2, r3) \<and> pkce_samples h = (q1, q2, q3)
      \<and> r1 = map g [0..<32] \<and> r2 = map g [32..<64] \<and> r3 = map g [64..<96]
      \<and> pkce_triple tr =
          (Some (b64url r1), Some (b64url r2 @ ''-0000000000-webti''), Some (b64url r3))
      \<and> pkce_triple tq =
          (Some (b64url q1), Some (b64url q2 @ ''-0000000000-webti''), Some (b64url q3))
      \<and> (sent_form tr 3 ''code_verifier'' = sent_form tq 3 ''code_verifier'' \<longleftrightarrow> r1 = q1)
      \<and> (sent_query tr 2 ''state'' = sent_query tq 2 ''state'' \<longleftrightarrow> r2 = q2)
      \<and> (sent_query tr 2 ''nonce'' = sent_query tq 2 ''nonce'' \<longleftrightarrow> r3 = q3)
      \<and> (pkce_triple tr = pkce_triple tq \<longleftrightarrow> pkce_samples g = pkce_samples h))
    \<and> s' = s \<and> u' = u"
proof -
  obtain r1 r2 r3 where p: "pkce_samples g = (r1, r2, r3)"
    by (cases "pkce_samples g") auto
  obtain q1 q2 q3 where p': "pkce_samples h = (q1, q2, q3)"
    by (cases "pkce_samples h") auto
  have "map (\<lambda>i. g (i + 32)) [0..<32] = map g (map (\<lambda>i. i + 32) [0..<32])"
    and "map (\<lambda>i. g (i + 64)) [0..<32] = map g (map (\<lambda>i. i + 64) [0..<32])"
    by (simp_all only: map_map comp_def)
  moreover have "map (\<lambda>i. i + 32) [0..<32] = [32..<64]" "map (\<lambda>i. i + 64) [0..<32] = [64..<96]"
    using map_add_upt [of 32 32] map_add_upt [of 64 32] by simp_all
  ultimately have seg: "r1 = map g [0..<32]" "r2 = map g [32..<64]" "r3 = map g [64..<96]"
    using p unfolding pkce_samples_eq by (simp_all only: prod.inject)
  from urssaf_login_log [OF assms(1) p]
  have a: "pkce_triple tr =
          (Some (b64url r1), Some (b64url r2 @ ''-0000000000-webti''), Some (b64url r3))
        \<and> s' = s"
    by (elim disjE exE conjE)
       (simp_all add: pkce_triple_def sent_query_def sent_form_def authorize_request_def
          token_request_def)
  from urssaf_login_log [OF assms(2) p']
  have b: "pkce_triple tq =
          (Some (b64url q1), Some (b64url q2 @ ''-0000000000-webti''), Some (b64url q3))
        \<and> u' = u"
    by (elim disjE exE conjE)
       (simp_all add: pkce_triple_def sent_query_def sent_form_def authorize_request_def
          token_request_def)
  from a b have c: "sent_form tr 3 ''code_verifier'' = Some (b64url r1)"
    "sent_query tr 2 ''state'' = Some (b64url r2 @ ''-0000000000-webti'')"
    "sent_query tr 2 ''nonce'' = Some (b64url r3)"
    "sent_form tq 3 ''code_verifier'' = Some (b64url q1)"
    "sent_query tq 2 ''state'' = Some (b64url q2 @ ''-0000000000-webti'')"
    "sent_query tq 2 ''nonce'' = Some (b64url q3)"
    by (simp_all add: pkce_triple_def)
  have "(pkce_triple tr = pkce_triple tq \<longleftrightarrow> pkce_samples g = pkce_samples h)"
    using a b p p' by (simp add: b64url_inj)
  with a b c p p' seg show ?thesis
    by (simp add: b64url_inj)
qed

theorem pkce_fresh_witness:
  "pkce_triple (snd (snd (urssaf_login portal (\<lambda>i. of_nat i) Map.empty ''12345678900011'' ''secret'')))
     = (Some ''AAECAwQFBgcICQoLDA0ODxAREhMUFRYXGBkaGxwdHh8'',
        Some ''ICEiIyQlJicoKSorLC0uLzAxMjM0NTY3ODk6Ozw9Pj8-0000000000-webti'',
        Some ''QEFCQ0RFRkdISUpLTE1OT1BRUlNUVVZXWFlaW1xdXl8'')
   \<and> pkce_triple (snd (snd (urssaf_login portal (\<lambda>i. of_nat i) Map.empty ''12345678900011'' ''secret'')))
     \<noteq> pkce_triple (snd (snd (urssaf_login portal (\<lambda>i. 0) Map.empty ''12345678900011'' ''secret'')))"
proof -
  let ?run = "urssaf_login portal (\<lambda>i. of_nat i :: byte) Map.empty ''12345678900011'' ''secret''"
  let ?again = "urssaf_login portal (\<lambda>i. 0 :: byte) Map.empty ''12345678900011'' ''secret''"
  from portal_run [OF counting_samples, of Map.empty]
  obtain r s' tr where run: "?run = (Inr r, s', tr)"
    by blast
  from portal_run [OF zero_samples, of Map.empty]
  obtain q u' tq where run0: "?again = (Inr q, u', tq)"
    by blast
  have ne: "pkce_samples (\<lambda>i. of_nat i :: byte) \<noteq> pkce_samples (\<lambda>i. 0)"
    unfolding counting_samples zero_samples by (simp add: upt_rec)
  have v: "b64url (map of_nat [0..<32] :: byte list) = ''AAECAwQFBgcICQoLDA0ODxAREhMUFRYXGBkaGxwdHh8''"
    "b64url (map of_nat [32..<64]) = ''ICEiIyQlJicoKSorLC0uLzAxMjM0NTY3ODk6Ozw9Pj8''"
    "b64url (map of_nat [64..<96]) = ''QEFCQ0RFRkdISUpLTE1OT1BRUlNUVVZXWFlaW1xdXl8''"
    by (simp_all add: b64url_def b64url_alphabet_def upt_rec)
  from pkce_fresh [OF run run0] ne counting_samples v
  have "pkce_triple tr
     = (Some ''AAECAwQFBgcICQoLDA0ODxAREhMUFRYXGBkaGxwdHh8'',
        Some ''ICEiIyQlJicoKSorLC0uLzAxMjM0NTY3ODk6Ozw9Pj8-0000000000-webti'',
        Some ''QEFCQ0RFRkdISUpLTE1OT1BRUlNUVVZXWFlaW1xdXl8'')
   \<and> pkce_triple tr \<noteq> pkce_triple tq"
    by auto
  moreover have "snd (snd ?run) = tr" "snd (snd ?again) = tq"
    by (simp_all only: run run0 snd_conv)
  ultimately show ?thesis by metis
qed

end
